(* ===== verification/Go_Prelude.thy ===== *)
theory Go_Prelude
  imports Main "HOL-Library.AList" "HOL-Library.Word"
begin

text \<open>
  Prelude of the development: the vocabulary every component shares.

  \<^item> Go's \<open>error\<close> values and the \<open>(value, error)\<close> return convention, as a sum type with
    the two idioms the sources use (\<open>if err != nil { return ..., err }\<close> and
    \<open>fmt.Errorf("...: %w", err)\<close>);
  \<^item> Go maps, as association lists without duplicate keys, and the interface
    \<open>keyed_store\<close> that every keyed structure of the program is used through;
  \<^item> the loop shapes of the sources (append under a condition, first match) with their
    closed forms;
  \<^item> the collections of rewrite rules the component proofs use.
\<close>

section \<open>Collections\<close>

named_theorems go_result \<open>unfolding of the error-return idioms\<close>
named_theorems go_loop \<open>closed forms of the loop shapes\<close>
named_theorems go_string \<open>facts about Go string functions\<close>

section \<open>Byte strings and machine integers\<close>

text \<open>A Go \<open>string\<close> and a Go \<open>[]byte\<close> are byte sequences; an Isabelle character is a byte.\<close>

type_synonym bytes = string

type_synonym int32 = "32 word"
type_synonym uint32 = "32 word"
type_synonym int64 = "64 word"

text \<open>A non-negative signed word has the same value read unsigned.\<close>

lemma uint_eq_sint:
  fixes w :: "'a :: len word"
  assumes "0 \<le> sint w"
  shows "uint w = sint w"
proof -
  have "sint w < 2 ^ (LENGTH('a) - 1)" using sint_less [of w] by simp
  also have "\<dots> \<le> (2::int) ^ LENGTH('a)" by (intro power_increasing) simp_all
  finally show ?thesis using assms by (simp add: uint_sint take_bit_int_eq_self)
qed

section \<open>Errors as values\<close>

text \<open>
  An error is either one a library returned, with its text, or one made by
  \<open>fmt.Errorf(prefix + "%w", err)\<close> around another.
\<close>

datatype go_error = GoError string | Wrapped string go_error

primrec error_text :: "go_error \<Rightarrow> string" where
  "error_text (GoError s) = s"
| "error_text (Wrapped p e) = p @ error_text e"

primrec error_cause :: "go_error \<Rightarrow> go_error" where
  "error_cause (GoError s) = GoError s"
| "error_cause (Wrapped p e) = error_cause e"

type_synonym 'a result = "go_error + 'a"

definition result_bind :: "'a result \<Rightarrow> ('a \<Rightarrow> 'b result) \<Rightarrow> 'b result" where
  "result_bind m f = (case m of Inl e \<Rightarrow> Inl e | Inr x \<Rightarrow> f x)"

definition errorf :: "string \<Rightarrow> 'a result \<Rightarrow> 'a result" where
  "errorf p m = (case m of Inl e \<Rightarrow> Inl (Wrapped p e) | Inr x \<Rightarrow> Inr x)"

definition is_ok :: "'a result \<Rightarrow> bool" where
  "is_ok m = (case m of Inl _ \<Rightarrow> False | Inr _ \<Rightarrow> True)"

lemma result_bind_simps [simp, go_result]:
  "result_bind (Inl e) f = Inl e"
  "result_bind (Inr x) f = f x"
  by (simp_all add: result_bind_def)

lemma errorf_simps [simp, go_result]:
  "errorf p (Inl e) = Inl (Wrapped p e)"
  "errorf p (Inr x) = Inr x"
  by (simp_all add: errorf_def)

lemma is_ok_simps [simp, go_result]:
  "is_ok (Inl e) = False"
  "is_ok (Inr x) = True"
  by (simp_all add: is_ok_def)

lemma result_bind_Inr_iff:
  "result_bind m f = Inr y \<longleftrightarrow> (\<exists>x. m = Inr x \<and> f x = Inr y)"
  by (cases m) simp_all

lemma errorf_Inr_iff [simp]: "errorf p m = Inr x \<longleftrightarrow> m = Inr x"
  by (cases m) simp_all

lemma is_ok_iff: "is_ok m \<longleftrightarrow> (\<exists>x. m = Inr x)"
  by (cases m) simp_all

lemma map_eq_map_Inr_iff:
  "map f xs = map Inr ys \<longleftrightarrow> (\<forall>x \<in> set xs. is_ok (f x)) \<and> ys = map (\<lambda>x. projr (f x)) xs"
proof (induction xs arbitrary: ys)
  case Nil
  then show ?case by auto
next
  case (Cons x xs)
  then show ?case by (cases ys; cases "f x") auto
qed

lemma result_bind_cong [fundef_cong]:
  "m = m' \<Longrightarrow> (\<And>x. m' = Inr x \<Longrightarrow> f x = g x) \<Longrightarrow> result_bind m f = result_bind m' g"
  by (cases m') simp_all

section \<open>Keyed stores\<close>

text \<open>
  The interface of a Go map as the program uses one: a lookup and a write that
  overwrites. The facts about the loop \<open>for _, x := range xs { m[key(x)] = val(x) }\<close> are
  proved here once: the last element with a key wins, and the keys are the old ones and
  the written ones.
\<close>

locale keyed_store =
  fixes lookup :: "'m \<Rightarrow> 'k \<Rightarrow> 'v option"
    and put :: "'k \<Rightarrow> 'v \<Rightarrow> 'm \<Rightarrow> 'm"
  assumes lookup_put: "lookup (put k v m) = (lookup m)(k \<mapsto> v)"
begin

lemma lookup_fold:
  "lookup (fold (\<lambda>x. put (key x) (val x)) xs m) k =
     (case find (\<lambda>x. key x = k) (rev xs) of Some x \<Rightarrow> Some (val x) | None \<Rightarrow> lookup m k)"
proof (induction xs rule: rev_induct)
  case Nil
  then show ?case by simp
next
  case (snoc x xs)
  then show ?case by (simp add: lookup_put)
qed

lemma dom_fold:
  "dom (lookup (fold (\<lambda>x. put (key x) (val x)) xs m)) = dom (lookup m) \<union> key ` set xs"
proof (induction xs arbitrary: m)
  case Nil
  then show ?case by simp
next
  case (Cons x xs)
  then show ?case by (auto simp: lookup_put split: if_splits)
qed

lemma lookup_fold_notin:
  assumes "k \<notin> key ` set xs"
  shows "lookup (fold (\<lambda>x. put (key x) (val x)) xs m) k = lookup m k"
proof -
  have "find (\<lambda>x. key x = k) (rev xs) = None"
    using assms by (auto simp: find_None_iff)
  then show ?thesis by (simp add: lookup_fold)
qed

lemma lookup_fold_distinct:
  assumes "distinct (map key xs)" and "x \<in> set xs"
  shows "lookup (fold (\<lambda>x. put (key x) (val x)) xs m) (key x) = Some (val x)"
  using assms
proof (induction xs arbitrary: m)
  case Nil
  then show ?case by simp
next
  case (Cons y ys)
  show ?case
  proof (cases "x = y")
    case True
    with Cons.prems have "key x \<notin> key ` set ys" by auto
    with True show ?thesis by (simp add: lookup_fold_notin lookup_put)
  next
    case False
    with Cons.prems have "x \<in> set ys" and "distinct (map key ys)" by auto
    then show ?thesis using Cons.IH by simp
  qed
qed

end

text \<open>A Go map is an association list; writing a key replaces its entry or adds one.\<close>

type_synonym ('k, 'v) gomap = "('k \<times> 'v) list"

abbreviation gomap_get :: "('k, 'v) gomap \<Rightarrow> 'k \<Rightarrow> 'v option" where
  "gomap_get \<equiv> map_of"

abbreviation gomap_set :: "'k \<Rightarrow> 'v \<Rightarrow> ('k, 'v) gomap \<Rightarrow> ('k, 'v) gomap" where
  "gomap_set \<equiv> AList.update"

abbreviation gomap_has :: "('k, 'v) gomap \<Rightarrow> 'k \<Rightarrow> bool" where
  "gomap_has m k \<equiv> map_of m k \<noteq> None"

interpretation gm: keyed_store gomap_get gomap_set
  by unfold_locales (simp add: update_conv')

lemma gomap_set_distinct: "distinct (map fst m) \<Longrightarrow> distinct (map fst (gomap_set k v m))"
  by (rule distinct_update)

lemma ex_fun_upd: "(\<exists>j. (f(i := v)) j = y) \<longleftrightarrow> v = y \<or> (\<exists>j. j \<noteq> i \<and> f j = y)"
  by (metis fun_upd_apply)

section \<open>Loop shapes\<close>

text \<open>\<open>for _, x := range xs { if p(x) { out = append(out, f(x)) } }\<close>, with one or two slices.\<close>

lemma foldl_append_filter [go_loop]:
  "foldl (\<lambda>out x. if p x then out @ [f x] else out) out xs = out @ map f (filter p xs)"
  by (induction xs arbitrary: out) auto

lemma foldl_append_filter2 [go_loop]:
  "foldl (\<lambda>(as, bs) x. if p x then (as @ [f x], bs @ [g x]) else (as, bs)) (as, bs) xs =
     (as @ map f (filter p xs), bs @ map g (filter p xs))"
  by (induction xs arbitrary: as bs) auto

lemma foldl_append_filter3 [go_loop]:
  "foldl (\<lambda>(as, bs, cs) x. if p x then (as @ [f x], bs @ [g x], cs @ [h x]) else (as, bs, cs))
     (as, bs, cs) xs =
     (as @ map f (filter p xs), bs @ map g (filter p xs), cs @ map h (filter p xs))"
  by (induction xs arbitrary: as bs cs) auto

lemma foldl_append_concat [go_loop]:
  "foldl (\<lambda>out x. out @ f x) out xs = out @ concat (map f xs)"
  by (induction xs arbitrary: out) auto

lemma foldl_append_map [go_loop]:
  "foldl (\<lambda>out x. out @ [f x]) out xs = out @ map f xs"
  by (induction xs arbitrary: out) auto

lemma find_append:
  "find p (xs @ ys) = (case find p xs of Some x \<Rightarrow> Some x | None \<Rightarrow> find p ys)"
  by (induction xs) auto

lemma find_Some_prop: "find p xs = Some x \<Longrightarrow> p x \<and> x \<in> set xs"
  by (induction xs) (auto split: if_splits)

text \<open>
  The loop that appends each key once: \<open>if !seen[k] { seen[k] = true; out = append(out, k) }\<close>
  over the elements that have a key.
\<close>

definition dedup_step :: "('a \<Rightarrow> 'k option) \<Rightarrow> ('k, bool) gomap \<times> 'k list \<Rightarrow> 'a \<Rightarrow> ('k, bool) gomap \<times> 'k list" where
  "dedup_step key st x = (case key x of
     None \<Rightarrow> st
   | Some k \<Rightarrow> if gomap_get (fst st) k \<noteq> Some True then (gomap_set k True (fst st), snd st @ [k]) else st)"

definition dedup_inv :: "('k, bool) gomap \<times> 'k list \<Rightarrow> bool" where
  "dedup_inv st \<longleftrightarrow> distinct (snd st) \<and> (\<forall>k. gomap_get (fst st) k = Some True \<longleftrightarrow> k \<in> set (snd st))"

lemma dedup_step_inv: "dedup_inv st \<Longrightarrow> dedup_inv (dedup_step key st x)"
  by (auto simp: dedup_inv_def dedup_step_def update_conv' split: option.splits if_splits)

lemma dedup_step_set:
  "dedup_inv st \<Longrightarrow> set (snd (dedup_step key st x)) = set (snd st) \<union> set_option (key x)"
  by (auto simp: dedup_inv_def dedup_step_def split: option.splits if_splits)

lemma dedup_loop:
  assumes "dedup_inv st"
  shows "dedup_inv (foldl (dedup_step key) st xs) \<and>
    set (snd (foldl (dedup_step key) st xs)) = set (snd st) \<union> {k. \<exists>x \<in> set xs. key x = Some k}"
  using assms
proof (induction xs arbitrary: st)
  case Nil
  then show ?case by simp
next
  case (Cons x xs)
  from Cons.IH [OF dedup_step_inv [OF Cons.prems, of key x]] show ?case
    by (auto simp: dedup_step_set [OF Cons.prems])
qed

lemma dedup_loop_result:
  "distinct (snd (foldl (dedup_step key) ([], []) xs))"
  "set (snd (foldl (dedup_step key) ([], []) xs)) = {k. \<exists>x \<in> set xs. key x = Some k}"
  using dedup_loop [of "([], [])" key xs] by (simp_all add: dedup_inv_def)

end
