(* ===== verification/Api_Types.thy ===== *)
theory Api_Types
  imports Go_Strings
begin

text \<open>
  The API types of \<open>control-plane/api/v1alpha1\<close>: the custom resources, their target
  references and the status of a proxy, one record per Go struct. Of the Kubernetes types
  these structs embed (object metadata, conditions, endpoint slices) the records keep the
  fields the sources read or write. A \<open>runtime.RawExtension\<close> is its raw bytes; a pointer
  that may be nil is an \<open>option\<close>.
\<close>

section \<open>Kubernetes types as the sources use them\<close>

record NamespacedName =
  nn_Name :: string
  nn_Namespace :: string

record ObjectMeta =
  meta_Name :: string
  meta_Namespace :: string
  meta_ResourceVersion :: string
  meta_Generation :: int64
  meta_Labels :: "(string, string) gomap"

datatype ConditionStatus = ConditionTrue | ConditionFalse | ConditionUnknown

record Condition =
  cond_Type :: string
  cond_Status :: ConditionStatus
  cond_Reason :: string
  cond_Message :: string
  cond_ObservedGeneration :: int64

text \<open>An \<open>EndpointSlice\<close> of \<open>discovery.k8s.io/v1\<close>: its ports, and its endpoints with addresses
  and the \<open>ready\<close> condition.\<close>

record Endpoint =
  ep_Addresses :: "string list"
  ep_Ready :: "bool option"

record EndpointSlice =
  slice_ObjectMeta :: ObjectMeta
  slice_Ports :: "int32 option list"
  slice_Endpoints :: "Endpoint list"

section \<open>References\<close>

record TargetRef =
  TargetRef_Name :: string
  TargetRef_Namespace :: string

record KubernetesServiceRef =
  ServiceRef_Name :: string
  ServiceRef_Namespace :: string
  ServiceRef_Port :: "int32 option"

section \<open>The xDS resource kinds\<close>

record Listener =
  Listener_ObjectMeta :: ObjectMeta
  Listener_TargetRef :: TargetRef
  Listener_Spec :: bytes

record Cluster =
  Cluster_ObjectMeta :: ObjectMeta
  Cluster_TargetRef :: TargetRef
  Cluster_KubernetesServiceRef :: "KubernetesServiceRef option"
  Cluster_Spec :: bytes

record RouteConfiguration =
  RouteConfiguration_ObjectMeta :: ObjectMeta
  RouteConfiguration_TargetRef :: TargetRef
  RouteConfiguration_Spec :: bytes

record ScopedRouteConfiguration =
  ScopedRouteConfiguration_ObjectMeta :: ObjectMeta
  ScopedRouteConfiguration_TargetRef :: TargetRef
  ScopedRouteConfiguration_Spec :: bytes

record ClusterLoadAssignment =
  ClusterLoadAssignment_ObjectMeta :: ObjectMeta
  ClusterLoadAssignment_TargetRef :: TargetRef
  ClusterLoadAssignment_Spec :: bytes

section \<open>The proxy and its status\<close>

definition ConditionConnected :: string where
  "ConditionConnected = ''Connected''"

definition ConditionReady :: string where
  "ConditionReady = ''Ready''"

text \<open>\<open>EnvoyProxySpec\<close> is an empty struct.\<close>

type_synonym EnvoyProxySpec = unit

record EnvoyProxyStatus =
  status_ObservedGeneration :: int64
  status_Conditions :: "Condition list"

record EnvoyProxy =
  EnvoyProxy_ObjectMeta :: ObjectMeta
  EnvoyProxy_Spec :: EnvoyProxySpec
  EnvoyProxy_Status :: EnvoyProxyStatus

lemma condition_types_differ [simp]: "ConditionConnected \<noteq> ConditionReady"
  by (simp add: ConditionConnected_def ConditionReady_def)

section \<open>Objects as the watches deliver them\<close>

text \<open>\<open>client.Object\<close>: one of the watched kinds. Five of them have a \<open>GetTargetRef\<close> method.\<close>

datatype client_object =
    ObjEnvoyProxy EnvoyProxy
  | ObjListener Listener
  | ObjCluster Cluster
  | ObjRouteConfiguration RouteConfiguration
  | ObjScopedRouteConfiguration ScopedRouteConfiguration
  | ObjClusterLoadAssignment ClusterLoadAssignment
  | ObjEndpointSlice EndpointSlice

definition Listener_GetTargetRef :: "Listener \<Rightarrow> TargetRef" where
  "Listener_GetTargetRef l = Listener_TargetRef l"

definition Cluster_GetTargetRef :: "Cluster \<Rightarrow> TargetRef" where
  "Cluster_GetTargetRef c = Cluster_TargetRef c"

definition RouteConfiguration_GetTargetRef :: "RouteConfiguration \<Rightarrow> TargetRef" where
  "RouteConfiguration_GetTargetRef r = RouteConfiguration_TargetRef r"

definition ScopedRouteConfiguration_GetTargetRef :: "ScopedRouteConfiguration \<Rightarrow> TargetRef" where
  "ScopedRouteConfiguration_GetTargetRef s = ScopedRouteConfiguration_TargetRef s"

definition ClusterLoadAssignment_GetTargetRef :: "ClusterLoadAssignment \<Rightarrow> TargetRef" where
  "ClusterLoadAssignment_GetTargetRef c = ClusterLoadAssignment_TargetRef c"

lemmas GetTargetRef_defs =
  Listener_GetTargetRef_def Cluster_GetTargetRef_def RouteConfiguration_GetTargetRef_def
  ScopedRouteConfiguration_GetTargetRef_def ClusterLoadAssignment_GetTargetRef_def

text \<open>\<open>obj.(targetReffer)\<close>: the target reference of an object whose kind has the method.\<close>

fun as_targetReffer :: "client_object \<Rightarrow> TargetRef option" where
  "as_targetReffer (ObjListener l) = Some (Listener_GetTargetRef l)"
| "as_targetReffer (ObjCluster c) = Some (Cluster_GetTargetRef c)"
| "as_targetReffer (ObjRouteConfiguration r) = Some (RouteConfiguration_GetTargetRef r)"
| "as_targetReffer (ObjScopedRouteConfiguration s) = Some (ScopedRouteConfiguration_GetTargetRef s)"
| "as_targetReffer (ObjClusterLoadAssignment c) = Some (ClusterLoadAssignment_GetTargetRef c)"
| "as_targetReffer (ObjEnvoyProxy e) = None"
| "as_targetReffer (ObjEndpointSlice s) = None"

fun object_meta :: "client_object \<Rightarrow> ObjectMeta" where
  "object_meta (ObjEnvoyProxy e) = EnvoyProxy_ObjectMeta e"
| "object_meta (ObjListener l) = Listener_ObjectMeta l"
| "object_meta (ObjCluster c) = Cluster_ObjectMeta c"
| "object_meta (ObjRouteConfiguration r) = RouteConfiguration_ObjectMeta r"
| "object_meta (ObjScopedRouteConfiguration s) = ScopedRouteConfiguration_ObjectMeta s"
| "object_meta (ObjClusterLoadAssignment c) = ClusterLoadAssignment_ObjectMeta c"
| "object_meta (ObjEndpointSlice s) = slice_ObjectMeta s"

definition GetNamespace :: "client_object \<Rightarrow> string" where
  "GetNamespace obj = meta_Namespace (object_meta obj)"

definition GetLabels :: "client_object \<Rightarrow> (string, string) gomap" where
  "GetLabels obj = meta_Labels (object_meta obj)"

end
