(* ===== verification/Go_Json.thy ===== *)
theory Go_Json
  imports Go_Strings
begin

text \<open>
  The part of Go's \<open>encoding/json\<close> that \<open>xds.ClusterName\<close> relies on: \<open>json.Unmarshal\<close> of a byte
  string into a struct with one string field. As in the package, the input is read by a
  scanner that is a stack machine driven by one byte at a time (\<open>scanner.step\<close>), so it
  needs no termination argument; string literals are unquoted separately
  (\<open>unquoteBytes\<close>). The scanner here also builds the value it reads.

  The main result is a round trip: what the printer \<open>json_print\<close> writes for a well-formed
  document, the scanner reads back as that document.
\<close>

section \<open>Values\<close>

datatype json =
    JNull
  | JBool bool
  | JNum string
  | JStr string
  | JArr "json list"
  | JObj "(string \<times> json) list"

section \<open>Bytes\<close>

abbreviation byte_val :: "char \<Rightarrow> nat" where
  "byte_val c \<equiv> of_char c"

definition is_ws :: "char \<Rightarrow> bool" where
  "is_ws c \<longleftrightarrow> c = CHR '' '' \<or> c = CHR 0x09 \<or> c = CHR 0x0D \<or> c = CHR 0x0A"

definition is_digit :: "char \<Rightarrow> bool" where
  "is_digit c \<longleftrightarrow> 48 \<le> byte_val c \<and> byte_val c \<le> 57"

definition is_digit19 :: "char \<Rightarrow> bool" where
  "is_digit19 c \<longleftrightarrow> 49 \<le> byte_val c \<and> byte_val c \<le> 57"

definition hex_val :: "char \<Rightarrow> nat option" where
  "hex_val c =
     (let n = byte_val c in
      if 48 \<le> n \<and> n \<le> 57 then Some (n - 48)
      else if 97 \<le> n \<and> n \<le> 102 then Some (n - 87)
      else if 65 \<le> n \<and> n \<le> 70 then Some (n - 55)
      else None)"

section \<open>UTF-8\<close>

text \<open>\<open>utf8.EncodeRune\<close>; a surrogate or a value out of range is written as U+FFFD.\<close>

definition replacement :: string where
  "replacement = [CHR 0xEF, CHR 0xBF, CHR 0xBD]"

definition encode_rune :: "nat \<Rightarrow> string" where
  "encode_rune r =
     (if r < 128 then [char_of r]
      else if r < 2048 then [char_of (192 + r div 64), char_of (128 + r mod 64)]
      else if 55296 \<le> r \<and> r \<le> 57343 then replacement
      else if r < 65536 then
        [char_of (224 + r div 4096), char_of (128 + (r div 64) mod 64), char_of (128 + r mod 64)]
      else if r \<le> 1114111 then
        [char_of (240 + r div 262144), char_of (128 + (r div 4096) mod 64),
         char_of (128 + (r div 64) mod 64), char_of (128 + r mod 64)]
      else replacement)"

definition cont_byte :: "char \<Rightarrow> bool" where
  "cont_byte c \<longleftrightarrow> 128 \<le> byte_val c \<and> byte_val c \<le> 191"

text \<open>The length of the valid multi-byte sequence at the front of the input, 0 if there is none.\<close>

definition utf8_len :: "string \<Rightarrow> nat" where
  "utf8_len s = (case s of
     a # b # rest \<Rightarrow>
       (let x = byte_val a; y = byte_val b in
        if 194 \<le> x \<and> x \<le> 223 then (if cont_byte b then 2 else 0)
        else if 224 \<le> x \<and> x \<le> 239 then
          (if (if x = 224 then 160 else 128) \<le> y \<and> y \<le> (if x = 237 then 159 else 191)
           then (case rest of c # _ \<Rightarrow> if cont_byte c then 3 else 0 | [] \<Rightarrow> 0) else 0)
        else if 240 \<le> x \<and> x \<le> 244 then
          (if (if x = 240 then 144 else 128) \<le> y \<and> y \<le> (if x = 244 then 143 else 191)
           then (case rest of c # d # _ \<Rightarrow> if cont_byte c \<and> cont_byte d then 4 else 0 | _ \<Rightarrow> 0) else 0)
        else 0)
   | _ \<Rightarrow> 0)"

section \<open>Unquoting string literals\<close>

definition getu4 :: "string \<Rightarrow> nat option" where
  "getu4 s = (case s of
     b # u # h1 # h2 # h3 # h4 # _ \<Rightarrow>
       (if b = CHR 0x5C \<and> u = CHR ''u'' then
          (case (hex_val h1, hex_val h2, hex_val h3, hex_val h4) of
             (Some a, Some b, Some c, Some d) \<Rightarrow> Some (((a * 16 + b) * 16 + c) * 16 + d)
           | _ \<Rightarrow> None)
        else None)
   | _ \<Rightarrow> None)"

text \<open>\<open>utf16.DecodeRune\<close>: the code point of a surrogate pair.\<close>

definition decode_pair :: "nat \<Rightarrow> nat option \<Rightarrow> nat option" where
  "decode_pair hi lo = (case lo of
     None \<Rightarrow> None
   | Some l \<Rightarrow>
      if 55296 \<le> hi \<and> hi < 56320 \<and> 56320 \<le> l \<and> l < 57344
      then Some ((hi - 55296) * 1024 + (l - 56320) + 65536) else None)"

definition escape_byte :: "char \<Rightarrow> char option" where
  "escape_byte c =
     (if c = CHR 0x22 \<or> c = CHR 0x5C \<or> c = CHR ''/'' then Some c
      else if c = CHR ''b'' then Some (CHR 0x08)
      else if c = CHR ''f'' then Some (CHR 0x0C)
      else if c = CHR ''n'' then Some (CHR 0x0A)
      else if c = CHR ''r'' then Some (CHR 0x0D)
      else if c = CHR ''t'' then Some (CHR 0x09)
      else None)"

text \<open>
  The text between the quotes of a literal, decoded. The scanner has checked the escapes,
  so the cases that give up are not reached from \<open>json_decode\<close>.
\<close>

function unquote :: "string \<Rightarrow> string option" where
  "unquote s = (case s of
     [] \<Rightarrow> Some []
   | c # rest \<Rightarrow>
      if c = CHR 0x5C then
        (case getu4 s of
           Some r \<Rightarrow>
             (if 55296 \<le> r \<and> r < 57344 then
                (case decode_pair r (getu4 (drop 6 s)) of
                   Some q \<Rightarrow> map_option (\<lambda>t. encode_rune q @ t) (unquote (drop 12 s))
                 | None \<Rightarrow> map_option (\<lambda>t. replacement @ t) (unquote (drop 6 s)))
              else map_option (\<lambda>t. encode_rune r @ t) (unquote (drop 6 s)))
         | None \<Rightarrow>
             (case rest of
                [] \<Rightarrow> None
              | e # rest' \<Rightarrow>
                  (case escape_byte e of
                     None \<Rightarrow> None
                   | Some x \<Rightarrow> map_option (\<lambda>t. x # t) (unquote rest'))))
      else if byte_val c < 128 then map_option (\<lambda>t. c # t) (unquote rest)
      else if utf8_len s = 0 then map_option (\<lambda>t. replacement @ t) (unquote rest)
      else map_option (\<lambda>t. take (utf8_len s) s @ t) (unquote (drop (utf8_len s) s)))"
  by pat_completeness auto
termination
  by (relation "measure length") auto

declare unquote.simps [simp del]

section \<open>The scanner\<close>

text \<open>Where the scanner is inside a number (\<open>stateNeg\<close>, \<open>state0\<close>, \<open>state1\<close>, \<open>stateDot\<close>, ...).\<close>

datatype num_state = NNeg | N0 | N1 | NDot | NDot0 | NE | NESign | NE0

fun num_start :: "char \<Rightarrow> num_state option" where
  "num_start c =
     (if c = CHR ''-'' then Some NNeg else if c = CHR ''0'' then Some N0
      else if is_digit19 c then Some N1 else None)"

definition num_exp :: "char \<Rightarrow> num_state option" where
  "num_exp c = (if c = CHR ''e'' \<or> c = CHR ''E'' then Some NE else None)"

fun num_step :: "num_state \<Rightarrow> char \<Rightarrow> num_state option" where
  "num_step NNeg c = (if c = CHR ''0'' then Some N0 else if is_digit19 c then Some N1 else None)"
| "num_step N0 c = (if c = CHR ''.'' then Some NDot else num_exp c)"
| "num_step N1 c = (if is_digit c then Some N1 else if c = CHR ''.'' then Some NDot else num_exp c)"
| "num_step NDot c = (if is_digit c then Some NDot0 else None)"
| "num_step NDot0 c = (if is_digit c then Some NDot0 else num_exp c)"
| "num_step NE c = (if c = CHR ''+'' \<or> c = CHR ''-'' then Some NESign
                    else if is_digit c then Some NE0 else None)"
| "num_step NESign c = (if is_digit c then Some NE0 else None)"
| "num_step NE0 c = (if is_digit c then Some NE0 else None)"

fun num_accept :: "num_state \<Rightarrow> bool" where
  "num_accept N0 = True"
| "num_accept N1 = True"
| "num_accept NDot0 = True"
| "num_accept NE0 = True"
| "num_accept _ = False"

text \<open>
  The parse stack: an array with its elements so far, an object with its members so far
  and a key to come, an object with a key whose value is to come (lists in reverse).
\<close>

datatype frame =
    FArr "json list"
  | FKey "(string \<times> json) list"
  | FVal "(string \<times> json) list" string

datatype scan_state =
    BeginValue
  | BeginValueOrEmpty
  | BeginStringOrEmpty
  | BeginString
  | InString bool string
  | InStringEsc bool string
  | InStringEscU bool nat string
  | InNumber num_state string
  | InLit string json
  | EndKey
  | EndValue
  | EndTop json
  | ScanError

type_synonym scanner = "scan_state \<times> frame list"

definition maxNestingDepth :: nat where
  "maxNestingDepth = 10000"

definition scan_error :: scanner where
  "scan_error = (ScanError, [])"

text \<open>What follows a complete value, and a complete key.\<close>

fun push_value :: "json \<Rightarrow> frame list \<Rightarrow> scanner" where
  "push_value v [] = (EndTop v, [])"
| "push_value v (FArr vs # stk) = (EndValue, FArr (v # vs) # stk)"
| "push_value v (FVal kvs k # stk) = (EndValue, FKey ((k, v) # kvs) # stk)"
| "push_value v (FKey kvs # stk) = scan_error"

fun push_key :: "string \<Rightarrow> frame list \<Rightarrow> scanner" where
  "push_key k (FKey kvs # stk) = (EndKey, FVal kvs k # stk)"
| "push_key k _ = scan_error"

definition push_frame :: "scan_state \<Rightarrow> frame \<Rightarrow> frame list \<Rightarrow> scanner" where
  "push_frame st f stk = (if length (f # stk) \<le> maxNestingDepth then (st, f # stk) else scan_error)"

definition end_string :: "bool \<Rightarrow> string \<Rightarrow> frame list \<Rightarrow> scanner" where
  "end_string key acc stk = (case unquote (rev acc) of
     None \<Rightarrow> scan_error
   | Some t \<Rightarrow> if key then push_key t stk else push_value (JStr t) stk)"

text \<open>\<open>stateEndValue\<close> and \<open>stateEndTop\<close>.\<close>

definition step_end :: "scanner \<Rightarrow> char \<Rightarrow> scanner" where
  "step_end s c = (case s of
     (EndTop v, stk) \<Rightarrow> if is_ws c then (EndTop v, stk) else scan_error
   | (EndValue, FArr vs # stk) \<Rightarrow>
       if is_ws c then (EndValue, FArr vs # stk)
       else if c = CHR '','' then (BeginValue, FArr vs # stk)
       else if c = CHR '']'' then push_value (JArr (rev vs)) stk
       else scan_error
   | (EndValue, FKey kvs # stk) \<Rightarrow>
       if is_ws c then (EndValue, FKey kvs # stk)
       else if c = CHR '','' then (BeginString, FKey kvs # stk)
       else if c = CHR ''}'' then push_value (JObj (rev kvs)) stk
       else scan_error
   | _ \<Rightarrow> scan_error)"

text \<open>\<open>stateBeginValue\<close>.\<close>

definition step_begin :: "frame list \<Rightarrow> char \<Rightarrow> scanner" where
  "step_begin stk c =
     (if is_ws c then (BeginValue, stk)
      else if c = CHR ''{'' then push_frame BeginStringOrEmpty (FKey []) stk
      else if c = CHR ''['' then push_frame BeginValueOrEmpty (FArr []) stk
      else if c = CHR 0x22 then (InString False [], stk)
      else if c = CHR ''t'' then (InLit ''rue'' (JBool True), stk)
      else if c = CHR ''f'' then (InLit ''alse'' (JBool False), stk)
      else if c = CHR ''n'' then (InLit ''ull'' JNull, stk)
      else (case num_start c of Some ns \<Rightarrow> (InNumber ns [c], stk) | None \<Rightarrow> scan_error))"

text \<open>\<open>scanner.step\<close>: one byte.\<close>

fun scan_step :: "scanner \<Rightarrow> char \<Rightarrow> scanner" where
  "scan_step (BeginValue, stk) c = step_begin stk c"
| "scan_step (BeginValueOrEmpty, stk) c =
     (if is_ws c then (BeginValueOrEmpty, stk)
      else if c = CHR '']'' then step_end (EndValue, stk) c
      else step_begin stk c)"
| "scan_step (BeginStringOrEmpty, stk) c =
     (if is_ws c then (BeginStringOrEmpty, stk)
      else if c = CHR ''}'' then step_end (EndValue, stk) c
      else if c = CHR 0x22 then (InString True [], stk)
      else scan_error)"
| "scan_step (BeginString, stk) c =
     (if is_ws c then (BeginString, stk)
      else if c = CHR 0x22 then (InString True [], stk)
      else scan_error)"
| "scan_step (InString key acc, stk) c =
     (if c = CHR 0x22 then end_string key acc stk
      else if c = CHR 0x5C then (InStringEsc key (c # acc), stk)
      else if byte_val c < 32 then scan_error
      else (InString key (c # acc), stk))"
| "scan_step (InStringEsc key acc, stk) c =
     (if escape_byte c \<noteq> None then (InString key (c # acc), stk)
      else if c = CHR ''u'' then (InStringEscU key 3 (c # acc), stk)
      else scan_error)"
| "scan_step (InStringEscU key n acc, stk) c =
     (if hex_val c = None then scan_error
      else if n = 0 then (InString key (c # acc), stk)
      else (InStringEscU key (n - 1) (c # acc), stk))"
| "scan_step (InNumber ns acc, stk) c =
     (case num_step ns c of
        Some ns' \<Rightarrow> (InNumber ns' (c # acc), stk)
      | None \<Rightarrow> if num_accept ns then step_end (push_value (JNum (rev acc)) stk) c else scan_error)"
| "scan_step (InLit lit v, stk) c =
     (case lit of
        [] \<Rightarrow> scan_error
      | d # ds \<Rightarrow> if c \<noteq> d then scan_error
                  else if ds = [] then push_value v stk else (InLit ds v, stk))"
| "scan_step (EndKey, stk) c =
     (if is_ws c then (EndKey, stk) else if c = CHR '':'' then (BeginValue, stk) else scan_error)"
| "scan_step (EndValue, stk) c = step_end (EndValue, stk) c"
| "scan_step (EndTop v, stk) c = step_end (EndTop v, stk) c"
| "scan_step (ScanError, stk) c = scan_error"

text \<open>The whole input; at its end the scanner is given one space (\<open>scanner.eof\<close>).\<close>

definition scan_all :: "scanner \<Rightarrow> string \<Rightarrow> scanner" where
  "scan_all = foldl scan_step"

definition json_decode :: "string \<Rightarrow> json option" where
  "json_decode s = (case scan_step (scan_all (BeginValue, []) s) (CHR '' '') of
     (EndTop v, _) \<Rightarrow> Some v | _ \<Rightarrow> None)"

lemma scan_all_simps [simp]:
  "scan_all st [] = st"
  "scan_all st (c # cs) = scan_all (scan_step st c) cs"
  "scan_all st (cs @ ds) = scan_all (scan_all st cs) ds"
  by (simp_all add: scan_all_def)

section \<open>Decoding into a struct with one string field\<close>

text \<open>
  \<open>json.Unmarshal(raw, &m)\<close> for \<open>m\<close> of type \<open>struct { Name string `json:"name"` }\<close>: an object's
  members are taken in order, keys match up to case, \<open>null\<close> leaves the field as it is, a
  value of another type is an error that is reported at the end, and so is a document
  that is not an object; \<open>null\<close> as the document changes nothing.
\<close>

definition key_matches :: "string \<Rightarrow> string \<Rightarrow> bool" where
  "key_matches field key \<longleftrightarrow> ToLower key = ToLower field"

definition decode_member :: "string \<Rightarrow> string \<times> bool \<Rightarrow> string \<times> json \<Rightarrow> string \<times> bool" where
  "decode_member field st kv =
     (if key_matches field (fst kv) then
        (case snd kv of
           JStr s \<Rightarrow> (s, snd st)
         | JNull \<Rightarrow> st
         | _ \<Rightarrow> (fst st, False))
      else st)"

definition decode_string_field :: "string \<Rightarrow> json \<Rightarrow> string option" where
  "decode_string_field field v = (case v of
     JNull \<Rightarrow> Some []
   | JObj kvs \<Rightarrow>
      (let (name, ok) = foldl (decode_member field) ([], True) kvs in
       if ok then Some name else None)
   | _ \<Rightarrow> None)"

definition unmarshal_string_field :: "string \<Rightarrow> string \<Rightarrow> string option" where
  "unmarshal_string_field field raw =
     (case json_decode raw of None \<Rightarrow> None | Some v \<Rightarrow> decode_string_field field v)"

section \<open>Printing, and the round trip\<close>

definition hex_digit :: "nat \<Rightarrow> char" where
  "hex_digit n = (if n < 10 then char_of (48 + n) else char_of (87 + n))"

definition quote_byte :: "char \<Rightarrow> string" where
  "quote_byte c =
     (if c = CHR 0x22 \<or> c = CHR 0x5C then [CHR 0x5C, c]
      else if byte_val c < 32
      then [CHR 0x5C, CHR ''u'', CHR ''0'', CHR ''0'', hex_digit (byte_val c div 16), hex_digit (byte_val c mod 16)]
      else [c])"

definition quote_string :: "string \<Rightarrow> string" where
  "quote_string s = CHR 0x22 # concat (map quote_byte s) @ [CHR 0x22]"

fun json_print :: "json \<Rightarrow> string" where
  "json_print JNull = ''null''"
| "json_print (JBool b) = (if b then ''true'' else ''false'')"
| "json_print (JNum n) = n"
| "json_print (JStr s) = quote_string s"
| "json_print (JArr vs) = ''['' @ Join (map json_print vs) '','' @ '']''"
| "json_print (JObj kvs) =
     ''{'' @ Join (map (\<lambda>kv. quote_string (fst kv) @ '':'' @ json_print (snd kv)) kvs) '','' @ ''}''"

text \<open>Documents the printer can write: ASCII strings, number literals of the JSON grammar.\<close>

definition ascii_string :: "string \<Rightarrow> bool" where
  "ascii_string s \<longleftrightarrow> (\<forall>c \<in> set s. byte_val c < 128)"

fun num_run :: "num_state \<Rightarrow> string \<Rightarrow> num_state option" where
  "num_run ns [] = Some ns"
| "num_run ns (c # cs) = (case num_step ns c of None \<Rightarrow> None | Some ns' \<Rightarrow> num_run ns' cs)"

definition number_literal :: "string \<Rightarrow> bool" where
  "number_literal s = (case s of
     [] \<Rightarrow> False
   | c # cs \<Rightarrow> (case num_start c of
       None \<Rightarrow> False
     | Some ns \<Rightarrow> (case num_run ns cs of None \<Rightarrow> False | Some ns' \<Rightarrow> num_accept ns')))"

fun json_wf :: "json \<Rightarrow> bool" where
  "json_wf (JNum n) \<longleftrightarrow> number_literal n"
| "json_wf (JStr s) \<longleftrightarrow> ascii_string s"
| "json_wf (JArr vs) \<longleftrightarrow> (\<forall>v \<in> set vs. json_wf v)"
| "json_wf (JObj kvs) \<longleftrightarrow> (\<forall>kv \<in> set kvs. ascii_string (fst kv) \<and> json_wf (snd kv))"
| "json_wf _ \<longleftrightarrow> True"

fun json_depth :: "json \<Rightarrow> nat" where
  "json_depth (JArr vs) = Suc (Max (insert 0 (json_depth ` set vs)))"
| "json_depth (JObj kvs) = Suc (Max (insert 0 ((\<lambda>kv. json_depth (snd kv)) ` set kvs)))"
| "json_depth _ = 0"

lemma hex_val_hex_digit: "n < 16 \<Longrightarrow> hex_val (hex_digit n) = Some n"
  by (auto simp: hex_val_def hex_digit_def Let_def)

lemma unquote_Nil [simp]: "unquote [] = Some []"
  by (simp add: unquote.simps)

lemma unquote_plain:
  assumes "c \<noteq> CHR 0x5C" and "byte_val c < 128"
  shows "unquote (c # s) = map_option (\<lambda>t. c # t) (unquote s)"
  using assms by (subst unquote.simps) simp

lemma unquote_escape:
  assumes "escape_byte e = Some x"
  shows "unquote (CHR 0x5C # e # s) = map_option (\<lambda>t. x # t) (unquote s)"
proof -
  have "e \<noteq> CHR ''u''" using assms by (auto simp: escape_byte_def)
  then have "getu4 (CHR 0x5C # e # s) = None"
    by (auto simp: getu4_def split: list.splits)
  with assms show ?thesis by (subst unquote.simps) simp
qed

lemma encode_rune_ascii: "r < 128 \<Longrightarrow> encode_rune r = [char_of r]"
  by (simp add: encode_rune_def)

lemma unquote_control:
  assumes "byte_val c < 32"
  shows "unquote ([CHR 0x5C, CHR ''u'', CHR ''0'', CHR ''0'', hex_digit (byte_val c div 16),
           hex_digit (byte_val c mod 16)] @ s) = map_option (\<lambda>t. c # t) (unquote s)"
proof -
  let ?h = "[CHR 0x5C, CHR ''u'', CHR ''0'', CHR ''0'', hex_digit (byte_val c div 16), hex_digit (byte_val c mod 16)]"
  have z: "hex_val (CHR ''0'') = Some 0" by (simp add: hex_val_def Let_def)
  have "getu4 (?h @ s) = Some (byte_val c)"
    using assms z by (simp add: getu4_def hex_val_hex_digit)
  with assms show ?thesis
    by (subst unquote.simps) (simp add: encode_rune_ascii fun_eq_iff cong: map_option_cong)
qed

lemma unquote_quote_byte:
  assumes "byte_val c < 128"
  shows "unquote (quote_byte c @ s) = map_option (\<lambda>t. c # t) (unquote s)"
proof (cases "c = CHR 0x22 \<or> c = CHR 0x5C")
  case True
  then show ?thesis by (auto simp: quote_byte_def unquote_escape escape_byte_def)
next
  case False
  with assms show ?thesis
    using unquote_control [of c s] by (auto simp: quote_byte_def unquote_plain)
qed

lemma unquote_quote:
  "ascii_string s \<Longrightarrow> unquote (concat (map quote_byte s)) = Some s"
  by (induction s) (simp_all add: ascii_string_def unquote_quote_byte)

lemma scan_quote_byte:
  assumes "byte_val c < 128"
  shows "scan_all (InString key acc, stk) (quote_byte c) = (InString key (rev (quote_byte c) @ acc), stk)"
proof (cases "c = CHR 0x22 \<or> c = CHR 0x5C")
  case True
  then show ?thesis by (auto simp: quote_byte_def escape_byte_def)
next
  case False
  show ?thesis
  proof (cases "byte_val c < 32")
    case True
    then have "hex_val (hex_digit (byte_val c div 16)) = Some (byte_val c div 16)"
      by (intro hex_val_hex_digit) simp
    moreover have "hex_val (hex_digit (byte_val c mod 16)) = Some (byte_val c mod 16)"
      by (intro hex_val_hex_digit) simp
    moreover have "hex_val (CHR ''0'') = Some 0"
      by (simp add: hex_val_def)
    ultimately show ?thesis using False True by (simp add: quote_byte_def escape_byte_def)
  qed (use False in \<open>simp add: quote_byte_def\<close>)
qed

lemma scan_quote_bytes:
  "ascii_string s \<Longrightarrow>
     scan_all (InString key acc, stk) (concat (map quote_byte s)) =
       (InString key (rev (concat (map quote_byte s)) @ acc), stk)"
  by (induction s arbitrary: acc) (simp_all add: ascii_string_def scan_quote_byte)

lemma scan_string:
  assumes "ascii_string s"
  shows "scan_all (InString key [], stk) (concat (map quote_byte s) @ [CHR 0x22]) =
    (if key then push_key s stk else push_value (JStr s) stk)"
  using assms by (simp add: scan_quote_bytes end_string_def unquote_quote)

lemma scan_number_run:
  "num_run ns cs = Some ns' \<Longrightarrow> scan_all (InNumber ns acc, stk) cs = (InNumber ns' (rev cs @ acc), stk)"
  by (induction cs arbitrary: ns acc) (auto split: option.splits)

definition terminator :: "char \<Rightarrow> bool" where
  "terminator c \<longleftrightarrow> c = CHR '','' \<or> c = CHR '']'' \<or> c = CHR ''}'' \<or> c = CHR '' ''"

lemma num_step_terminator: "terminator c \<Longrightarrow> num_step ns c = None"
  by (cases ns) (auto simp: terminator_def is_digit_def is_digit19_def num_exp_def)

lemma scan_step_push_value: "scan_step (push_value v stk) c = step_end (push_value v stk) c"
  by (cases "(v, stk)" rule: push_value.cases) (simp_all add: scan_error_def step_end_def)

text \<open>A value read from \<open>BeginValue\<close>, followed by a byte that ends it.\<close>

definition reads :: "json \<Rightarrow> bool" where
  "reads v \<longleftrightarrow> (\<forall>stk c. json_depth v + length stk \<le> maxNestingDepth \<longrightarrow> terminator c \<longrightarrow>
     scan_step (scan_all (BeginValue, stk) (json_print v)) c = step_end (push_value v stk) c)"

lemma readsI:
  "(\<And>stk. json_depth v + length stk \<le> maxNestingDepth \<Longrightarrow>
      scan_all (BeginValue, stk) (json_print v) = push_value v stk) \<Longrightarrow> reads v"
  by (simp add: reads_def scan_step_push_value)

lemma reads_literals: "reads JNull" "reads (JBool b)"
  by (rule readsI; simp add: step_begin_def is_ws_def)+

lemma step_begin_quote: "step_begin stk (CHR 0x22) = (InString False [], stk)"
  by (simp add: step_begin_def is_ws_def)

lemma reads_string: "ascii_string s \<Longrightarrow> reads (JStr s)"
  by (rule readsI) (use scan_string [of s False] in \<open>simp add: quote_string_def step_begin_quote\<close>)

lemma num_start_not_special:
  assumes "num_start c = Some ns"
  shows "step_begin stk c = (InNumber ns [c], stk)"
proof -
  have "c = CHR ''-'' \<or> (48 \<le> byte_val c \<and> byte_val c \<le> 57)"
    using assms by (auto simp: is_digit19_def split: if_splits)
  then have "\<not> is_ws c" "c \<noteq> CHR ''{''" "c \<noteq> CHR ''[''" "c \<noteq> CHR 0x22" "c \<noteq> CHR ''t''" "c \<noteq> CHR ''f''" "c \<noteq> CHR ''n''"
    by (auto simp: is_ws_def)
  with assms show ?thesis by (simp add: step_begin_def)
qed

lemma reads_number:
  assumes "number_literal n"
  shows "reads (JNum n)"
proof -
  from assms obtain c cs ns ns' where n: "n = c # cs" "num_start c = Some ns" "num_run ns cs = Some ns'" "num_accept ns'"
    by (auto simp: number_literal_def split: list.splits option.splits)
  show ?thesis
    by (simp add: reads_def n(1) num_start_not_special [OF n(2)] scan_number_run [OF n(3)] num_step_terminator n(4)
        del: num_start.simps)
qed

text \<open>The first byte of a printed value is never one that a state before a value treats apart.\<close>

lemma json_print_first:
  "json_wf v \<Longrightarrow> \<exists>c cs. json_print v = c # cs \<and> \<not> is_ws c \<and> c \<noteq> CHR '']''"
proof (cases v)
  case (JNum n)
  assume "json_wf v"
  with JNum obtain c cs where "n = c # cs" "num_start c \<noteq> None"
    by (auto simp: number_literal_def split: list.splits option.splits)
  with JNum show ?thesis by (auto simp: is_ws_def is_digit19_def split: if_splits)
qed (auto simp: is_ws_def quote_string_def)

lemma scan_begin_or_empty:
  assumes "json_wf v"
  shows "scan_all (BeginValueOrEmpty, stk) (json_print v) = scan_all (BeginValue, stk) (json_print v)"
proof -
  from json_print_first [OF assms] obtain c cs where "json_print v = c # cs" "\<not> is_ws c" "c \<noteq> CHR '']''"
    by blast
  then show ?thesis by simp
qed

text \<open>The elements of an array after its bracket, and the members of an object after its brace.\<close>

lemma scan_elements:
  assumes "vs \<noteq> []" and "\<forall>v \<in> set vs. reads v \<and> json_depth v + Suc (length stk) \<le> maxNestingDepth"
  shows "scan_all (BeginValue, FArr acc # stk) (Join (map json_print vs) '','' @ '']'') =
    push_value (JArr (rev acc @ vs)) stk"
  using assms
proof (induction vs arbitrary: acc)
  case Nil
  then show ?case by simp
next
  case (Cons v vs)
  from Cons.prems(2) have v: "scan_step (scan_all (BeginValue, FArr acc # stk) (json_print v)) c =
      step_end (EndValue, FArr (v # acc) # stk) c" if "terminator c" for c
    using that by (simp add: reads_def)
  show ?case
  proof (cases "vs = []")
    case True
    then show ?thesis by (simp add: v terminator_def step_end_def is_ws_def)
  next
    case False
    have "scan_step (scan_all (BeginValue, FArr acc # stk) (json_print v)) (CHR '','') = (BeginValue, FArr (v # acc) # stk)"
      by (simp add: v terminator_def step_end_def is_ws_def)
    moreover have "scan_all (BeginValue, FArr (v # acc) # stk) (Join (map json_print vs) '','' @ '']'') =
        push_value (JArr (rev (v # acc) @ vs)) stk"
      using Cons.prems(2) False by (intro Cons.IH) auto
    ultimately show ?thesis using False by (simp add: Join_Cons)
  qed
qed

definition print_member :: "string \<times> json \<Rightarrow> string" where
  "print_member kv = quote_string (fst kv) @ '':'' @ json_print (snd kv)"

lemma scan_key:
  assumes "ascii_string k" and "st = BeginString \<or> st = BeginStringOrEmpty"
  shows "scan_all (st, FKey kvs # stk) (quote_string k @ '':'') = (BeginValue, FVal kvs k # stk)"
  using assms scan_string [OF assms(1), of True "FKey kvs # stk"]
  by (auto simp: quote_string_def is_ws_def)

lemma scan_members:
  assumes "kvs \<noteq> []" and "st = BeginString \<or> st = BeginStringOrEmpty"
    and "\<forall>kv \<in> set kvs. ascii_string (fst kv) \<and> reads (snd kv) \<and>
      json_depth (snd kv) + Suc (length stk) \<le> maxNestingDepth"
  shows "scan_all (st, FKey acc # stk) (Join (map print_member kvs) '','' @ ''}'') =
    push_value (JObj (rev acc @ kvs)) stk"
  using assms
proof (induction kvs arbitrary: acc st)
  case Nil
  then show ?case by simp
next
  case (Cons kv kvs)
  obtain k v where kv: "kv = (k, v)" by fastforce
  have m: "scan_step (scan_all (st, FKey acc # stk) (print_member kv)) c =
      step_end (EndValue, FKey ((k, v) # acc) # stk) c" if "terminator c" for c
  proof -
    have key: "scan_all (st, FKey acc # stk) (quote_string k @ '':'') = (BeginValue, FVal acc k # stk)"
      using Cons.prems kv by (intro scan_key) auto
    have "scan_step (scan_all (BeginValue, FVal acc k # stk) (json_print v)) c = step_end (push_value v (FVal acc k # stk)) c"
      using Cons.prems(3) kv that by (simp add: reads_def)
    moreover have "print_member kv = (quote_string k @ '':'') @ json_print v"
      by (simp add: print_member_def kv)
    ultimately show ?thesis using key by (simp only: scan_all_simps push_value.simps)
  qed
  show ?case
  proof (cases "kvs = []")
    case True
    then show ?thesis using m [of "CHR ''}''"] by (simp add: terminator_def step_end_def is_ws_def kv)
  next
    case False
    have "scan_step (scan_all (st, FKey acc # stk) (print_member kv)) (CHR '','') = (BeginString, FKey ((k, v) # acc) # stk)"
      by (simp add: m terminator_def step_end_def is_ws_def)
    moreover have "scan_all (BeginString, FKey ((k, v) # acc) # stk) (Join (map print_member kvs) '','' @ ''}'') =
        push_value (JObj (rev ((k, v) # acc) @ kvs)) stk"
      using Cons.prems(3) False by (intro Cons.IH) auto
    ultimately show ?thesis using False by (simp add: Join_Cons kv)
  qed
qed

lemma json_depth_elem: "v \<in> set vs \<Longrightarrow> json_depth v < json_depth (JArr vs)"
  by (simp add: less_Suc_eq_le)

lemma json_depth_member: "kv \<in> set kvs \<Longrightarrow> json_depth (snd kv) < json_depth (JObj kvs)"
  by (simp add: less_Suc_eq_le)

lemma reads_array:
  assumes wf: "json_wf (JArr vs)" and elems: "\<forall>v \<in> set vs. reads v"
  shows "reads (JArr vs)"
proof (rule readsI)
  fix stk :: "frame list"
  assume d: "json_depth (JArr vs) + length stk \<le> maxNestingDepth"
  then have open_frame: "scan_all (BeginValue, stk) ''['' = (BeginValueOrEmpty, FArr [] # stk)"
    by (simp add: step_begin_def push_frame_def is_ws_def)
  show "scan_all (BeginValue, stk) (json_print (JArr vs)) = push_value (JArr vs) stk"
  proof (cases vs)
    case Nil
    with open_frame show ?thesis by (simp add: step_end_def is_ws_def)
  next
    case (Cons v ws)
    have "json_depth x + Suc (length stk) \<le> maxNestingDepth" if "x \<in> set vs" for x
      using json_depth_elem [OF that] d by linarith
    then have el: "scan_all (BeginValue, FArr [] # stk) (Join (map json_print vs) '','' @ '']'') = push_value (JArr vs) stk"
      using scan_elements [of vs stk "[]"] elems Cons by simp
    have "json_wf v" using wf Cons by simp
    then have "scan_all (BeginValueOrEmpty, FArr [] # stk) (Join (map json_print vs) '','' @ '']'') =
        scan_all (BeginValue, FArr [] # stk) (Join (map json_print vs) '','' @ '']'')"
      using Cons scan_begin_or_empty [of v "FArr [] # stk"] by (cases ws) simp_all
    with el open_frame show ?thesis by simp
  qed
qed

lemma reads_object:
  assumes wf: "json_wf (JObj kvs)" and members: "\<forall>kv \<in> set kvs. reads (snd kv)"
  shows "reads (JObj kvs)"
proof (rule readsI)
  fix stk :: "frame list"
  assume d: "json_depth (JObj kvs) + length stk \<le> maxNestingDepth"
  then have open_frame: "scan_all (BeginValue, stk) ''{'' = (BeginStringOrEmpty, FKey [] # stk)"
    by (simp add: step_begin_def push_frame_def is_ws_def)
  show "scan_all (BeginValue, stk) (json_print (JObj kvs)) = push_value (JObj kvs) stk"
  proof (cases "kvs = []")
    case True
    with open_frame show ?thesis by (simp add: step_end_def is_ws_def)
  next
    case False
    have "json_depth (snd kv) + Suc (length stk) \<le> maxNestingDepth" if "kv \<in> set kvs" for kv
      using json_depth_member [OF that] d by linarith
    then have "scan_all (BeginStringOrEmpty, FKey [] # stk) (Join (map print_member kvs) '','' @ ''}'') = push_value (JObj kvs) stk"
      using scan_members [of kvs BeginStringOrEmpty stk "[]"] members wf False by simp
    with open_frame show ?thesis by (simp add: print_member_def [abs_def])
  qed
qed

lemma json_wf_reads: "json_wf v \<Longrightarrow> reads v"
proof (induction v)
  case (JArr vs)
  then show ?case by (intro reads_array) auto
next
  case (JObj kvs)
  have "reads (snd kv)" if "kv \<in> set kvs" for kv
    using JObj that by (cases kv) fastforce
  with JObj.prems show ?case by (intro reads_object) auto
qed (simp_all add: reads_literals reads_string reads_number)

lemma json_decode_print:
  assumes "json_wf v" and "json_depth v \<le> maxNestingDepth"
  shows "json_decode (json_print v) = Some v"
proof -
  have "scan_step (scan_all (BeginValue, []) (json_print v)) (CHR '' '') = step_end (push_value v []) (CHR '' '')"
    using json_wf_reads [OF assms(1)] assms(2) by (simp add: reads_def terminator_def)
  then show ?thesis by (simp add: json_decode_def step_end_def is_ws_def)
qed

end
