(* ===== verification/Eds.thy ===== *)
theory Eds
  imports Api_Types Go_Json
begin

text \<open>
  \<open>control-plane/internal/xds/eds.go\<close>: the name of a cluster from its raw JSON, and the
  \<open>ClusterLoadAssignment\<close> synthesised from the endpoint slices of a Kubernetes service.
  The messages of \<open>go-control-plane\<close> that the code builds are records with the fields it
  sets. The abstract specification of the synthesis is \<open>served\<close>: the addresses a service
  offers on a port, as a comprehension; \<open>SynthesizeCLA_served\<close> is the refinement.
\<close>

section \<open>Messages\<close>

record SocketAddress =
  sa_Address :: string
  sa_PortValue :: uint32

record LbEndpoint =
  lb_SocketAddress :: SocketAddress
  lb_LoadBalancingWeight :: uint32

record LocalityLbEndpoints =
  loc_LbEndpoints :: "LbEndpoint list"

record CLA_proto =
  cla_ClusterName :: string
  cla_Endpoints :: "LocalityLbEndpoints list"

section \<open>Operations\<close>

definition ClusterName :: "bytes \<Rightarrow> string" where
  "ClusterName raw =
     (if length raw = 0 then []
      else (case unmarshal_string_field ''name'' raw of
              None \<Rightarrow> []
            | Some name \<Rightarrow> name))"

fun resolvePort_loop :: "int32 option list \<Rightarrow> int32 option \<Rightarrow> int32" where
  "resolvePort_loop [] want = 0"
| "resolvePort_loop (None # ps) want = resolvePort_loop ps want"
| "resolvePort_loop (Some p # ps) want =
     (case want of
        None \<Rightarrow> p
      | Some w \<Rightarrow> if p = w then p else resolvePort_loop ps want)"

definition resolvePort :: "EndpointSlice \<Rightarrow> int32 option \<Rightarrow> int32" where
  "resolvePort sl want = resolvePort_loop (slice_Ports sl) want"

text \<open>\<open>uint32(p)\<close> of an \<open>int32\<close> keeps the bits.\<close>

definition to_uint32 :: "int32 \<Rightarrow> uint32" where
  "to_uint32 p = ucast p"

definition newLbEndpoint :: "string \<Rightarrow> int32 \<Rightarrow> LbEndpoint" where
  "newLbEndpoint addr port =
     \<lparr>lb_SocketAddress = \<lparr>sa_Address = addr, sa_PortValue = to_uint32 port\<rparr>,
      lb_LoadBalancingWeight = 1\<rparr>"

definition addAddresses :: "int32 \<Rightarrow> LbEndpoint list \<Rightarrow> Endpoint \<Rightarrow> LbEndpoint list" where
  "addAddresses port lbs ep =
     foldl (\<lambda>lbs addr. if addr \<noteq> [] then lbs @ [newLbEndpoint addr port] else lbs) lbs (ep_Addresses ep)"

definition addEndpoints :: "int32 \<Rightarrow> LbEndpoint list \<Rightarrow> EndpointSlice \<Rightarrow> LbEndpoint list" where
  "addEndpoints port lbs sl =
     foldl (\<lambda>lbs ep. if ep_Ready ep = Some False then lbs else addAddresses port lbs ep) lbs
       (slice_Endpoints sl)"

definition addSlice :: "int32 option \<Rightarrow> LbEndpoint list \<Rightarrow> EndpointSlice \<Rightarrow> LbEndpoint list" where
  "addSlice port lbs sl =
     (let resolvedPort = resolvePort sl port in
      if resolvedPort = 0 then lbs else addEndpoints resolvedPort lbs sl)"

definition SynthesizeCLA :: "string \<Rightarrow> EndpointSlice list \<Rightarrow> int32 option \<Rightarrow> CLA_proto" where
  "SynthesizeCLA clusterName slices port =
     (let lbEndpoints = foldl (addSlice port) [] slices in
      \<lparr>cla_ClusterName = clusterName,
       cla_Endpoints =
         (if length lbEndpoints > 0 then [\<lparr>loc_LbEndpoints = lbEndpoints\<rparr>] else [])\<rparr>)"

section \<open>Ports\<close>

lemma resolvePort_loop_first:
  "resolvePort_loop ps None = (case List.map_filter id ps of [] \<Rightarrow> 0 | p # _ \<Rightarrow> p)"
  by (induction ps "None :: int32 option" rule: resolvePort_loop.induct)
    (simp_all add: List.map_filter_simps)

lemma resolvePort_loop_wanted:
  "resolvePort_loop ps (Some w) = (if Some w \<in> set ps then w else 0)"
  by (induction ps "Some w" rule: resolvePort_loop.induct) auto

lemma resolvePort_loop_in:
  "resolvePort_loop ps want \<noteq> 0 \<Longrightarrow> Some (resolvePort_loop ps want) \<in> set ps"
  by (induction ps want rule: resolvePort_loop.induct) (auto split: option.splits if_splits)

lemmas resolvePort_rules = resolvePort_loop_first resolvePort_loop_wanted resolvePort_loop_in

section \<open>The synthesised assignment\<close>

text \<open>What a service offers: the ready, non-empty addresses of the slices that have the port.\<close>

definition ready :: "Endpoint \<Rightarrow> bool" where
  "ready ep \<longleftrightarrow> ep_Ready ep \<noteq> Some False"

definition slice_addresses :: "EndpointSlice \<Rightarrow> string list" where
  "slice_addresses sl =
     concat (map (\<lambda>ep. filter (\<lambda>addr. addr \<noteq> []) (ep_Addresses ep))
       (filter ready (slice_Endpoints sl)))"

definition served :: "EndpointSlice list \<Rightarrow> int32 option \<Rightarrow> (string \<times> int32) list" where
  "served slices port =
     [(addr, resolvePort sl port).
        sl \<leftarrow> slices, resolvePort sl port \<noteq> 0, addr \<leftarrow> slice_addresses sl]"

text \<open>Reading the address and port of every endpoint of an assignment.\<close>

definition cla_lbs :: "CLA_proto \<Rightarrow> LbEndpoint list" where
  "cla_lbs cla = concat (map loc_LbEndpoints (cla_Endpoints cla))"

lemma addAddresses_eq:
  "addAddresses port lbs ep =
     lbs @ map (\<lambda>addr. newLbEndpoint addr port) (filter (\<lambda>addr. addr \<noteq> []) (ep_Addresses ep))"
  by (simp add: addAddresses_def go_loop)

lemma addEndpoints_eq:
  "addEndpoints port lbs sl =
     lbs @ map (\<lambda>addr. newLbEndpoint addr port) (slice_addresses sl)"
proof -
  have "foldl (\<lambda>lbs ep. if ep_Ready ep = Some False then lbs else addAddresses port lbs ep) lbs eps =
      lbs @ map (\<lambda>addr. newLbEndpoint addr port)
        (concat (map (\<lambda>ep. filter (\<lambda>addr. addr \<noteq> []) (ep_Addresses ep)) (filter ready eps)))" for eps
    by (induction eps arbitrary: lbs) (simp_all add: addAddresses_eq ready_def)
  then show ?thesis by (simp add: addEndpoints_def slice_addresses_def)
qed

lemma addSlice_fold_eq:
  "foldl (addSlice port) lbs slices = lbs @ map (\<lambda>(addr, p). newLbEndpoint addr p) (served slices port)"
  by (induction slices arbitrary: lbs)
    (simp_all add: addSlice_def served_def addEndpoints_eq Let_def comp_def)

lemma SynthesizeCLA_lbs:
  "cla_lbs (SynthesizeCLA n slices port) = map (\<lambda>(addr, p). newLbEndpoint addr p) (served slices port)"
  by (simp add: SynthesizeCLA_def cla_lbs_def addSlice_fold_eq Let_def)

lemma in_slice_addresses:
  "addr \<in> set (slice_addresses sl) \<longleftrightarrow>
     addr \<noteq> [] \<and> (\<exists>ep \<in> set (slice_Endpoints sl). ready ep \<and> addr \<in> set (ep_Addresses ep))"
  by (auto simp: slice_addresses_def)

lemma in_served:
  "(addr, p) \<in> set (served slices port) \<longleftrightarrow>
     p \<noteq> 0 \<and> (\<exists>sl \<in> set slices. p = resolvePort sl port \<and> addr \<in> set (slice_addresses sl))"
  by (auto simp: served_def)

text \<open>The abstract assignment: nothing, or one locality with an endpoint of weight 1 per offered address.\<close>

definition offered_assignment :: "string \<Rightarrow> (string \<times> int32) list \<Rightarrow> CLA_proto" where
  "offered_assignment n offers =
     \<lparr>cla_ClusterName = n,
      cla_Endpoints =
        (if offers = [] then []
         else [\<lparr>loc_LbEndpoints =
                 map (\<lambda>(addr, p). \<lparr>lb_SocketAddress = \<lparr>sa_Address = addr, sa_PortValue = to_uint32 p\<rparr>,
                                  lb_LoadBalancingWeight = 1\<rparr>) offers\<rparr>])\<rparr>"

lemma SynthesizeCLA_offered: "SynthesizeCLA n slices port = offered_assignment n (served slices port)"
  by (simp add: SynthesizeCLA_def offered_assignment_def addSlice_fold_eq newLbEndpoint_def Let_def)

section \<open>The name of a cluster\<close>

text \<open>
  The abstract reading of \<open>ClusterName\<close>: of the members whose key is \<open>name\<close> up to case, the
  last string; nothing if one of them is neither a string nor \<open>null\<close>.
\<close>

fun string_values :: "json list \<Rightarrow> string list" where
  "string_values [] = []"
| "string_values (JStr s # vs) = s # string_values vs"
| "string_values (_ # vs) = string_values vs"

fun string_or_null :: "json \<Rightarrow> bool" where
  "string_or_null (JStr s) = True"
| "string_or_null JNull = True"
| "string_or_null _ = False"

definition named_members :: "(string \<times> json) list \<Rightarrow> json list" where
  "named_members kvs = map snd (filter (\<lambda>kv. key_matches ''name'' (fst kv)) kvs)"

definition member_name :: "(string \<times> json) list \<Rightarrow> string" where
  "member_name kvs =
     (if list_all string_or_null (named_members kvs)
      then last ([] # string_values (named_members kvs)) else [])"

lemma foldl_decode_member:
  "foldl (decode_member ''name'') (n, ok) kvs =
     (last (n # string_values (named_members kvs)), ok \<and> list_all string_or_null (named_members kvs))"
proof (induction kvs arbitrary: n ok)
  case Nil
  then show ?case by (simp add: named_members_def)
next
  case (Cons kv kvs)
  show ?case
  proof (cases "key_matches ''name'' (fst kv)")
    case True
    with Cons show ?thesis
      by (cases "snd kv") (simp_all add: decode_member_def named_members_def)
  next
    case False
    with Cons show ?thesis by (simp add: decode_member_def named_members_def)
  qed
qed

lemma decode_string_field_object:
  "decode_string_field ''name'' (JObj kvs) =
     (if list_all string_or_null (named_members kvs)
      then Some (last ([] # string_values (named_members kvs))) else None)"
  by (simp add: decode_string_field_def foldl_decode_member)

lemma json_decode_Nil: "json_decode [] = None"
  by (simp add: json_decode_def step_begin_def is_ws_def)

lemma ClusterName_object:
  "json_decode raw = Some (JObj kvs) \<Longrightarrow> ClusterName raw = member_name kvs"
  using json_decode_Nil
  by (auto simp: ClusterName_def unmarshal_string_field_def decode_string_field_object member_name_def)

lemma member_name_absent:
  "\<forall>kv \<in> set kvs. \<not> key_matches ''name'' (fst kv) \<Longrightarrow> member_name kvs = []"
  by (simp add: member_name_def named_members_def filter_False)

lemma ClusterName_no_name:
  assumes "json_decode raw = Some (JObj kvs)" and "\<forall>kv \<in> set kvs. \<not> key_matches ''name'' (fst kv)"
  shows "ClusterName raw = []"
  using ClusterName_object [OF assms(1)] member_name_absent [OF assms(2)] by simp

lemma ClusterName_undecodable: "json_decode raw = None \<Longrightarrow> ClusterName raw = []"
  by (simp add: ClusterName_def unmarshal_string_field_def)

section \<open>Properties\<close>

text \<open>
  C20. \<open>SynthesizeCLA\<close> computes exactly the abstract assignment: the given cluster name and,
  when the service offers any address, one locality with one endpoint of weight 1 per
  offered address, in the order of the slices; with nothing to offer the endpoint list is
  empty. In particular a result is always returned.
\<close>

theorem SynthesizeCLA_served:
  "SynthesizeCLA n slices port =
     \<lparr>cla_ClusterName = n,
      cla_Endpoints =
        (if served slices port = [] then []
         else [\<lparr>loc_LbEndpoints =
                 map (\<lambda>(addr, p). \<lparr>lb_SocketAddress = \<lparr>sa_Address = addr, sa_PortValue = to_uint32 p\<rparr>,
                                  lb_LoadBalancingWeight = 1\<rparr>) (served slices port)\<rparr>])\<rparr>"
  by (simp add: SynthesizeCLA_offered offered_assignment_def)

text \<open>
  An address is published with a port exactly if it is a non-empty address of an endpoint
  that is not marked unready, in a slice where the wanted port (or, if none is wanted, the
  first port) is the published one and is not 0.
\<close>

theorem SynthesizeCLA_exact:
  "(\<exists>lb \<in> set (cla_lbs (SynthesizeCLA n slices port)).
      sa_Address (lb_SocketAddress lb) = addr \<and> sa_PortValue (lb_SocketAddress lb) = pv) \<longleftrightarrow>
   (\<exists>sl \<in> set slices. \<exists>ep \<in> set (slice_Endpoints sl).
      addr \<in> set (ep_Addresses ep) \<and> addr \<noteq> [] \<and> ep_Ready ep \<noteq> Some False \<and>
      resolvePort sl port \<noteq> 0 \<and> pv = to_uint32 (resolvePort sl port))"
  (is "?L \<longleftrightarrow> ?R")
proof -
  have "?L \<longleftrightarrow> (\<exists>p. (addr, p) \<in> set (served slices port) \<and> pv = to_uint32 p)"
    by (force simp: SynthesizeCLA_lbs newLbEndpoint_def)
  also have "\<dots> \<longleftrightarrow> ?R"
    by (fastforce simp: in_served in_slice_addresses ready_def)
  finally show ?thesis .
qed

text \<open>
  \<open>resolvePort\<close> returns, with no port wanted, the first non-nil port of the slice, and with a
  port wanted, that port if the slice has it; in every other case 0.
\<close>

theorem resolvePort_spec:
  "resolvePort sl want =
     (case want of
        None \<Rightarrow> (case List.map_filter id (slice_Ports sl) of [] \<Rightarrow> 0 | p # _ \<Rightarrow> p)
      | Some w \<Rightarrow> (if Some w \<in> set (slice_Ports sl) then w else 0))"
  by (cases want) (simp_all add: resolvePort_def resolvePort_rules)

text \<open>
  C21. Published ports keep their value across the conversion from \<open>int32\<close> to \<open>uint32\<close>: if the ports
  of the slices are in the range Kubernetes allows, every published port is one of them and
  lies between 1 and 65535, and if a port was asked for, it is that port.
\<close>

theorem SynthesizeCLA_port_bounds:
  assumes "\<forall>sl \<in> set slices. \<forall>p. Some p \<in> set (slice_Ports sl) \<longrightarrow> 1 \<le> sint p \<and> sint p \<le> 65535"
    and "lb \<in> set (cla_lbs (SynthesizeCLA n slices port))"
  shows "1 \<le> uint (sa_PortValue (lb_SocketAddress lb)) \<and> uint (sa_PortValue (lb_SocketAddress lb)) \<le> 65535 \<and>
    (\<exists>sl \<in> set slices. \<exists>p. Some p \<in> set (slice_Ports sl) \<and> uint (sa_PortValue (lb_SocketAddress lb)) = sint p) \<and>
    (\<forall>w. port = Some w \<longrightarrow> uint (sa_PortValue (lb_SocketAddress lb)) = sint w)"
proof -
  from assms(2) obtain addr p where p: "(addr, p) \<in> set (served slices port)"
    and lb: "sa_PortValue (lb_SocketAddress lb) = to_uint32 p"
    by (auto simp: SynthesizeCLA_lbs newLbEndpoint_def)
  from p obtain sl where sl: "sl \<in> set slices" "p = resolvePort sl port" "p \<noteq> 0"
    by (auto simp: in_served)
  then have "Some p \<in> set (slice_Ports sl)"
    using resolvePort_loop_in [of "slice_Ports sl" port] by (simp add: resolvePort_def)
  moreover from this have "1 \<le> sint p" "sint p \<le> 65535" using assms(1) sl(1) by auto
  moreover from this have "uint (to_uint32 p) = sint p"
    by (simp add: to_uint32_def uint_eq_sint)
  moreover have "p = w" if "port = Some w" for w
    using sl that by (simp add: resolvePort_def resolvePort_loop_wanted split: if_splits)
  ultimately show ?thesis using lb sl(1) by auto
qed

text \<open>A slice of a service with an unready endpoint and an empty address, used by the witnesses.\<close>

definition example_slice :: EndpointSlice where
  "example_slice =
     \<lparr>slice_ObjectMeta = \<lparr>meta_Name = ''svc-x1'', meta_Namespace = ''default'', meta_ResourceVersion = ''7'',
                          meta_Generation = 1, meta_Labels = [(''kubernetes.io/service-name'', ''svc'')]\<rparr>,
      slice_Ports = [None, Some 8080, Some 9090],
      slice_Endpoints =
        [\<lparr>ep_Addresses = [''10.0.0.1'', []], ep_Ready = None\<rparr>,
         \<lparr>ep_Addresses = [''10.0.0.2''], ep_Ready = Some False\<rparr>]\<rparr>"

lemma served_example: "served [example_slice] (Some 9090) = [(''10.0.0.1'', 9090)]"
  by (simp add: served_def slice_addresses_def example_slice_def ready_def resolvePort_def)

text \<open>The bounds apply to a slice with two valid ports: its one published port is 9090.\<close>

theorem SynthesizeCLA_port_bounds_witness:
  "\<exists>lb \<in> set (cla_lbs (SynthesizeCLA ''c'' [example_slice] (Some 9090))).
     1 \<le> uint (sa_PortValue (lb_SocketAddress lb)) \<and> uint (sa_PortValue (lb_SocketAddress lb)) = 9090"
proof -
  let ?lb = "newLbEndpoint ''10.0.0.1'' 9090"
  have ports: "\<forall>sl \<in> set [example_slice]. \<forall>p. Some p \<in> set (slice_Ports sl) \<longrightarrow> 1 \<le> sint p \<and> sint p \<le> 65535"
    by (simp add: example_slice_def) 
  have mem: "?lb \<in> set (cla_lbs (SynthesizeCLA ''c'' [example_slice] (Some 9090)))"
    by (simp add: SynthesizeCLA_lbs served_example)
  show ?thesis
    using SynthesizeCLA_port_bounds [OF ports mem] mem by auto
qed

text \<open>
  C22. \<open>ClusterName\<close> reads back the name a JSON document carries: for every well-formed document
  (ASCII strings, numbers of the JSON grammar, nesting within the decoder's limit) printed
  as JSON, the result is the last string among the members named \<open>name\<close> up to case, and the
  empty string when there is none or when one of them is of another type.
\<close>

theorem ClusterName_print:
  assumes "json_wf (JObj kvs)" and "json_depth (JObj kvs) \<le> maxNestingDepth"
  shows "ClusterName (json_print (JObj kvs)) = member_name kvs"
  by (rule ClusterName_object [OF json_decode_print [OF assms]])

theorem ClusterName_print_witness:
  "ClusterName (json_print (JObj [(''type'', JStr ''EDS''), (''name'', JStr ''svc-alpha''),
     (''ring'', JArr [JNum ''64'', JNull])])) = ''svc-alpha''"
proof -
  let ?kvs = "[(''type'', JStr ''EDS''), (''name'', JStr ''svc-alpha''), (''ring'', JArr [JNum ''64'', JNull])]"
  have wf: "json_wf (JObj ?kvs)"
    by (simp add: ascii_string_def number_literal_def is_digit19_def is_digit_def)
  have d: "json_depth (JObj ?kvs) \<le> maxNestingDepth"
    by (simp add: maxNestingDepth_def)
  show ?thesis
    using ClusterName_print [OF wf d]
    by (simp add: member_name_def named_members_def key_matches_def ToLower_def lower_char_def)
qed

text \<open>
  \<open>ClusterName\<close> never fails: a document that is empty, is not valid JSON, is valid JSON but
  neither an object nor \<open>null\<close>, or has a \<open>name\<close> of another type gives the empty string.
\<close>

lemma ClusterName_total:
  "ClusterName raw =
     (case json_decode raw of
        Some (JObj kvs) \<Rightarrow> member_name kvs
      | _ \<Rightarrow> [])"
proof (cases "json_decode raw")
  case None
  then show ?thesis by (simp add: ClusterName_undecodable)
next
  case (Some v)
  show ?thesis
  proof (cases v)
    case (JObj kvs)
    with Some show ?thesis by (simp add: ClusterName_object)
  qed (simp_all add: Some ClusterName_def unmarshal_string_field_def decode_string_field_def)
qed

end
