(* ===== verification/Go_Sha256.thy ===== *)
theory Go_Sha256
  imports Go_Strings
begin

text \<open>
  \<open>crypto/sha256\<close> and \<open>encoding/hex\<close> as \<open>computeVersion\<close> uses them: the digest of the bytes
  written to the hash, and its lower-case hexadecimal form. SHA-256 follows FIPS 180-4 on
  \<open>32 word\<close>. The facts proved are those the version string rests on: the digest has 32
  bytes, its hexadecimal form 64 characters out of \<open>0..9a..f\<close>; the last section evaluates digests.
\<close>

unbundle bit_operations_syntax

section \<open>The compression function\<close>

text \<open>
  The constants are the first 32 bits of the fractional parts of the roots of the first primes:
  cube roots for the 64 round constants, square roots for the initial state. \<open>root_bits e k x r\<close>
  adds to \<open>r\<close> the \<open>k\<close> low bits of the integer \<open>e\<close>-th root of \<open>x\<close>.
\<close>

fun root_bits :: "nat \<Rightarrow> nat \<Rightarrow> int \<Rightarrow> int \<Rightarrow> int" where
  "root_bits e 0 x r = r"
| "root_bits e (Suc k) x r = root_bits e k x (if (r + 2 ^ k) ^ e \<le> x then r + 2 ^ k else r)"

definition root_fraction :: "nat \<Rightarrow> int \<Rightarrow> 32 word" where
  "root_fraction e p = word_of_int (root_bits e 36 (p * 2 ^ (32 * e)) 0)"

definition sha256_primes :: "int list" where
  "sha256_primes =
    [2, 3, 5, 7, 11, 13, 17, 19, 23, 29, 31, 37, 41, 43, 47, 53, 59, 61, 67, 71, 73, 79, 83, 89, 97, 101, 103,
     107, 109, 113, 127, 131, 137, 139, 149, 151, 157, 163, 167, 173, 179, 181, 191, 193, 197, 199, 211, 223,
     227, 229, 233, 239, 241, 251, 257, 263, 269, 271, 277, 281, 283, 293, 307, 311]"

definition sha256_K :: "32 word list" where
  "sha256_K = map (root_fraction 3) sha256_primes"

type_synonym sha_state = "32 word \<times> 32 word \<times> 32 word \<times> 32 word \<times> 32 word \<times> 32 word \<times> 32 word \<times> 32 word"

definition sha256_init :: sha_state where
  "sha256_init = (root_fraction 2 2, root_fraction 2 3, root_fraction 2 5, root_fraction 2 7,
     root_fraction 2 11, root_fraction 2 13, root_fraction 2 17, root_fraction 2 19)"

definition small_sigma0 :: "32 word \<Rightarrow> 32 word" where
  "small_sigma0 x = word_rotr 7 x XOR word_rotr 18 x XOR drop_bit 3 x"

definition small_sigma1 :: "32 word \<Rightarrow> 32 word" where
  "small_sigma1 x = word_rotr 17 x XOR word_rotr 19 x XOR drop_bit 10 x"

definition big_sigma0 :: "32 word \<Rightarrow> 32 word" where
  "big_sigma0 x = word_rotr 2 x XOR word_rotr 13 x XOR word_rotr 22 x"

definition big_sigma1 :: "32 word \<Rightarrow> 32 word" where
  "big_sigma1 x = word_rotr 6 x XOR word_rotr 11 x XOR word_rotr 25 x"

text \<open>The message schedule, newest word first, from the sixteen words of a block.\<close>

definition sha_extend :: "32 word list \<Rightarrow> 32 word list" where
  "sha_extend ws = (small_sigma1 (ws ! 1) + ws ! 6 + small_sigma0 (ws ! 14) + ws ! 15) # ws"

definition sha_schedule :: "32 word list \<Rightarrow> 32 word list" where
  "sha_schedule block = rev ((sha_extend ^^ 48) (rev block))"

fun sha_round :: "sha_state \<Rightarrow> 32 word \<times> 32 word \<Rightarrow> sha_state" where
  "sha_round (a, b, c, d, e, f, g, h) (k, w) =
     (let t1 = h + big_sigma1 e + ((e AND f) XOR (NOT e AND g)) + k + w;
          t2 = big_sigma0 a + ((a AND b) XOR (a AND c) XOR (b AND c))
      in (t1 + t2, a, b, c, d + t1, e, f, g))"

fun sha_add :: "sha_state \<Rightarrow> sha_state \<Rightarrow> sha_state" where
  "sha_add (a, b, c, d, e, f, g, h) (a', b', c', d', e', f', g', h') =
     (a + a', b + b', c + c', d + d', e + e', f + f', g + g', h + h')"

definition sha_block :: "sha_state \<Rightarrow> 32 word list \<Rightarrow> sha_state" where
  "sha_block st block = sha_add st (foldl sha_round st (zip sha256_K (sha_schedule block)))"

section \<open>Padding and blocks\<close>

text \<open>A number as \<open>n\<close> bytes, most significant first.\<close>

definition be_bytes :: "nat \<Rightarrow> int \<Rightarrow> int list" where
  "be_bytes n v = map (\<lambda>i. (v div 256 ^ i) mod 256) (rev [0..<n])"

definition sha_pad :: "int list \<Rightarrow> int list" where
  "sha_pad m = m @ [128] @ replicate ((119 - length m mod 64) mod 64) 0 @ be_bytes 8 (8 * int (length m) mod 2 ^ 64)"

function chunks :: "nat \<Rightarrow> 'a list \<Rightarrow> 'a list list" where
  "chunks n xs = (if n = 0 \<or> xs = [] then [] else take n xs # chunks n (drop n xs))"
  by pat_completeness auto
termination
  by (relation "measure (\<lambda>(n, xs). length xs)") auto

declare chunks.simps [simp del]

definition be_word :: "int list \<Rightarrow> 32 word" where
  "be_word bs = foldl (\<lambda>w b. w * 256 + word_of_int b) 0 bs"

section \<open>Digest and hexadecimal form\<close>

definition sha256_state :: "string \<Rightarrow> sha_state" where
  "sha256_state s =
     foldl (\<lambda>st block. sha_block st (map be_word (chunks 4 block))) sha256_init
       (chunks 64 (sha_pad (map of_char s)))"

fun sha_words :: "sha_state \<Rightarrow> 32 word list" where
  "sha_words (a, b, c, d, e, f, g, h) = [a, b, c, d, e, f, g, h]"

definition sha256 :: "string \<Rightarrow> int list" where
  "sha256 s = concat (map (\<lambda>w. be_bytes 4 (uint w)) (sha_words (sha256_state s)))"

definition hex_char :: "int \<Rightarrow> char" where
  "hex_char n = (if n < 10 then char_of (48 + n) else char_of (87 + n))"

definition hex_EncodeToString :: "int list \<Rightarrow> string" where
  "hex_EncodeToString bs = concat (map (\<lambda>b. [hex_char (b div 16), hex_char (b mod 16)]) bs)"

lemma length_be_bytes [simp]: "length (be_bytes n v) = n"
  by (simp add: be_bytes_def)

lemma be_bytes_byte: "b \<in> set (be_bytes n v) \<Longrightarrow> b \<in> {0..<256}"
  by (auto simp: be_bytes_def)

lemma length_sha_words [simp]: "length (sha_words st) = 8"
  by (cases st rule: sha_words.cases) simp

lemma length_sha256 [simp]: "length (sha256 s) = 32"
  by (simp add: sha256_def length_concat comp_def sum_list_triv)

lemma sha256_byte: "b \<in> set (sha256 s) \<Longrightarrow> b \<in> {0..<256}"
  unfolding sha256_def by (auto dest!: be_bytes_byte)

lemma length_hex [simp]: "length (hex_EncodeToString bs) = 2 * length bs"
  by (simp add: hex_EncodeToString_def length_concat comp_def sum_list_triv)

definition hex_alphabet :: string where
  "hex_alphabet = ''0123456789abcdef''"

lemma hex_char_alphabet: "n \<in> {0..<16} \<Longrightarrow> hex_char n \<in> set hex_alphabet"
proof -
  assume "n \<in> {0..<16}"
  then have "n \<in> set [0..15]" by simp
  moreover have "\<forall>n \<in> set [0..15]. hex_char n \<in> set hex_alphabet" by code_simp
  ultimately show ?thesis by blast
qed

lemma hex_digits_range: "b \<in> {0..<256} \<Longrightarrow> b div 16 \<in> {0..<16} \<and> b mod 16 \<in> {0..<16 :: int}"
  by auto

lemma hex_EncodeToString_alphabet:
  assumes "set bs \<subseteq> {0..<256}"
  shows "set (hex_EncodeToString bs) \<subseteq> set hex_alphabet"
proof
  fix c
  assume "c \<in> set (hex_EncodeToString bs)"
  then obtain b where "b \<in> set bs" "c = hex_char (b div 16) \<or> c = hex_char (b mod 16)"
    by (auto simp: hex_EncodeToString_def)
  with assms hex_digits_range [of b] show "c \<in> set hex_alphabet"
    by (blast intro: hex_char_alphabet)
qed

section \<open>Evaluation\<close>

text \<open>
  The constants as numbers, the schedule as a loop, and the digest of a message that fits into one block: with
  the first two as code equations digests of concrete messages are evaluated.
\<close>

lemma sha256_K_values [code]:
  "sha256_K =
    [1116352408, 1899447441, 3049323471, 3921009573, 961987163, 1508970993, 2453635748, 2870763221,
     3624381080, 310598401, 607225278, 1426881987, 1925078388, 2162078206, 2614888103, 3248222580,
     3835390401, 4022224774, 264347078, 604807628, 770255983, 1249150122, 1555081692, 1996064986,
     2554220882, 2821834349, 2952996808, 3210313671, 3336571891, 3584528711, 113926993, 338241895,
     666307205, 773529912, 1294757372, 1396182291, 1695183700, 1986661051, 2177026350, 2456956037,
     2730485921, 2820302411, 3259730800, 3345764771, 3516065817, 3600352804, 4094571909, 275423344,
     430227734, 506948616, 659060556, 883997877, 958139571, 1322822218, 1537002063, 1747873779,
     1955562222, 2024104815, 2227730452, 2361852424, 2428436474, 2756734187, 3204031479, 3329325298]"
  by code_simp

lemma sha256_init_values [code]:
  "sha256_init = (1779033703, 3144134277, 1013904242, 2773480762, 1359893119, 2600822924, 528734635, 1541459225)"
  by code_simp

lemma funpow_fold: "(f ^^ n) x = fold (\<lambda>_. f) [0..<n] x"
  by (induction n arbitrary: x) auto

lemma sha_schedule_fold [code]: "sha_schedule block = rev (fold (\<lambda>_. sha_extend) [0..<48] (rev block))"
  by (simp add: sha_schedule_def funpow_fold)

lemma length_sha_pad: "length m < 56 \<Longrightarrow> length (sha_pad m) = 64"
proof -
  assume "length m < 56"
  then have "119 - length m mod 64 = (55 - length m) + 64" by simp
  then have "(119 - length m mod 64) mod 64 = (55 - length m) mod 64" by simp
  also have "\<dots> = 55 - length m" by simp
  finally show ?thesis using \<open>length m < 56\<close> by (simp add: sha_pad_def)
qed

lemma sha256_one_block:
  assumes "length s < 56"
  shows "sha256_state s = sha_block sha256_init (map be_word (chunks 4 (sha_pad (map of_char s))))"
proof -
  have "length (sha_pad (map of_char s :: int list)) = 64" using assms by (simp add: length_sha_pad)
  then have "chunks 64 (sha_pad (map of_char s :: int list)) = [sha_pad (map of_char s)]"
    by (subst chunks.simps, subst chunks.simps) auto
  then show ?thesis by (simp add: sha256_state_def)
qed

end
