(* ===== verification/Snapshot.thy ===== *)
theory Snapshot
  imports Go_Strings
begin

text \<open>
  \<open>control-plane/internal/xds/snapshot.go\<close>: raw JSON specs become typed messages
  (\<open>unmarshalAll\<close>) and five lists of messages become a snapshot (\<open>BuildSnapshot\<close>).
  \<open>protojson\<close> and \<open>cachev3.NewSnapshot\<close> are not part of the program: they are the parameters
  \<open>unmarshal\<close> (by options and resource type) and \<open>newSnapshot\<close>. No law is assumed of either: the
  results hold for every decoder and every snapshot constructor.
\<close>

section \<open>Operations\<close>

text \<open>The type URLs that \<open>BuildSnapshot\<close> keys its resources by.\<close>

datatype ResourceType = ListenerType | ClusterType | RouteType | ScopedRouteType | EndpointType

text \<open>The options of \<open>protojson\<close> that decoding uses: unknown fields and missing required ones are no errors.\<close>

record UnmarshalOptions =
  DiscardUnknown :: bool
  AllowPartial :: bool

definition unmarshaler :: UnmarshalOptions where
  "unmarshaler = \<lparr>DiscardUnknown = True, AllowPartial = True\<rparr>"

fun unmarshalAll_loop ::
  "(bytes \<Rightarrow> 'res result) \<Rightarrow> nat \<Rightarrow> 'res list \<Rightarrow> bytes list \<Rightarrow> 'res list result" where
  "unmarshalAll_loop unm i out [] = Inr out"
| "unmarshalAll_loop unm i out (raw # raws) =
     (if length raw = 0 then unmarshalAll_loop unm (Suc i) out raws
      else (case unm raw of
              Inl err \<Rightarrow> Inl (Wrapped (''item '' @ Itoa i @ '': '') err)
            | Inr msg \<Rightarrow> unmarshalAll_loop unm (Suc i) (out @ [msg]) raws))"

definition unmarshalAll :: "(bytes \<Rightarrow> 'res result) \<Rightarrow> bytes list \<Rightarrow> 'res list result" where
  "unmarshalAll unm raws = unmarshalAll_loop unm 0 [] raws"

definition BuildSnapshot ::
  "(UnmarshalOptions \<Rightarrow> ResourceType \<Rightarrow> bytes \<Rightarrow> 'res result) \<Rightarrow>
   (string \<Rightarrow> (ResourceType, 'res list) gomap \<Rightarrow> 'snap result) \<Rightarrow>
   string \<Rightarrow> bytes list \<Rightarrow> bytes list \<Rightarrow> bytes list \<Rightarrow> bytes list \<Rightarrow> bytes list \<Rightarrow> 'snap result" where
  "BuildSnapshot unmarshal newSnapshot version listenerSpecs clusterSpecs routeSpecs scopedRouteSpecs endpointSpecs =
     result_bind (errorf ''listeners: '' (unmarshalAll (unmarshal unmarshaler ListenerType) listenerSpecs)) (\<lambda>listeners.
     result_bind (errorf ''clusters: '' (unmarshalAll (unmarshal unmarshaler ClusterType) clusterSpecs)) (\<lambda>clusters.
     result_bind (errorf ''routes: '' (unmarshalAll (unmarshal unmarshaler RouteType) routeSpecs)) (\<lambda>routes.
     result_bind (errorf ''scoped routes: '' (unmarshalAll (unmarshal unmarshaler ScopedRouteType) scopedRouteSpecs)) (\<lambda>scopedRoutes.
     result_bind (errorf ''endpoints: '' (unmarshalAll (unmarshal unmarshaler EndpointType) endpointSpecs)) (\<lambda>endpoints.
     errorf ''new snapshot: ''
       (newSnapshot version
          [(ListenerType, listeners), (ClusterType, clusters), (RouteType, routes),
           (ScopedRouteType, scopedRoutes), (EndpointType, endpoints)]))))))"

section \<open>Decoding all specs\<close>

text \<open>An empty spec is skipped, every other one has to decode.\<close>

definition decodes :: "(bytes \<Rightarrow> 'res result) \<Rightarrow> bytes \<Rightarrow> bool" where
  "decodes unm raw \<longleftrightarrow> raw = [] \<or> is_ok (unm raw)"

definition decoded :: "(bytes \<Rightarrow> 'res result) \<Rightarrow> bytes list \<Rightarrow> 'res list" where
  "decoded unm raws = map (\<lambda>raw. projr (unm raw)) (filter (\<lambda>raw. raw \<noteq> []) raws)"

lemma unmarshalAll_loop_ok:
  "list_all (decodes unm) raws \<Longrightarrow> unmarshalAll_loop unm i out raws = Inr (out @ decoded unm raws)"
  by (induction raws arbitrary: i out) (auto simp: decodes_def decoded_def is_ok_iff)

lemma unmarshalAll_loop_error:
  assumes "list_all (decodes unm) pre" and "raw \<noteq> []" and "unm raw = Inl err"
  shows "unmarshalAll_loop unm i out (pre @ raw # post) =
    Inl (Wrapped (''item '' @ Itoa (i + length pre) @ '': '') err)"
  using assms(1)
proof (induction pre arbitrary: i out)
  case Nil
  with assms(2,3) show ?case by simp
next
  case (Cons r pre)
  then show ?case by (auto simp: decodes_def is_ok_iff)
qed

lemma unmarshalAll_ok: "list_all (decodes unm) raws \<Longrightarrow> unmarshalAll unm raws = Inr (decoded unm raws)"
  by (simp add: unmarshalAll_def unmarshalAll_loop_ok)

lemma first_failure:
  assumes "\<not> list_all (decodes unm) raws"
  obtains pre raw post err where "raws = pre @ raw # post" "list_all (decodes unm) pre"
    "raw \<noteq> []" "unm raw = Inl err"
proof -
  from assms obtain x where "x \<in> set raws" "\<not> decodes unm x"
    by (auto simp: list_all_iff)
  then obtain pre raw post where r: "raws = pre @ raw # post" "\<not> decodes unm raw" "\<forall>y \<in> set pre. decodes unm y"
    using split_list_first_prop [of raws "\<lambda>r. \<not> decodes unm r"] by blast
  moreover from r(2) obtain err where "unm raw = Inl err"
    by (cases "unm raw") (auto simp: decodes_def)
  ultimately show thesis using that by (auto simp: list_all_iff decodes_def)
qed

lemma unmarshalAll_is_ok: "is_ok (unmarshalAll unm raws) \<longleftrightarrow> list_all (decodes unm) raws"
proof (cases "list_all (decodes unm) raws")
  case True
  then show ?thesis by (simp add: unmarshalAll_ok)
next
  case False
  then obtain pre raw post err where "raws = pre @ raw # post" "list_all (decodes unm) pre"
    "raw \<noteq> []" "unm raw = Inl err"
    by (rule first_failure)
  with False show ?thesis by (simp add: unmarshalAll_def unmarshalAll_loop_error)
qed

lemma unmarshalAll_Inr_iff:
  "unmarshalAll unm raws = Inr out \<longleftrightarrow> list_all (decodes unm) raws \<and> out = decoded unm raws"
  using unmarshalAll_is_ok [of unm raws] unmarshalAll_ok [of unm raws] by (auto simp: is_ok_iff)

section \<open>Properties\<close>

text \<open>
  \<open>unmarshalAll\<close> succeeds exactly if every non-empty spec decodes; its result is then the decoded
  non-empty specs, in order, none dropped and none added.
\<close>

theorem unmarshalAll_success:
  "unmarshalAll unm raws = Inr out \<longleftrightarrow> map unm (filter (\<lambda>raw. raw \<noteq> []) raws) = map Inr out"
  by (auto simp: unmarshalAll_Inr_iff map_eq_map_Inr_iff decoded_def decodes_def list_all_iff)

text \<open>
  \<open>unmarshalAll\<close> fails exactly at the first non-empty spec that does not decode, and the error names
  its index in the given list, skipped empty specs counted.
\<close>

lemma unmarshalAll_failure:
  "unmarshalAll unm raws = Inl e \<longleftrightarrow>
     (\<exists>pre raw post err. raws = pre @ raw # post \<and> raw \<noteq> [] \<and> unm raw = Inl err \<and>
        (\<forall>r \<in> set pre. r = [] \<or> is_ok (unm r)) \<and>
        e = Wrapped (''item '' @ Itoa (length pre) @ '': '') err)"
  (is "?L \<longleftrightarrow> ?R")
proof
  assume L: ?L
  then have "\<not> list_all (decodes unm) raws"
    using unmarshalAll_ok [of unm raws] by auto
  then obtain pre raw post err where s: "raws = pre @ raw # post" "list_all (decodes unm) pre"
    "raw \<noteq> []" "unm raw = Inl err"
    by (rule first_failure)
  with L have "e = Wrapped (''item '' @ Itoa (length pre) @ '': '') err"
    by (simp add: unmarshalAll_def unmarshalAll_loop_error)
  with s show ?R by (auto simp: list_all_iff decodes_def)
next
  assume ?R
  then show ?L
    by (auto simp: unmarshalAll_def list_all_iff decodes_def unmarshalAll_loop_error)
qed

text \<open>
  \<open>BuildSnapshot\<close> succeeds exactly if all five lists decode and the constructor accepts them, and then
  the constructor was given the version unchanged and each decoded list under its own
  type: no list is dropped, truncated or swapped.
\<close>

lemma BuildSnapshot_success:
  "BuildSnapshot unmarshal newSnapshot version ls cs rs ss es = Inr snap \<longleftrightarrow>
     (\<exists>l c r s e. unmarshalAll (unmarshal unmarshaler ListenerType) ls = Inr l \<and>
        unmarshalAll (unmarshal unmarshaler ClusterType) cs = Inr c \<and>
        unmarshalAll (unmarshal unmarshaler RouteType) rs = Inr r \<and>
        unmarshalAll (unmarshal unmarshaler ScopedRouteType) ss = Inr s \<and>
        unmarshalAll (unmarshal unmarshaler EndpointType) es = Inr e \<and>
        newSnapshot version [(ListenerType, l), (ClusterType, c), (RouteType, r),
          (ScopedRouteType, s), (EndpointType, e)] = Inr snap)"
  by (simp add: BuildSnapshot_def result_bind_Inr_iff)

text \<open>
  When \<open>BuildSnapshot\<close> fails because specs do not decode, the error is the one of the first failing
  kind in the order listeners, clusters, routes, scoped routes, endpoints, prefixed with
  that kind.
\<close>

theorem BuildSnapshot_first_error:
  assumes "ks = [(''listeners: '', ListenerType, ls), (''clusters: '', ClusterType, cs),
      (''routes: '', RouteType, rs), (''scoped routes: '', ScopedRouteType, ss),
      (''endpoints: '', EndpointType, es)]"
    and "ks = pre @ (prefix, t, raws) # post"
    and "\<forall>(p, t', rws) \<in> set pre. is_ok (unmarshalAll (unmarshal unmarshaler t') rws)"
    and "unmarshalAll (unmarshal unmarshaler t) raws = Inl err"
  shows "BuildSnapshot unmarshal newSnapshot version ls cs rs ss es = Inl (Wrapped prefix err)"
  using assms
  by (auto simp: BuildSnapshot_def append_eq_Cons_conv is_ok_iff)

theorem BuildSnapshot_first_error_witness:
  "BuildSnapshot (\<lambda>opts t raw. if t = RouteType then Inl (GoError ''bad'') else Inr raw)
     (\<lambda>v m. Inr (v, m)) ''v1'' [''l''] [''c''] [''r''] [''s''] [''e''] =
   Inl (Wrapped ''routes: '' (Wrapped (''item '' @ Itoa 0 @ '': '') (GoError ''bad'')))"
proof -
  let ?u = "\<lambda>opts :: UnmarshalOptions. \<lambda>t raw :: string. if t = RouteType then Inl (GoError ''bad'') else Inr raw"
  let ?pre = "[(''listeners: '', ListenerType, [''l'']), (''clusters: '', ClusterType, [''c''])]"
  let ?post = "[(''scoped routes: '', ScopedRouteType, [''s'']), (''endpoints: '', EndpointType, [''e''])]"
  have split: "[(''listeners: '', ListenerType, [''l'']), (''clusters: '', ClusterType, [''c'']),
      (''routes: '', RouteType, [''r'']), (''scoped routes: '', ScopedRouteType, [''s'']),
      (''endpoints: '', EndpointType, [''e''])] = ?pre @ (''routes: '', RouteType, [''r'']) # ?post" by simp
  have pre: "\<forall>(p, t', rws) \<in> set ?pre. is_ok (unmarshalAll (?u unmarshaler t') rws)"
    by (simp add: unmarshalAll_def)
  have err: "unmarshalAll (?u unmarshaler RouteType) [''r''] = Inl (Wrapped (''item '' @ Itoa 0 @ '': '') (GoError ''bad''))"
    by (simp add: unmarshalAll_def)
  show ?thesis by (rule BuildSnapshot_first_error [OF refl split pre err])
qed

end
