(* ===== verification/Xds_Server.thy ===== *)
theory Xds_Server
  imports Go_Strings
begin

text \<open>
  \<open>control-plane/internal/xds/server.go\<close>: the table of connected proxies that the stream
  callbacks of the xDS server maintain, and the life of \<open>Server.Start\<close>. The snapshot cache is
  a value of a type parameter; gRPC, the discovery server and the network are the
  environment, which calls the callbacks and makes \<open>net.Listen\<close> and \<open>Serve\<close> return.

  \<open>stream_step\<close> is the environment: streams open, deliver requests that name the proxy and
  close. The results say when \<open>IsConnected\<close> tells the truth about the open streams.
\<close>

section \<open>The connection table\<close>

text \<open>\<open>sync.Map\<close> as the server uses it.\<close>

type_synonym conn_table = "(string, unit) gomap"

definition LoadOrStore :: "string \<Rightarrow> conn_table \<Rightarrow> bool \<times> conn_table" where
  "LoadOrStore k m = (case gomap_get m k of
     Some _ \<Rightarrow> (True, m) | None \<Rightarrow> (False, gomap_set k () m))"

definition table_Delete :: "string \<Rightarrow> conn_table \<Rightarrow> conn_table" where
  "table_Delete k m = AList.delete k m"

section \<open>Operations\<close>

record 'cache Server =
  Cache :: 'cache
  connected :: conn_table

record Node =
  node_Id :: string

record DiscoveryRequest =
  req_Node :: "Node option"

datatype log_line = EnvoyConnected string int64 | EnvoyDisconnected string int64

text \<open>
  \<open>cacheLogger\<close>: the log of the snapshot cache, as lines with a verbosity or as errors. The
  formatting of a message is \<open>fmt.Sprintf\<close>, a function of the format and the arguments.
\<close>

datatype cache_log = InfoLine nat string | ErrorLine go_error string

definition Debugf :: "(string \<Rightarrow> 'arg list \<Rightarrow> string) \<Rightarrow> string \<Rightarrow> 'arg list \<Rightarrow> cache_log" where
  "Debugf sprintf format args = InfoLine 2 (sprintf format args)"

definition Infof :: "(string \<Rightarrow> 'arg list \<Rightarrow> string) \<Rightarrow> string \<Rightarrow> 'arg list \<Rightarrow> cache_log" where
  "Infof sprintf format args = InfoLine 1 (sprintf format args)"

definition Warnf :: "(string \<Rightarrow> 'arg list \<Rightarrow> string) \<Rightarrow> string \<Rightarrow> 'arg list \<Rightarrow> cache_log" where
  "Warnf sprintf format args = InfoLine 0 (sprintf format args)"

definition Errorf :: "(string \<Rightarrow> 'arg list \<Rightarrow> string) \<Rightarrow> string \<Rightarrow> 'arg list \<Rightarrow> cache_log" where
  "Errorf sprintf format args = ErrorLine (GoError (sprintf format args)) ''xDS cache error''"

text \<open>A line is written if the verbosity of the logger reaches it; errors always are.\<close>

fun written_at :: "nat \<Rightarrow> cache_log \<Rightarrow> bool" where
  "written_at v (InfoLine n msg) \<longleftrightarrow> n \<le> v"
| "written_at v (ErrorLine err msg) \<longleftrightarrow> True"

lemma cacheLogger_levels:
  "written_at v (Errorf sprintf format args)" "written_at v (Warnf sprintf format args)"
  "written_at v (Infof sprintf format args) \<longleftrightarrow> 1 \<le> v" "written_at v (Debugf sprintf format args) \<longleftrightarrow> 2 \<le> v"
  by (simp_all add: Errorf_def Warnf_def Infof_def Debugf_def)

definition NewServer :: "(bool \<Rightarrow> 'cache) \<Rightarrow> 'cache Server" where
  "NewServer newSnapshotCache = \<lparr>Cache = newSnapshotCache False, connected = []\<rparr>"

definition IsConnected :: "'cache Server \<Rightarrow> string \<Rightarrow> bool" where
  "IsConnected s nodeID = gomap_has (connected s) nodeID"

definition StreamRequestFunc ::
  "int64 \<Rightarrow> DiscoveryRequest \<Rightarrow> 'cache Server \<Rightarrow> go_error option \<times> 'cache Server \<times> log_line list" where
  "StreamRequestFunc sid req s = (case req_Node req of
     Some node \<Rightarrow>
       (if node_Id node \<noteq> [] then
          (let (loaded, m) = LoadOrStore (node_Id node) (connected s) in
           (None, s\<lparr>connected := m\<rparr>, if loaded then [] else [EnvoyConnected (node_Id node) sid]))
        else (None, s, []))
   | None \<Rightarrow> (None, s, []))"

definition StreamClosedFunc ::
  "int64 \<Rightarrow> Node option \<Rightarrow> 'cache Server \<Rightarrow> 'cache Server \<times> log_line list" where
  "StreamClosedFunc sid node s = (case node of
     Some nd \<Rightarrow>
       (if node_Id nd \<noteq> [] then
          (s\<lparr>connected := table_Delete (node_Id nd) (connected s)\<rparr>, [EnvoyDisconnected (node_Id nd) sid])
        else (s, []))
   | None \<Rightarrow> (s, []))"

text \<open>The callbacks in the order the streams call them.\<close>

datatype stream_event =
    StreamRequest int64 DiscoveryRequest
  | StreamClosed int64 "Node option"

fun handle_event :: "stream_event \<Rightarrow> 'cache Server \<Rightarrow> 'cache Server" where
  "handle_event (StreamRequest sid req) s = fst (snd (StreamRequestFunc sid req s))"
| "handle_event (StreamClosed sid node) s = fst (StreamClosedFunc sid node s)"

text \<open>
  \<open>Server.Start\<close>: an address that cannot be listened on is an error; afterwards \<open>select\<close> takes
  whichever of the two is ready, the cancelled context (the server is stopped, no error)
  or the end of \<open>Serve\<close> (its error). With both ready either may be taken.
\<close>

datatype start_ready = CtxDone | ServeReturned "go_error option"

inductive Start :: "(string \<Rightarrow> go_error option) \<Rightarrow> string \<Rightarrow> start_ready set \<Rightarrow> bool \<Rightarrow> go_error option \<Rightarrow> bool"
  for listen :: "string \<Rightarrow> go_error option" and addr :: string and rdy :: "start_ready set" where
  listen_error: "listen addr = Some err \<Longrightarrow>
     Start listen addr rdy False (Some (Wrapped (''xDS listen on '' @ addr @ '': '') err))"
| ctx_done: "listen addr = None \<Longrightarrow> CtxDone \<in> rdy \<Longrightarrow> Start listen addr rdy True None"
| serve_returned: "listen addr = None \<Longrightarrow> ServeReturned err \<in> rdy \<Longrightarrow> Start listen addr rdy False err"

inductive_simps Start_iff: "Start listen addr rdy stopped err"

section \<open>Presence tables\<close>

text \<open>
  What the callbacks rely on in the table: the key stored is present, the key deleted is
  not, other keys are left alone. After any sequence of stores and deletions a key is
  present exactly if the last of them that concerns it was a store.
\<close>

datatype 'k table_op = Store 'k | Drop 'k

fun op_key :: "'k table_op \<Rightarrow> 'k" where
  "op_key (Store k) = k"
| "op_key (Drop k) = k"

locale presence_table =
  fixes load :: "'m \<Rightarrow> 'k \<Rightarrow> 'v option"
    and store :: "'k \<Rightarrow> 'm \<Rightarrow> 'm"
    and drop_key :: "'k \<Rightarrow> 'm \<Rightarrow> 'm"
  assumes load_store: "load (store k m) k' \<noteq> None \<longleftrightarrow> k' = k \<or> load m k' \<noteq> None"
    and load_drop: "load (drop_key k m) k' \<noteq> None \<longleftrightarrow> k' \<noteq> k \<and> load m k' \<noteq> None"
begin

lemma load_ops:
  "load (fold (\<lambda>op. case op of Store k \<Rightarrow> store k | Drop k \<Rightarrow> drop_key k) ops m) k \<noteq> None \<longleftrightarrow>
     (case find (\<lambda>op. op_key op = k) (rev ops) of
        Some op \<Rightarrow> op = Store k
      | None \<Rightarrow> load m k \<noteq> None)"
proof (induction ops rule: rev_induct)
  case Nil
  then show ?case by simp
next
  case (snoc op ops)
  then show ?case
    by (cases op) (auto simp: load_store [unfolded not_None_eq] load_drop [unfolded not_None_eq])
qed

end

interpretation ct: presence_table gomap_get "\<lambda>k m. snd (LoadOrStore k m)" table_Delete
  by unfold_locales
    (auto simp: LoadOrStore_def table_Delete_def delete_conv' update_conv' split: option.splits)

text \<open>A callback as an operation on the table; callbacks without a node id do nothing.\<close>

fun event_op :: "stream_event \<Rightarrow> string table_op option" where
  "event_op (StreamRequest sid req) = (case req_Node req of
     Some node \<Rightarrow> if node_Id node \<noteq> [] then Some (Store (node_Id node)) else None | None \<Rightarrow> None)"
| "event_op (StreamClosed sid node) = (case node of
     Some nd \<Rightarrow> if node_Id nd \<noteq> [] then Some (Drop (node_Id nd)) else None | None \<Rightarrow> None)"

lemma handle_event_connected:
  "connected (handle_event ev s) = (case event_op ev of
     None \<Rightarrow> connected s
   | Some (Store k) \<Rightarrow> snd (LoadOrStore k (connected s))
   | Some (Drop k) \<Rightarrow> table_Delete k (connected s))"
  by (cases ev) (auto simp: StreamRequestFunc_def StreamClosedFunc_def split: option.splits prod.splits)

lemma fold_handle_event_connected:
  "connected (fold handle_event evs s) =
     fold (\<lambda>op. case op of Store k \<Rightarrow> \<lambda>m. snd (LoadOrStore k m) | Drop k \<Rightarrow> table_Delete k)
       (List.map_filter event_op evs) (connected s)"
proof (induction evs arbitrary: s)
  case Nil
  then show ?case by (simp add: List.map_filter_simps)
next
  case (Cons ev evs)
  then show ?case
    by (auto simp: List.map_filter_simps handle_event_connected split: option.splits table_op.splits)
qed

lemma IsConnected_request:
  "IsConnected (fst (snd (StreamRequestFunc sid \<lparr>req_Node = Some \<lparr>node_Id = k\<rparr>\<rparr> s))) n \<longleftrightarrow>
     (n = k \<and> n \<noteq> []) \<or> IsConnected s n"
  using ct.load_store [of k "connected s" n]
  by (auto simp: IsConnected_def StreamRequestFunc_def split: prod.splits)

lemma IsConnected_closed:
  "IsConnected (fst (StreamClosedFunc sid (Some \<lparr>node_Id = k\<rparr>) s)) n \<longleftrightarrow>
     (n \<noteq> k \<or> k = []) \<and> IsConnected s n"
  using ct.load_drop [of k "connected s" n]
  by (auto simp: IsConnected_def StreamClosedFunc_def)

lemma StreamClosedFunc_None: "fst (StreamClosedFunc sid None s) = s"
  by (simp add: StreamClosedFunc_def)

lemma IsConnected_NewServer: "\<not> IsConnected (NewServer nc) n"
  by (simp add: IsConnected_def NewServer_def)

section \<open>Streams\<close>

text \<open>
  The open streams with the node id their requests carry (\<open>None\<close> before the first request).
  A stream belongs to one proxy: all its requests, and its close, name the same node.
\<close>

record 'cache system =
  sys_server :: "'cache Server"
  sys_streams :: "int64 \<rightharpoonup> string option"

definition init_system :: "(bool \<Rightarrow> 'cache) \<Rightarrow> 'cache system" where
  "init_system nc = \<lparr>sys_server = NewServer nc, sys_streams = Map.empty\<rparr>"

inductive stream_step :: "'cache system \<Rightarrow> 'cache system \<Rightarrow> bool" where
  opened: "sys_streams s sid = None \<Longrightarrow>
     stream_step s (s\<lparr>sys_streams := (sys_streams s)(sid \<mapsto> None)\<rparr>)"
| request: "sys_streams s sid = Some nd \<Longrightarrow> nd = None \<or> nd = Some n \<Longrightarrow>
     stream_step s
       (s\<lparr>sys_streams := (sys_streams s)(sid \<mapsto> Some n),
          sys_server := fst (snd (StreamRequestFunc sid \<lparr>req_Node = Some \<lparr>node_Id = n\<rparr>\<rparr> (sys_server s)))\<rparr>)"
| closed: "sys_streams s sid = Some nd \<Longrightarrow>
     stream_step s
       (s\<lparr>sys_streams := (sys_streams s)(sid := None),
          sys_server := fst (StreamClosedFunc sid (map_option Node.make nd) (sys_server s))\<rparr>)"

definition stream_open :: "'cache system \<Rightarrow> string \<Rightarrow> bool" where
  "stream_open s n \<longleftrightarrow> (\<exists>sid. sys_streams s sid = Some (Some n))"

definition one_stream_per_node :: "'cache system \<Rightarrow> bool" where
  "one_stream_per_node s \<longleftrightarrow>
     (\<forall>i j n. sys_streams s i = Some (Some n) \<longrightarrow> sys_streams s j = Some (Some n) \<longrightarrow> i = j)"

lemma IsConnected_init: "\<not> IsConnected (sys_server (init_system nc)) n"
  by (simp add: init_system_def IsConnected_NewServer)

definition connected_sound :: "'cache system \<Rightarrow> bool" where
  "connected_sound s \<longleftrightarrow> (\<forall>n. IsConnected (sys_server s) n \<longrightarrow> n \<noteq> [] \<and> stream_open s n)"

definition connected_exact :: "'cache system \<Rightarrow> bool" where
  "connected_exact s \<longleftrightarrow> (\<forall>n. IsConnected (sys_server s) n \<longleftrightarrow> n \<noteq> [] \<and> stream_open s n)"

lemma IsConnected_closed_opt:
  "IsConnected (fst (StreamClosedFunc sid (map_option Node.make nd) s)) n \<longleftrightarrow>
     (nd = None \<or> nd = Some [] \<or> nd \<noteq> Some n) \<and> IsConnected s n"
  by (cases nd) (auto simp: StreamClosedFunc_None Node.make_def IsConnected_closed)

lemma stream_open_upd:
  "stream_open (s\<lparr>sys_streams := (sys_streams s)(sid := v)\<rparr>) n \<longleftrightarrow>
     v = Some (Some n) \<or> (\<exists>j. j \<noteq> sid \<and> sys_streams s j = Some (Some n))"
  by (simp add: stream_open_def ex_fun_upd del: fun_upd_apply)

lemma stream_open_server [simp]: "stream_open (s\<lparr>sys_server := x\<rparr>) n \<longleftrightarrow> stream_open s n"
  by (simp add: stream_open_def)

lemma stream_open_opened:
  "sys_streams s sid = None \<Longrightarrow>
     stream_open (s\<lparr>sys_streams := (sys_streams s)(sid \<mapsto> None)\<rparr>) n \<longleftrightarrow> stream_open s n"
  by (simp add: stream_open_upd) (metis option.distinct(1) stream_open_def)

lemma stream_open_request:
  "sys_streams s sid = Some nd \<Longrightarrow> nd = None \<or> nd = Some k \<Longrightarrow>
     stream_open (s\<lparr>sys_streams := (sys_streams s)(sid \<mapsto> Some k)\<rparr>) n \<longleftrightarrow> n = k \<or> stream_open s n"
  by (simp add: stream_open_upd) (metis option.distinct(1) option.inject stream_open_def)

lemma stream_open_closed_other:
  "sys_streams s sid = Some nd \<Longrightarrow> nd \<noteq> Some n \<Longrightarrow>
     stream_open (s\<lparr>sys_streams := (sys_streams s)(sid := None)\<rparr>) n \<longleftrightarrow> stream_open s n"
  by (simp add: stream_open_upd) (metis option.inject stream_open_def)

lemma stream_open_closed_single:
  "one_stream_per_node s \<Longrightarrow> sys_streams s sid = Some (Some n) \<Longrightarrow>
     \<not> stream_open (s\<lparr>sys_streams := (sys_streams s)(sid := None)\<rparr>) n"
  by (auto simp: stream_open_upd one_stream_per_node_def)

lemmas stream_open_rules =
  stream_open_opened stream_open_request stream_open_closed_other stream_open_closed_single

lemma stream_step_sound: "stream_step s t \<Longrightarrow> connected_sound s \<Longrightarrow> connected_sound t"
proof (induction rule: stream_step.induct)
  case (opened s sid)
  then show ?case by (simp add: connected_sound_def stream_open_rules)
next
  case (request s sid nd n)
  then show ?case by (simp add: connected_sound_def stream_open_rules IsConnected_request)
next
  case (closed s sid nd)
  have "stream_open (s\<lparr>sys_streams := (sys_streams s)(sid := None)\<rparr>) n"
    if "nd = None \<or> nd = Some [] \<or> nd \<noteq> Some n" "stream_open s n" "n \<noteq> []" for n
    using that closed.hyps by (auto simp: stream_open_closed_other)
  with closed.prems show ?case by (auto simp: connected_sound_def IsConnected_closed_opt)
qed

lemma stream_step_exact:
  "stream_step s t \<Longrightarrow> one_stream_per_node s \<Longrightarrow> connected_exact s \<Longrightarrow> connected_exact t"
proof (induction rule: stream_step.induct)
  case (opened s sid)
  then show ?case by (simp add: connected_exact_def stream_open_rules)
next
  case (request s sid nd n)
  then show ?case by (auto simp: connected_exact_def stream_open_rules IsConnected_request)
next
  case (closed s sid nd)
  have "stream_open (s\<lparr>sys_streams := (sys_streams s)(sid := None)\<rparr>) n \<longleftrightarrow> nd \<noteq> Some n \<and> stream_open s n" for n
    using closed by (cases "nd = Some n") (auto simp: stream_open_closed_other stream_open_closed_single)
  with closed.prems show ?case by (auto simp: connected_exact_def IsConnected_closed_opt)
qed

section \<open>Properties\<close>

text \<open>
  After any sequence of stream callbacks a node id is reported connected exactly if the last callback
  that names it was a request, not the close of a stream; callbacks without a node id
  change nothing.
\<close>

theorem IsConnected_last_event:
  "IsConnected (fold handle_event evs (NewServer nc)) n \<longleftrightarrow>
     find (\<lambda>op. op_key op = n) (rev (List.map_filter event_op evs)) = Some (Store n)"
  using ct.load_ops [of "List.map_filter event_op evs" "[]" n]
  by (auto simp: IsConnected_def fold_handle_event_connected NewServer_def split: option.splits)

text \<open>
  C24. Safety of the connection table: in every reachable state of the server and its streams, a node id
  reported connected is not empty and has an open stream that has sent a request.
\<close>

theorem IsConnected_sound:
  assumes "stream_step\<^sup>*\<^sup>* (init_system nc) s" and "IsConnected (sys_server s) n"
  shows "n \<noteq> [] \<and> stream_open s n"
proof -
  have "connected_sound (init_system nc)"
    by (simp add: connected_sound_def IsConnected_init)
  with assms(1) have "connected_sound s"
    by (induction rule: rtranclp_induct) (auto intro: stream_step_sound)
  with assms(2) show ?thesis by (simp add: connected_sound_def)
qed

text \<open>
  C25. With at most one stream per proxy at a time the table is exact: a node id is reported connected if
  and only if it is not empty and has an open stream that has sent a request.
\<close>

theorem IsConnected_exact:
  assumes "(\<lambda>s t. stream_step s t \<and> one_stream_per_node t)\<^sup>*\<^sup>* (init_system nc) s"
  shows "IsConnected (sys_server s) n \<longleftrightarrow> n \<noteq> [] \<and> stream_open s n"
proof -
  have init: "one_stream_per_node (init_system nc)" "connected_exact (init_system nc)"
    by (simp_all add: one_stream_per_node_def init_system_def connected_exact_def stream_open_def
        IsConnected_NewServer)
  from assms have "one_stream_per_node s \<and> connected_exact s"
    by (induction rule: rtranclp_induct) (use init in \<open>auto intro: stream_step_exact\<close>)
  then show ?thesis by (simp add: connected_exact_def)
qed

text \<open>A run used by the witnesses: one stream opens and sends its first request.\<close>

definition example_open :: "unit system" where
  "example_open = (init_system (\<lambda>_. ()))\<lparr>sys_streams := [1 \<mapsto> None]\<rparr>"

definition example_requested :: "unit system" where
  "example_requested = example_open\<lparr>sys_streams := [1 \<mapsto> Some ''edge.default''],
     sys_server := fst (snd (StreamRequestFunc 1 \<lparr>req_Node = Some \<lparr>node_Id = ''edge.default''\<rparr>\<rparr> (sys_server example_open)))\<rparr>"

lemma example_steps:
  "stream_step (init_system (\<lambda>_. ())) example_open" "stream_step example_open example_requested"
proof -
  show "stream_step (init_system (\<lambda>_. ())) example_open"
    using stream_step.opened [of "init_system (\<lambda>_. ())" 1] by (simp add: init_system_def example_open_def)
  show "stream_step example_open example_requested"
    using stream_step.request [of example_open 1 None "''edge.default''"]
    by (simp add: example_requested_def) (simp add: example_open_def)
qed

lemma example_connected: "IsConnected (sys_server example_requested) ''edge.default''"
  by (simp add: example_requested_def IsConnected_request)

theorem IsConnected_sound_witness: "stream_open example_requested ''edge.default''"
proof -
  have "stream_step\<^sup>*\<^sup>* (init_system (\<lambda>_. ())) example_requested"
    using example_steps by (meson converse_rtranclp_into_rtranclp rtranclp.rtrancl_refl)
  then show ?thesis using IsConnected_sound example_connected by blast
qed

theorem IsConnected_exact_witness:
  "IsConnected (sys_server example_requested) ''edge.default'' \<longleftrightarrow> stream_open example_requested ''edge.default''"
proof -
  let ?step = "\<lambda>s t. stream_step s t \<and> one_stream_per_node (t :: unit system)"
  have "?step (init_system (\<lambda>_. ())) example_open" "?step example_open example_requested"
    using example_steps
    by (auto simp: one_stream_per_node_def example_open_def example_requested_def split: if_splits)
  then have "?step\<^sup>*\<^sup>* (init_system (\<lambda>_. ())) example_requested"
    by (rule converse_rtranclp_into_rtranclp [OF _ r_into_rtranclp])
  then show ?thesis using IsConnected_exact [of "\<lambda>_. ()" example_requested "''edge.default''"] by simp
qed

text \<open>
  C27. Without that restriction the table is not exact: a proxy with two open streams is reported as not
  connected after one of them closes, although the other one is still open and has sent
  its request.
\<close>

theorem IsConnected_misses_second_stream:
  "\<exists>s. stream_step\<^sup>*\<^sup>* (init_system nc) s \<and> stream_open s ''edge.default'' \<and>
     \<not> IsConnected (sys_server s) ''edge.default''"
proof -
  define n where "n = ''edge.default''"
  let ?req = "\<lambda>i s. s\<lparr>sys_streams := (sys_streams s)(i \<mapsto> Some n),
      sys_server := fst (snd (StreamRequestFunc i \<lparr>req_Node = Some \<lparr>node_Id = n\<rparr>\<rparr> (sys_server s)))\<rparr>"
  let ?opn = "\<lambda>i s. s\<lparr>sys_streams := (sys_streams s)(i \<mapsto> None)\<rparr>"
  define s1 where "s1 = ?req 1 (?opn 1 (init_system nc))"
  define s2 where "s2 = ?req 2 (?opn 2 s1)"
  define s3 where "s3 = s2\<lparr>sys_streams := (sys_streams s2)(1 := None),
      sys_server := fst (StreamClosedFunc 1 (map_option Node.make (Some n)) (sys_server s2))\<rparr>"
  have str: "sys_streams s1 = [1 \<mapsto> Some n]" "sys_streams s2 = [1 \<mapsto> Some n, 2 \<mapsto> Some n]"
    by (auto simp: s1_def s2_def init_system_def)
  have 1: "stream_step (init_system nc) (?opn 1 (init_system nc))"
    by (rule stream_step.opened) (simp add: init_system_def)
  have 2: "stream_step (?opn 1 (init_system nc)) s1"
    unfolding s1_def by (rule stream_step.request [where nd = None]) (simp_all add: init_system_def)
  have 3: "stream_step s1 (?opn 2 s1)"
    by (rule stream_step.opened) (simp add: str)
  have 4: "stream_step (?opn 2 s1) s2"
    unfolding s2_def by (rule stream_step.request [where nd = None]) simp_all
  have 5: "stream_step s2 s3"
    unfolding s3_def by (rule stream_step.closed) (simp add: str)
  have run: "stream_step\<^sup>*\<^sup>* (init_system nc) s3"
    using 1 2 3 4 5 by (meson converse_rtranclp_into_rtranclp rtranclp.rtrancl_refl)
  have "sys_streams s3 2 = Some (Some n)"
    by (simp add: s3_def str)
  then have "stream_open s3 n" by (auto simp: stream_open_def)
  moreover have "\<not> IsConnected (sys_server s3) n"
    using IsConnected_closed_opt [of 1 "Some n" "sys_server s2" n] by (simp add: s3_def n_def)
  ultimately show ?thesis using run unfolding n_def by blast
qed

text \<open>
  \<open>Server.Start\<close> returns an error naming the address if it cannot listen; otherwise it returns no error
  exactly when the context was cancelled (after stopping the server) or \<open>Serve\<close> itself
  returned none, and every error it returns is then one of \<open>Serve\<close>.
\<close>

lemma Start_outcomes:
  "Start listen addr rdy stopped res \<longleftrightarrow>
     (case listen addr of
        Some err \<Rightarrow> \<not> stopped \<and> res = Some (Wrapped (''xDS listen on '' @ addr @ '': '') err)
      | None \<Rightarrow> (stopped \<and> CtxDone \<in> rdy \<and> res = None) \<or> (\<not> stopped \<and> ServeReturned res \<in> rdy))"
  by (auto simp: Start_iff split: option.splits)

end
