(* ===== verification/Reconciler.thy ===== *)
theory Reconciler
  imports Eds Go_Sha256 Snapshot Xds_Server
begin

text \<open>
  \<open>control-plane/internal/controller/envoyproxy_controller.go\<close>: the reconcile loop of one proxy,
  the collection of the resources that target it, the version of a snapshot, the status
  conditions, and the maps from watched objects to reconcile requests.

  What is not part of the program is the record \<open>deps\<close> of functions the operations take as
  an argument: the Kubernetes client (reads are functions of the API state, a status
  update returns the new one; lists in changing orders are the subject of \<open>List_Order\<close>), \<open>protojson\<close>, the snapshot constructor and cache of
  \<open>go-control-plane\<close>, and \<open>meta.SetStatusCondition\<close>. The \<open>world\<close> a reconcile changes is the API
  state, the xDS server (with its cache), the error log, and the list of the status
  updates issued so far.
\<close>

section \<open>Environment and state\<close>

record ('s, 'res, 'snap, 'cache) deps =
  GetEnvoyProxy :: "'s \<Rightarrow> NamespacedName \<Rightarrow> EnvoyProxy result"
  IgnoreNotFound :: "go_error \<Rightarrow> go_error option"
  ListListeners :: "'s \<Rightarrow> Listener list result"
  ListClusters :: "'s \<Rightarrow> Cluster list result"
  ListRoutes :: "'s \<Rightarrow> RouteConfiguration list result"
  ListScopedRoutes :: "'s \<Rightarrow> ScopedRouteConfiguration list result"
  ListCLAs :: "'s \<Rightarrow> ClusterLoadAssignment list result"
  ListEndpointSlices :: "'s \<Rightarrow> string \<Rightarrow> (string \<times> string) list \<Rightarrow> EndpointSlice list result"
  MarshalCLA :: "CLA_proto \<Rightarrow> bytes result"
  UnmarshalResource :: "UnmarshalOptions \<Rightarrow> ResourceType \<Rightarrow> bytes \<Rightarrow> 'res result"
  NewSnapshot :: "string \<Rightarrow> (ResourceType, 'res list) gomap \<Rightarrow> 'snap result"
  SetSnapshot :: "'cache \<Rightarrow> string \<Rightarrow> 'snap \<Rightarrow> go_error option \<times> 'cache"
  SetStatusCondition :: "Condition list \<Rightarrow> Condition \<Rightarrow> Condition list"
  StatusUpdate :: "'s \<Rightarrow> EnvoyProxy \<Rightarrow> go_error option \<times> EnvoyProxy \<times> 's"

record ('s, 'cache) world =
  w_api :: 's
  w_xds :: "'cache Server"
  w_errors :: "(string \<times> go_error) list"
  w_updates :: "EnvoyProxy list"

section \<open>Collecting resources\<close>

definition targetMatches :: "TargetRef \<Rightarrow> string \<Rightarrow> string \<Rightarrow> string \<Rightarrow> bool" where
  "targetMatches ref itemNS proxyNS proxyName =
     (let ns = (if TargetRef_Namespace ref = [] then itemNS else TargetRef_Namespace ref) in
      TargetRef_Name ref = proxyName \<and> ns = proxyNS)"

definition collectListeners_items :: "string \<Rightarrow> string \<Rightarrow> Listener list \<Rightarrow> bytes list \<times> string list" where
  "collectListeners_items proxyNS proxyName items =
     foldl (\<lambda>(specs, versions) item.
        if targetMatches (Listener_TargetRef item) (meta_Namespace (Listener_ObjectMeta item)) proxyNS proxyName
        then (specs @ [Listener_Spec item], versions @ [meta_ResourceVersion (Listener_ObjectMeta item)])
        else (specs, versions)) ([], []) items"

definition collectListeners ::
  "('s, 'res, 'snap, 'cache) deps \<Rightarrow> 's \<Rightarrow> string \<Rightarrow> string \<Rightarrow> (bytes list \<times> string list) result" where
  "collectListeners d s proxyNS proxyName =
     result_bind (ListListeners d s) (\<lambda>items. Inr (collectListeners_items proxyNS proxyName items))"

definition collectClusters_items ::
  "string \<Rightarrow> string \<Rightarrow> Cluster list \<Rightarrow> bytes list \<times> string list \<times> Cluster list" where
  "collectClusters_items proxyNS proxyName items =
     foldl (\<lambda>(specs, versions, matched) item.
        if targetMatches (Cluster_TargetRef item) (meta_Namespace (Cluster_ObjectMeta item)) proxyNS proxyName
        then (specs @ [Cluster_Spec item], versions @ [meta_ResourceVersion (Cluster_ObjectMeta item)], matched @ [item])
        else (specs, versions, matched)) ([], [], []) items"

definition collectClusters ::
  "('s, 'res, 'snap, 'cache) deps \<Rightarrow> 's \<Rightarrow> string \<Rightarrow> string \<Rightarrow> (bytes list \<times> string list \<times> Cluster list) result" where
  "collectClusters d s proxyNS proxyName =
     result_bind (ListClusters d s) (\<lambda>items. Inr (collectClusters_items proxyNS proxyName items))"

definition collectRoutes_items :: "string \<Rightarrow> string \<Rightarrow> RouteConfiguration list \<Rightarrow> bytes list \<times> string list" where
  "collectRoutes_items proxyNS proxyName items =
     foldl (\<lambda>(specs, versions) item.
        if targetMatches (RouteConfiguration_TargetRef item) (meta_Namespace (RouteConfiguration_ObjectMeta item)) proxyNS proxyName
        then (specs @ [RouteConfiguration_Spec item], versions @ [meta_ResourceVersion (RouteConfiguration_ObjectMeta item)])
        else (specs, versions)) ([], []) items"

definition collectRoutes ::
  "('s, 'res, 'snap, 'cache) deps \<Rightarrow> 's \<Rightarrow> string \<Rightarrow> string \<Rightarrow> (bytes list \<times> string list) result" where
  "collectRoutes d s proxyNS proxyName =
     result_bind (ListRoutes d s) (\<lambda>items. Inr (collectRoutes_items proxyNS proxyName items))"

definition collectScopedRoutes_items ::
  "string \<Rightarrow> string \<Rightarrow> ScopedRouteConfiguration list \<Rightarrow> bytes list \<times> string list" where
  "collectScopedRoutes_items proxyNS proxyName items =
     foldl (\<lambda>(specs, versions) item.
        if targetMatches (ScopedRouteConfiguration_TargetRef item)
             (meta_Namespace (ScopedRouteConfiguration_ObjectMeta item)) proxyNS proxyName
        then (specs @ [ScopedRouteConfiguration_Spec item],
              versions @ [meta_ResourceVersion (ScopedRouteConfiguration_ObjectMeta item)])
        else (specs, versions)) ([], []) items"

definition collectScopedRoutes ::
  "('s, 'res, 'snap, 'cache) deps \<Rightarrow> 's \<Rightarrow> string \<Rightarrow> string \<Rightarrow> (bytes list \<times> string list) result" where
  "collectScopedRoutes d s proxyNS proxyName =
     result_bind (ListScopedRoutes d s) (\<lambda>items. Inr (collectScopedRoutes_items proxyNS proxyName items))"

text \<open>
  \<open>collectEndpoints\<close>, first part: the manual \<open>ClusterLoadAssignment\<close> resources, and the names
  that synthesis is to skip.
\<close>

definition collectManual ::
  "string \<Rightarrow> string \<Rightarrow> ClusterLoadAssignment list \<Rightarrow> bytes list \<times> string list \<times> (string, bool) gomap" where
  "collectManual proxyNS proxyName items =
     foldl (\<lambda>(specs, versions, manualNames) item.
        if targetMatches (ClusterLoadAssignment_TargetRef item)
             (meta_Namespace (ClusterLoadAssignment_ObjectMeta item)) proxyNS proxyName
        then (specs @ [ClusterLoadAssignment_Spec item],
              versions @ [meta_ResourceVersion (ClusterLoadAssignment_ObjectMeta item)],
              gomap_set (ClusterName (ClusterLoadAssignment_Spec item)) True manualNames)
        else (specs, versions, manualNames)) ([], [], []) items"

text \<open>Second part: one assignment per cluster with a service reference that is not skipped.\<close>

definition serviceNamespace :: "Cluster \<Rightarrow> KubernetesServiceRef \<Rightarrow> string" where
  "serviceNamespace cluster ref =
     (if ServiceRef_Namespace ref = [] then meta_Namespace (Cluster_ObjectMeta cluster)
      else ServiceRef_Namespace ref)"

fun collectSynthesized ::
  "('s, 'res, 'snap, 'cache) deps \<Rightarrow> 's \<Rightarrow> (string, bool) gomap \<Rightarrow> bytes list \<Rightarrow> string list \<Rightarrow> Cluster list \<Rightarrow>
   (bytes list \<times> string list) result" where
  "collectSynthesized d s manualNames specs versions [] = Inr (specs, versions)"
| "collectSynthesized d s manualNames specs versions (cluster # clusters) =
     (case Cluster_KubernetesServiceRef cluster of
        None \<Rightarrow> collectSynthesized d s manualNames specs versions clusters
      | Some ref \<Rightarrow>
          (let clusterName = ClusterName (Cluster_Spec cluster) in
           if clusterName = [] \<or> gomap_get manualNames clusterName = Some True
           then collectSynthesized d s manualNames specs versions clusters
           else
             (let svcNS = serviceNamespace cluster ref in
              case ListEndpointSlices d s svcNS [(''kubernetes.io/service-name'', ServiceRef_Name ref)] of
                Inl err \<Rightarrow>
                  Inl (Wrapped (''list endpointslices for '' @ svcNS @ ''/'' @ ServiceRef_Name ref @ '': '') err)
              | Inr slices \<Rightarrow>
                  (case MarshalCLA d (SynthesizeCLA clusterName slices (ServiceRef_Port ref)) of
                     Inl err \<Rightarrow> Inl (Wrapped (''marshal synthesized CLA for cluster '' @ clusterName @ '': '') err)
                   | Inr raw \<Rightarrow>
                       collectSynthesized d s manualNames (specs @ [raw])
                         (foldl (\<lambda>vs sl. vs @ [meta_ResourceVersion (slice_ObjectMeta sl)]) versions slices)
                         clusters))))"

definition collectEndpoints ::
  "('s, 'res, 'snap, 'cache) deps \<Rightarrow> 's \<Rightarrow> string \<Rightarrow> string \<Rightarrow> Cluster list \<Rightarrow> (bytes list \<times> string list) result" where
  "collectEndpoints d s proxyNS proxyName clusterItems =
     result_bind (ListCLAs d s) (\<lambda>claItems.
       (let (specs, versions, manualNames) = collectManual proxyNS proxyName claItems in
        collectSynthesized d s manualNames specs versions clusterItems))"

section \<open>Snapshot version and status\<close>

definition computeVersion :: "string list list \<Rightarrow> string" where
  "computeVersion groups =
     (let h = foldl (\<lambda>h group. foldl (\<lambda>h v. h @ v) h group) [] groups in
      take 16 (hex_EncodeToString (sha256 h)))"

definition setCondition ::
  "('s, 'res, 'snap, 'cache) deps \<Rightarrow> ('s, 'cache) world \<Rightarrow> EnvoyProxy \<Rightarrow> string \<Rightarrow> ConditionStatus \<Rightarrow>
   string \<Rightarrow> string \<Rightarrow> EnvoyProxy \<times> ('s, 'cache) world" where
  "setCondition d w ep condType status reason msg =
     (let gen = meta_Generation (EnvoyProxy_ObjectMeta ep);
          conds = SetStatusCondition d (status_Conditions (EnvoyProxy_Status ep))
            \<lparr>cond_Type = condType, cond_Status = status, cond_Reason = reason, cond_Message = msg,
             cond_ObservedGeneration = gen\<rparr>;
          ep1 = ep\<lparr>EnvoyProxy_Status := \<lparr>status_ObservedGeneration = gen, status_Conditions = conds\<rparr>\<rparr>;
          (err, ep2, s') = StatusUpdate d (w_api w) ep1
      in (ep2,
          w\<lparr>w_api := s', w_updates := w_updates w @ [ep1],
            w_errors := w_errors w @ (case err of None \<Rightarrow> [] | Some e \<Rightarrow> [(condType, e)])\<rparr>))"

section \<open>Reconcile\<close>

definition nodeID :: "EnvoyProxy \<Rightarrow> string" where
  "nodeID ep = meta_Name (EnvoyProxy_ObjectMeta ep) @ ''.'' @ meta_Namespace (EnvoyProxy_ObjectMeta ep)"

text \<open>The five collections in order, each with its own error prefix.\<close>

definition collectAll ::
  "('s, 'res, 'snap, 'cache) deps \<Rightarrow> 's \<Rightarrow> string \<Rightarrow> string \<Rightarrow>
   (bytes list \<times> bytes list \<times> bytes list \<times> bytes list \<times> bytes list \<times> string list list) result" where
  "collectAll d s ns name =
     result_bind (errorf ''collect listeners: '' (collectListeners d s ns name)) (\<lambda>(listeners, lVers).
     result_bind (errorf ''collect clusters: '' (collectClusters d s ns name)) (\<lambda>(clusters, cVers, clusterItems).
     result_bind (errorf ''collect routes: '' (collectRoutes d s ns name)) (\<lambda>(routes, rVers).
     result_bind (errorf ''collect scoped routes: '' (collectScopedRoutes d s ns name)) (\<lambda>(scopedRoutes, srVers).
     result_bind (errorf ''collect endpoints: '' (collectEndpoints d s ns name clusterItems)) (\<lambda>(endpoints, eVers).
       Inr (listeners, clusters, routes, scopedRoutes, endpoints, [lVers, cVers, rVers, srVers, eVers]))))))"

definition Reconcile ::
  "('s, 'res, 'snap, 'cache) deps \<Rightarrow> ('s, 'cache) world \<Rightarrow> NamespacedName \<Rightarrow> go_error option \<times> ('s, 'cache) world" where
  "Reconcile d w req = (case GetEnvoyProxy d (w_api w) req of
     Inl err \<Rightarrow> (IgnoreNotFound d err, w)
   | Inr ep \<Rightarrow>
      (case collectAll d (w_api w) (meta_Namespace (EnvoyProxy_ObjectMeta ep)) (meta_Name (EnvoyProxy_ObjectMeta ep)) of
         Inl err \<Rightarrow> (Some err, w)
       | Inr (listeners, clusters, routes, scopedRoutes, endpoints, vers) \<Rightarrow>
          (let version = computeVersion vers in
           case BuildSnapshot (UnmarshalResource d) (NewSnapshot d) version listeners clusters routes scopedRoutes endpoints of
             Inl err \<Rightarrow>
               (let (ep1, w1) = setCondition d w ep ConditionReady ConditionFalse ''SnapshotBuildFailed'' (error_text err)
                in (Some (Wrapped ''build snapshot: '' err), w1))
           | Inr snap \<Rightarrow>
               (let (serr, cache') = SetSnapshot d (Cache (w_xds w)) (nodeID ep) snap;
                    w0 = w\<lparr>w_xds := (w_xds w)\<lparr>Cache := cache'\<rparr>\<rparr>
                in case serr of
                     Some err \<Rightarrow>
                       (let (ep1, w1) = setCondition d w0 ep ConditionReady ConditionFalse ''SnapshotSetFailed'' (error_text err)
                        in (Some (Wrapped ''set snapshot: '' err), w1))
                   | None \<Rightarrow>
                       (let connStatus = (if IsConnected (w_xds w0) (nodeID ep) then ConditionTrue else ConditionFalse);
                            (ep1, w1) = setCondition d w0 ep ConditionConnected connStatus ''StreamStatus'' [];
                            (ep2, w2) = setCondition d w1 ep1 ConditionReady ConditionTrue ''SnapshotReady'' (''version='' @ version)
                        in (None, w2))))))"

section \<open>From watched objects to requests\<close>

definition enqueueCluster ::
  "string \<Rightarrow> string \<Rightarrow> (NamespacedName, bool) gomap \<times> NamespacedName list \<Rightarrow> Cluster \<Rightarrow>
   (NamespacedName, bool) gomap \<times> NamespacedName list" where
  "enqueueCluster svcName sliceNS st cluster =
     (let (seen, reqs) = st in
      case Cluster_KubernetesServiceRef cluster of
        None \<Rightarrow> (seen, reqs)
      | Some ref \<Rightarrow>
          (let refNS = (if ServiceRef_Namespace ref = [] then meta_Namespace (Cluster_ObjectMeta cluster)
                        else ServiceRef_Namespace ref) in
           if ServiceRef_Name ref \<noteq> svcName \<or> refNS \<noteq> sliceNS then (seen, reqs)
           else
             (let targetNS = (if TargetRef_Namespace (Cluster_TargetRef cluster) = []
                              then meta_Namespace (Cluster_ObjectMeta cluster)
                              else TargetRef_Namespace (Cluster_TargetRef cluster));
                  key = \<lparr>nn_Name = TargetRef_Name (Cluster_TargetRef cluster), nn_Namespace = targetNS\<rparr>
              in if gomap_get seen key \<noteq> Some True then (gomap_set key True seen, reqs @ [key])
                 else (seen, reqs))))"

definition mapEndpointSliceToProxies ::
  "('s, 'res, 'snap, 'cache) deps \<Rightarrow> 's \<Rightarrow> client_object \<Rightarrow> NamespacedName list" where
  "mapEndpointSliceToProxies d s obj = (case gomap_get (GetLabels obj) ''kubernetes.io/service-name'' of
     None \<Rightarrow> []
   | Some svcName \<Rightarrow>
      (let sliceNS = GetNamespace obj in
       case ListClusters d s of
         Inl err \<Rightarrow> []
       | Inr clusters \<Rightarrow> snd (foldl (enqueueCluster svcName sliceNS) ([], []) clusters)))"

definition mapXDSResourceToProxy :: "client_object \<Rightarrow> NamespacedName list" where
  "mapXDSResourceToProxy obj = (case as_targetReffer obj of
     None \<Rightarrow> []
   | Some ref \<Rightarrow>
      (let ns = (if TargetRef_Namespace ref = [] then GetNamespace obj else TargetRef_Namespace ref) in
       [\<lparr>nn_Name = TargetRef_Name ref, nn_Namespace = ns\<rparr>]))"

text \<open>\<open>SetupWithManager\<close>: the requests an event on an object enqueues, by the kind of the object.\<close>

definition watchRequests ::
  "('s, 'res, 'snap, 'cache) deps \<Rightarrow> 's \<Rightarrow> client_object \<Rightarrow> NamespacedName list" where
  "watchRequests d s obj = (case obj of
     ObjEnvoyProxy e \<Rightarrow> [\<lparr>nn_Name = meta_Name (EnvoyProxy_ObjectMeta e), nn_Namespace = meta_Namespace (EnvoyProxy_ObjectMeta e)\<rparr>]
   | ObjEndpointSlice sl \<Rightarrow> mapEndpointSliceToProxies d s obj
   | _ \<Rightarrow> mapXDSResourceToProxy obj)"

section \<open>The collections in closed form\<close>

text \<open>The proxy a reference points to, with the namespace of the item as the default.\<close>

definition target_key :: "TargetRef \<Rightarrow> string \<Rightarrow> NamespacedName" where
  "target_key ref itemNS =
     \<lparr>nn_Name = TargetRef_Name ref,
      nn_Namespace = (if TargetRef_Namespace ref = [] then itemNS else TargetRef_Namespace ref)\<rparr>"

lemma targetMatches_key:
  "targetMatches ref itemNS proxyNS proxyName \<longleftrightarrow>
     target_key ref itemNS = \<lparr>nn_Name = proxyName, nn_Namespace = proxyNS\<rparr>"
  by (auto simp: targetMatches_def target_key_def Let_def)

lemma request_eta: "\<lparr>nn_Name = nn_Name r, nn_Namespace = nn_Namespace r\<rparr> = (r :: NamespacedName)"
  by simp

lemma targetMatches_request:
  "targetMatches ref itemNS (nn_Namespace r) (nn_Name r) \<longleftrightarrow> target_key ref itemNS = r"
  by (simp only: targetMatches_key request_eta)

lemma mapXDSResourceToProxy_key:
  "mapXDSResourceToProxy obj =
     (case as_targetReffer obj of None \<Rightarrow> [] | Some ref \<Rightarrow> [target_key ref (GetNamespace obj)])"
  by (simp only: mapXDSResourceToProxy_def target_key_def Let_def)

text \<open>The result of a list call before and after at most one item is gone.\<close>

definition list_without :: "'a option \<Rightarrow> 'a list result \<Rightarrow> 'a list result \<Rightarrow> bool" where
  "list_without x r r' \<longleftrightarrow> (case x of
     None \<Rightarrow> r' = r
   | Some i \<Rightarrow> \<exists>xs ys. r = Inr (xs @ i # ys) \<and> r' = Inr (xs @ ys))"

text \<open>
  What \<open>Reconcile\<close> relies on in each of its collections: the specs and resource versions of
  exactly the items that target the proxy, in list order.
\<close>

locale target_collector =
  fixes collect :: "string \<Rightarrow> string \<Rightarrow> 'a list \<Rightarrow> bytes list \<times> string list"
    and tref :: "'a \<Rightarrow> TargetRef" and meta :: "'a \<Rightarrow> ObjectMeta" and raw :: "'a \<Rightarrow> bytes"
  assumes collect_eq: "collect proxyNS proxyName items =
    (map raw (filter (\<lambda>i. targetMatches (tref i) (meta_Namespace (meta i)) proxyNS proxyName) items),
     map (\<lambda>i. meta_ResourceVersion (meta i))
       (filter (\<lambda>i. targetMatches (tref i) (meta_Namespace (meta i)) proxyNS proxyName) items))"
begin

lemma collect_lengths: "length (fst (collect ns name items)) = length (snd (collect ns name items))"
  by (simp add: collect_eq)

lemma collected_iff:
  "x \<in> set (fst (collect ns name items)) \<longleftrightarrow>
     (\<exists>i \<in> set items. raw i = x \<and> target_key (tref i) (meta_Namespace (meta i)) = \<lparr>nn_Name = name, nn_Namespace = ns\<rparr>)"
  by (auto simp: collect_eq targetMatches_key)

text \<open>An item that does not target the proxy can be added or removed without any effect.\<close>

lemma collect_irrelevant:
  assumes "target_key (tref i) (meta_Namespace (meta i)) \<noteq> \<lparr>nn_Name = name, nn_Namespace = ns\<rparr>"
  shows "collect ns name (xs @ i # ys) = collect ns name (xs @ ys)"
  using assms by (simp add: collect_eq targetMatches_key)

text \<open>Removing an item that does not target the proxy from the list leaves the collection as it is.\<close>

lemma collect_without:
  assumes "list_without x r r'"
    and "\<And>i. x = Some i \<Longrightarrow> target_key (tref i) (meta_Namespace (meta i)) \<noteq> \<lparr>nn_Name = name, nn_Namespace = ns\<rparr>"
  shows "result_bind r (\<lambda>items. Inr (collect ns name items)) = result_bind r' (\<lambda>items. Inr (collect ns name items))"
  using assms by (cases x) (auto simp: list_without_def collect_irrelevant)

lemma collect_all:
  "collect ns name items =
     (let m = filter (\<lambda>i. target_key (tref i) (meta_Namespace (meta i)) = \<lparr>nn_Name = name, nn_Namespace = ns\<rparr>) items in
      (map raw m, map (\<lambda>i. meta_ResourceVersion (meta i)) m))"
  by (simp add: collect_eq targetMatches_key Let_def)

end

interpretation lst: target_collector collectListeners_items Listener_TargetRef Listener_ObjectMeta Listener_Spec
  by unfold_locales (simp add: collectListeners_items_def go_loop)

interpretation rts: target_collector collectRoutes_items
    RouteConfiguration_TargetRef RouteConfiguration_ObjectMeta RouteConfiguration_Spec
  by unfold_locales (simp add: collectRoutes_items_def go_loop)

interpretation srs: target_collector collectScopedRoutes_items
    ScopedRouteConfiguration_TargetRef ScopedRouteConfiguration_ObjectMeta ScopedRouteConfiguration_Spec
  by unfold_locales (simp add: collectScopedRoutes_items_def go_loop)

lemma collectClusters_items_eq:
  "collectClusters_items ns name items =
     (let m = filter (\<lambda>c. targetMatches (Cluster_TargetRef c) (meta_Namespace (Cluster_ObjectMeta c)) ns name) items in
      (map Cluster_Spec m, map (\<lambda>c. meta_ResourceVersion (Cluster_ObjectMeta c)) m, m))"
  by (simp add: collectClusters_items_def go_loop Let_def)

interpretation cls: target_collector
    "\<lambda>ns name items. (fst (collectClusters_items ns name items), fst (snd (collectClusters_items ns name items)))"
    Cluster_TargetRef Cluster_ObjectMeta Cluster_Spec
  by unfold_locales (simp add: collectClusters_items_eq Let_def)

text \<open>The manual assignments: their specs, versions and the names they take.\<close>

definition manual_items :: "string \<Rightarrow> string \<Rightarrow> ClusterLoadAssignment list \<Rightarrow> ClusterLoadAssignment list" where
  "manual_items ns name items =
     filter (\<lambda>i. targetMatches (ClusterLoadAssignment_TargetRef i)
       (meta_Namespace (ClusterLoadAssignment_ObjectMeta i)) ns name) items"

lemma collectManual_loop:
  "foldl (\<lambda>(specs, versions, manualNames) item.
        if p item
        then (specs @ [f item], versions @ [g item], gomap_set (h item) True manualNames)
        else (specs, versions, manualNames)) (specs, versions, names) items =
   (specs @ map f (filter p items), versions @ map g (filter p items),
    fold (\<lambda>i. gomap_set (h i) True) (filter p items) names)"
  by (induction items arbitrary: specs versions names) auto

lemma collectManual_eq:
  "collectManual ns name items =
     (map ClusterLoadAssignment_Spec (manual_items ns name items),
      map (\<lambda>i. meta_ResourceVersion (ClusterLoadAssignment_ObjectMeta i)) (manual_items ns name items),
      fold (\<lambda>i. gomap_set (ClusterName (ClusterLoadAssignment_Spec i)) True) (manual_items ns name items) [])"
  by (simp add: collectManual_def collectManual_loop manual_items_def)

interpretation clas: target_collector
    "\<lambda>ns name items. (fst (collectManual ns name items), fst (snd (collectManual ns name items)))"
    ClusterLoadAssignment_TargetRef ClusterLoadAssignment_ObjectMeta ClusterLoadAssignment_Spec
  by unfold_locales (simp add: collectManual_eq manual_items_def)

definition manual_names :: "string \<Rightarrow> string \<Rightarrow> ClusterLoadAssignment list \<Rightarrow> string set" where
  "manual_names ns name items = (\<lambda>i. ClusterName (ClusterLoadAssignment_Spec i)) ` set (manual_items ns name items)"

lemma fold_names_get:
  "gomap_get (fold (\<lambda>i. gomap_set (h i) True) xs m) k = Some True \<longleftrightarrow> k \<in> h ` set xs \<or> gomap_get m k = Some True"
  by (induction xs arbitrary: m) (auto simp: update_conv')

lemma manualNames_get:
  "gomap_get (snd (snd (collectManual ns name items))) k = Some True \<longleftrightarrow> k \<in> manual_names ns name items"
  by (simp add: collectManual_eq fold_names_get manual_names_def)

text \<open>
  The synthesised assignments as a result-valued map over the eligible clusters: those with
  a service reference and a name that is not taken.
\<close>

definition eligible :: "string set \<Rightarrow> Cluster \<Rightarrow> bool" where
  "eligible names c \<longleftrightarrow> Cluster_KubernetesServiceRef c \<noteq> None \<and> ClusterName (Cluster_Spec c) \<noteq> [] \<and>
     ClusterName (Cluster_Spec c) \<notin> names"

definition cluster_slices ::
  "('s, 'res, 'snap, 'cache) deps \<Rightarrow> 's \<Rightarrow> Cluster \<Rightarrow> KubernetesServiceRef \<Rightarrow> EndpointSlice list result" where
  "cluster_slices d s c ref = errorf (''list endpointslices for '' @ serviceNamespace c ref @ ''/'' @ ServiceRef_Name ref @ '': '')
     (ListEndpointSlices d s (serviceNamespace c ref) [(''kubernetes.io/service-name'', ServiceRef_Name ref)])"

definition synthesize ::
  "('s, 'res, 'snap, 'cache) deps \<Rightarrow> 's \<Rightarrow> Cluster \<Rightarrow> (bytes \<times> string list) result" where
  "synthesize d s c = (case Cluster_KubernetesServiceRef c of
     None \<Rightarrow> Inl (GoError [])
   | Some ref \<Rightarrow>
      result_bind (cluster_slices d s c ref) (\<lambda>slices.
      result_bind (errorf (''marshal synthesized CLA for cluster '' @ ClusterName (Cluster_Spec c) @ '': '')
          (MarshalCLA d (SynthesizeCLA (ClusterName (Cluster_Spec c)) slices (ServiceRef_Port ref)))) (\<lambda>raw.
        Inr (raw, map (\<lambda>sl. meta_ResourceVersion (slice_ObjectMeta sl)) slices))))"

fun synthesize_all ::
  "('s, 'res, 'snap, 'cache) deps \<Rightarrow> 's \<Rightarrow> Cluster list \<Rightarrow> (bytes \<times> string list) list result" where
  "synthesize_all d s [] = Inr []"
| "synthesize_all d s (c # cs) =
     result_bind (synthesize d s c) (\<lambda>x. result_bind (synthesize_all d s cs) (\<lambda>xs. Inr (x # xs)))"

lemma collectSynthesized_eq:
  assumes "\<And>k. gomap_get m k = Some True \<longleftrightarrow> k \<in> names"
  shows "collectSynthesized d s m specs versions cs =
    result_bind (synthesize_all d s (filter (eligible names) cs))
      (\<lambda>xs. Inr (specs @ map fst xs, versions @ concat (map snd xs)))"
proof (induction cs arbitrary: specs versions)
  case Nil
  then show ?case by simp
next
  case (Cons c cs)
  show ?case
  proof (cases "eligible names c")
    case False
    then have "collectSynthesized d s m specs versions (c # cs) = collectSynthesized d s m specs versions cs"
      by (auto simp: eligible_def assms Let_def split: option.splits)
    with False Cons show ?thesis by simp
  next
    case True
    then obtain ref where ref: "Cluster_KubernetesServiceRef c = Some ref"
      and name: "\<not> (ClusterName (Cluster_Spec c) = [] \<or> ClusterName (Cluster_Spec c) \<in> names)"
      by (auto simp: eligible_def)
    show ?thesis
    proof (cases "ListEndpointSlices d s (serviceNamespace c ref) [(''kubernetes.io/service-name'', ServiceRef_Name ref)]")
      case (Inl err)
      with True ref name show ?thesis
        by (simp add: assms Let_def synthesize_def cluster_slices_def)
    next
      case (Inr slices)
      with True ref name Cons show ?thesis
        by (cases "MarshalCLA d (SynthesizeCLA (ClusterName (Cluster_Spec c)) slices (ServiceRef_Port ref))";
            cases "synthesize_all d s (filter (eligible names) cs)")
          (simp_all add: assms Let_def synthesize_def cluster_slices_def go_loop)
    qed
  qed
qed

lemma collectEndpoints_eq:
  "collectEndpoints d s ns name cs =
     result_bind (ListCLAs d s) (\<lambda>clas.
     result_bind (synthesize_all d s (filter (eligible (manual_names ns name clas)) cs)) (\<lambda>xs.
       Inr (map ClusterLoadAssignment_Spec (manual_items ns name clas) @ map fst xs,
            map (\<lambda>i. meta_ResourceVersion (ClusterLoadAssignment_ObjectMeta i)) (manual_items ns name clas) @
              concat (map snd xs))))"
proof (cases "ListCLAs d s")
  case (Inr clas)
  have "gomap_get (fold (\<lambda>i. gomap_set (ClusterName (ClusterLoadAssignment_Spec i)) True) (manual_items ns name clas) []) k
      = Some True \<longleftrightarrow> k \<in> manual_names ns name clas" for k
    using manualNames_get [of ns name clas k] by (simp add: collectManual_eq)
  note eq = collectSynthesized_eq [OF this]
  from Inr show ?thesis by (simp add: collectEndpoints_def collectManual_eq eq)
qed (simp add: collectEndpoints_def)

section \<open>What a collection depends on\<close>

lemma collectClusters_without:
  assumes "list_without x (ListClusters d s) (ListClusters d s')"
    and "\<And>c. x = Some c \<Longrightarrow> target_key (Cluster_TargetRef c) (meta_Namespace (Cluster_ObjectMeta c)) \<noteq>
      \<lparr>nn_Name = name, nn_Namespace = ns\<rparr>"
  shows "collectClusters d s ns name = collectClusters d s' ns name"
  using assms by (cases x) (auto simp: collectClusters_def collectClusters_items_eq list_without_def targetMatches_key Let_def)

lemma collectClusters_targets:
  assumes "collectClusters d s ns name = Inr (specs, vers, cs)"
  obtains items where "ListClusters d s = Inr items"
    and "cs = filter (\<lambda>c. target_key (Cluster_TargetRef c) (meta_Namespace (Cluster_ObjectMeta c)) =
      \<lparr>nn_Name = name, nn_Namespace = ns\<rparr>) items"
  using assms by (auto simp: collectClusters_def collectClusters_items_eq targetMatches_key result_bind_Inr_iff Let_def)

lemma synthesize_all_cong:
  assumes "\<And>c ref. c \<in> set cs \<Longrightarrow> Cluster_KubernetesServiceRef c = Some ref \<Longrightarrow> cluster_slices d s c ref = cluster_slices d s' c ref"
  shows "synthesize_all d s cs = synthesize_all d s' cs"
proof -
  have "synthesize d s c = synthesize d s' c" if "c \<in> set cs" for c
    using assms [OF that] by (simp add: synthesize_def split: option.split)
  then show ?thesis by (induction cs) simp_all
qed

lemma manual_items_without:
  assumes "list_without x r r'"
    and "\<And>i. x = Some i \<Longrightarrow> target_key (ClusterLoadAssignment_TargetRef i)
      (meta_Namespace (ClusterLoadAssignment_ObjectMeta i)) \<noteq> \<lparr>nn_Name = name, nn_Namespace = ns\<rparr>"
  shows "result_bind r (\<lambda>clas. Inr (manual_items ns name clas)) = result_bind r' (\<lambda>clas. Inr (manual_items ns name clas))"
  using assms by (cases x) (auto simp: list_without_def manual_items_def targetMatches_key)

section \<open>The requests of an endpoint slice\<close>

definition slice_request :: "string \<Rightarrow> string \<Rightarrow> Cluster \<Rightarrow> NamespacedName option" where
  "slice_request svcName sliceNS c = (case Cluster_KubernetesServiceRef c of
     None \<Rightarrow> None
   | Some ref \<Rightarrow>
      (if ServiceRef_Name ref \<noteq> svcName \<or> serviceNamespace c ref \<noteq> sliceNS then None
       else Some (target_key (Cluster_TargetRef c) (meta_Namespace (Cluster_ObjectMeta c)))))"

lemma enqueueCluster_dedup: "enqueueCluster svcName sliceNS = dedup_step (slice_request svcName sliceNS)"
  by (auto simp: fun_eq_iff enqueueCluster_def dedup_step_def slice_request_def serviceNamespace_def
      target_key_def Let_def split: option.splits)

lemma mapEndpointSliceToProxies_dedup:
  "mapEndpointSliceToProxies d s obj = (case gomap_get (GetLabels obj) ''kubernetes.io/service-name'' of
     None \<Rightarrow> []
   | Some svcName \<Rightarrow>
      (case ListClusters d s of
         Inl err \<Rightarrow> []
       | Inr clusters \<Rightarrow> snd (foldl (dedup_step (slice_request svcName (GetNamespace obj))) ([], []) clusters)))"
  by (simp add: mapEndpointSliceToProxies_def enqueueCluster_dedup Let_def split: option.split sum.split)

lemma slice_request_Some:
  "slice_request svcName sliceNS c = Some r \<longleftrightarrow>
     (\<exists>ref. Cluster_KubernetesServiceRef c = Some ref \<and> ServiceRef_Name ref = svcName \<and>
        serviceNamespace c ref = sliceNS \<and>
        r = target_key (Cluster_TargetRef c) (meta_Namespace (Cluster_ObjectMeta c)))"
  by (auto simp: slice_request_def split: option.splits)

lemma mapEndpointSliceToProxies_request:
  "r \<in> set (mapEndpointSliceToProxies d s obj) \<longleftrightarrow>
     (\<exists>svcName items c. gomap_get (GetLabels obj) ''kubernetes.io/service-name'' = Some svcName \<and>
        ListClusters d s = Inr items \<and> c \<in> set items \<and> slice_request svcName (GetNamespace obj) c = Some r)"
  by (cases "gomap_get (GetLabels obj) ''kubernetes.io/service-name''"; cases "ListClusters d s")
    (auto simp: mapEndpointSliceToProxies_dedup dedup_loop_result)

section \<open>The snapshot of a proxy\<close>

text \<open>What a reconcile is to publish for a proxy in an API state: a function of that state alone.\<close>

definition proxy_snapshot ::
  "('s, 'res, 'snap, 'cache) deps \<Rightarrow> 's \<Rightarrow> EnvoyProxy \<Rightarrow> (string \<times> 'snap) result" where
  "proxy_snapshot d s ep =
     result_bind (collectAll d s (meta_Namespace (EnvoyProxy_ObjectMeta ep)) (meta_Name (EnvoyProxy_ObjectMeta ep)))
       (\<lambda>(ls, cs, rs, srs, es, vers).
         result_bind (errorf ''build snapshot: ''
             (BuildSnapshot (UnmarshalResource d) (NewSnapshot d) (computeVersion vers) ls cs rs srs es))
           (\<lambda>snap. Inr (computeVersion vers, snap)))"

lemma setCondition_xds [simp]: "w_xds (snd (setCondition d w ep ct st rs msg)) = w_xds w"
  by (simp add: setCondition_def Let_def split: prod.splits)

text \<open>The proxy as \<open>setCondition\<close> sends it to the API server.\<close>

definition with_condition ::
  "('s, 'res, 'snap, 'cache) deps \<Rightarrow> EnvoyProxy \<Rightarrow> string \<Rightarrow> ConditionStatus \<Rightarrow> string \<Rightarrow> string \<Rightarrow> EnvoyProxy" where
  "with_condition d ep ct st rs msg =
     ep\<lparr>EnvoyProxy_Status := \<lparr>status_ObservedGeneration = meta_Generation (EnvoyProxy_ObjectMeta ep),
        status_Conditions = SetStatusCondition d (status_Conditions (EnvoyProxy_Status ep))
          \<lparr>cond_Type = ct, cond_Status = st, cond_Reason = rs, cond_Message = msg,
           cond_ObservedGeneration = meta_Generation (EnvoyProxy_ObjectMeta ep)\<rparr>\<rparr>\<rparr>"

lemma setCondition_update:
  "w_updates (snd (setCondition d w ep ct st rs msg)) = w_updates w @ [with_condition d ep ct st rs msg]"
  by (simp add: setCondition_def with_condition_def Let_def split: prod.splits)

lemma setCondition_proxy:
  "fst (setCondition d w ep ct st rs msg) = fst (snd (StatusUpdate d (w_api w) (with_condition d ep ct st rs msg)))"
  by (simp add: setCondition_def with_condition_def Let_def split: prod.splits)

lemma setCondition_api:
  "w_api (snd (setCondition d w ep ct st rs msg)) = snd (snd (StatusUpdate d (w_api w) (with_condition d ep ct st rs msg)))"
  by (simp add: setCondition_def with_condition_def Let_def split: prod.splits)

lemma Reconcile_missing:
  "GetEnvoyProxy d (w_api w) req = Inl err \<Longrightarrow> Reconcile d w req = (IgnoreNotFound d err, w)"
  by (simp add: Reconcile_def)

lemma Reconcile_collect_error:
  assumes "GetEnvoyProxy d (w_api w) req = Inr ep"
    and "collectAll d (w_api w) (meta_Namespace (EnvoyProxy_ObjectMeta ep)) (meta_Name (EnvoyProxy_ObjectMeta ep)) = Inl err"
  shows "Reconcile d w req = (Some err, w)"
  using assms by (simp add: Reconcile_def)

lemma Reconcile_build_error:
  assumes "GetEnvoyProxy d (w_api w) req = Inr ep"
    and "collectAll d (w_api w) (meta_Namespace (EnvoyProxy_ObjectMeta ep)) (meta_Name (EnvoyProxy_ObjectMeta ep)) =
      Inr (ls, cs, rs, srs, es, vers)"
    and "BuildSnapshot (UnmarshalResource d) (NewSnapshot d) (computeVersion vers) ls cs rs srs es = Inl err"
  shows "Reconcile d w req = (Some (Wrapped ''build snapshot: '' err),
    snd (setCondition d w ep ConditionReady ConditionFalse ''SnapshotBuildFailed'' (error_text err)))"
  using assms by (simp add: Reconcile_def Let_def split: prod.splits)

lemma Reconcile_set_error:
  assumes "GetEnvoyProxy d (w_api w) req = Inr ep" and "proxy_snapshot d (w_api w) ep = Inr (version, snap)"
    and "SetSnapshot d (Cache (w_xds w)) (nodeID ep) snap = (Some err, cache')"
  shows "Reconcile d w req = (Some (Wrapped ''set snapshot: '' err),
    snd (setCondition d (w\<lparr>w_xds := (w_xds w)\<lparr>Cache := cache'\<rparr>\<rparr>) ep ConditionReady ConditionFalse
      ''SnapshotSetFailed'' (error_text err)))"
  using assms by (auto simp: Reconcile_def proxy_snapshot_def result_bind_Inr_iff Let_def split: prod.splits)

text \<open>The last part of a successful reconcile: two status updates.\<close>

definition report_success ::
  "('s, 'res, 'snap, 'cache) deps \<Rightarrow> ('s, 'cache) world \<Rightarrow> EnvoyProxy \<Rightarrow> string \<Rightarrow> ('s, 'cache) world" where
  "report_success d w ep version =
     (let (ep1, w1) = setCondition d w ep ConditionConnected
            (if IsConnected (w_xds w) (nodeID ep) then ConditionTrue else ConditionFalse) ''StreamStatus'' []
      in snd (setCondition d w1 ep1 ConditionReady ConditionTrue ''SnapshotReady'' (''version='' @ version)))"

lemma Reconcile_ok:
  assumes "GetEnvoyProxy d (w_api w) req = Inr ep" and "proxy_snapshot d (w_api w) ep = Inr (version, snap)"
    and "SetSnapshot d (Cache (w_xds w)) (nodeID ep) snap = (None, cache')"
  shows "Reconcile d w req = (None, report_success d (w\<lparr>w_xds := (w_xds w)\<lparr>Cache := cache'\<rparr>\<rparr>) ep version)"
  using assms
  by (auto simp: Reconcile_def proxy_snapshot_def report_success_def result_bind_Inr_iff Let_def split: prod.splits)

lemma report_success_xds [simp]: "w_xds (report_success d w ep v) = w_xds w"
  by (simp add: report_success_def split: prod.splits) (metis setCondition_xds snd_conv)

lemma report_success_updates:
  "w_updates (report_success d w ep v) = w_updates w @
     (let u1 = with_condition d ep ConditionConnected
            (if IsConnected (w_xds w) (nodeID ep) then ConditionTrue else ConditionFalse) ''StreamStatus'' [];
          ep1 = fst (snd (StatusUpdate d (w_api w) u1))
      in [u1, with_condition d ep1 ConditionReady ConditionTrue ''SnapshotReady'' (''version='' @ v)])"
  by (simp add: report_success_def split_def setCondition_update setCondition_proxy Let_def)

text \<open>Every reconcile is of one of these five kinds.\<close>

lemma Reconcile_cases:
  obtains (missing) err where "GetEnvoyProxy d (w_api w) req = Inl err"
  | (collect) ep err where "GetEnvoyProxy d (w_api w) req = Inr ep"
      "collectAll d (w_api w) (meta_Namespace (EnvoyProxy_ObjectMeta ep)) (meta_Name (EnvoyProxy_ObjectMeta ep)) = Inl err"
  | (build) ep ls cs rs srs es vers err where "GetEnvoyProxy d (w_api w) req = Inr ep"
      "collectAll d (w_api w) (meta_Namespace (EnvoyProxy_ObjectMeta ep)) (meta_Name (EnvoyProxy_ObjectMeta ep)) =
        Inr (ls, cs, rs, srs, es, vers)"
      "BuildSnapshot (UnmarshalResource d) (NewSnapshot d) (computeVersion vers) ls cs rs srs es = Inl err"
  | (set) ep version snap err cache' where "GetEnvoyProxy d (w_api w) req = Inr ep"
      "proxy_snapshot d (w_api w) ep = Inr (version, snap)"
      "SetSnapshot d (Cache (w_xds w)) (nodeID ep) snap = (Some err, cache')"
  | (ok) ep version snap cache' where "GetEnvoyProxy d (w_api w) req = Inr ep"
      "proxy_snapshot d (w_api w) ep = Inr (version, snap)"
      "SetSnapshot d (Cache (w_xds w)) (nodeID ep) snap = (None, cache')"
proof (cases "GetEnvoyProxy d (w_api w) req")
  case (Inl err)
  then show thesis by (rule missing)
next
  case (Inr ep)
  let ?col = "collectAll d (w_api w) (meta_Namespace (EnvoyProxy_ObjectMeta ep)) (meta_Name (EnvoyProxy_ObjectMeta ep))"
  show thesis
  proof (cases ?col)
    case (Inl err)
    with Inr show thesis by (intro collect)
  next
    case (Inr t)
    obtain ls cs rs srs es vers where t: "t = (ls, cs, rs, srs, es, vers)" by (cases t) auto
    let ?b = "BuildSnapshot (UnmarshalResource d) (NewSnapshot d) (computeVersion vers) ls cs rs srs es"
    show thesis
    proof (cases ?b)
      case (Inl err)
      with \<open>GetEnvoyProxy d (w_api w) req = Inr ep\<close> Inr t show thesis by (intro build) simp_all
    next
      case (Inr snap)
      with \<open>?col = Inr t\<close> t have ps: "proxy_snapshot d (w_api w) ep = Inr (computeVersion vers, snap)"
        by (simp add: proxy_snapshot_def)
      obtain serr cache' where "SetSnapshot d (Cache (w_xds w)) (nodeID ep) snap = (serr, cache')" by fastforce
      then show thesis
        using set [OF \<open>GetEnvoyProxy d (w_api w) req = Inr ep\<close> ps] ok [OF \<open>GetEnvoyProxy d (w_api w) req = Inr ep\<close> ps]
        by (cases serr) auto
    qed
  qed
qed

lemmas Reconcile_rules =
  Reconcile_missing Reconcile_collect_error Reconcile_build_error Reconcile_set_error Reconcile_ok

section \<open>Properties\<close>

text \<open>
  The effect of a reconcile on the xDS server, on every path: the table of connected proxies is never
  changed, and the snapshot cache changes only by one \<open>SetSnapshot\<close> of the snapshot of the
  requested proxy under its own node id. A missing proxy, a failed collection and a failed
  build leave the cache as it is.
\<close>

theorem Reconcile_cache:
  "w_xds (snd (Reconcile d w req)) =
     (case GetEnvoyProxy d (w_api w) req of
        Inl err \<Rightarrow> w_xds w
      | Inr ep \<Rightarrow>
          (case proxy_snapshot d (w_api w) ep of
             Inl err \<Rightarrow> w_xds w
           | Inr (version, snap) \<Rightarrow>
               (w_xds w)\<lparr>Cache := snd (SetSnapshot d (Cache (w_xds w)) (nodeID ep) snap)\<rparr>))"
proof (cases rule: Reconcile_cases [of d w req])
  case (build ep ls cs rs srs es vers err)
  then show ?thesis by (simp add: Reconcile_build_error proxy_snapshot_def)
qed (simp_all add: Reconcile_rules, simp_all add: proxy_snapshot_def)

text \<open>
  C13. A reconcile returns no error in exactly two situations: the proxy could not be read and the client
  tells it does not exist, or its snapshot was collected, built and accepted by the cache.
\<close>

theorem Reconcile_no_error_iff:
  "fst (Reconcile d w req) = None \<longleftrightarrow>
     (case GetEnvoyProxy d (w_api w) req of
        Inl err \<Rightarrow> IgnoreNotFound d err = None
      | Inr ep \<Rightarrow> (\<exists>version snap. proxy_snapshot d (w_api w) ep = Inr (version, snap) \<and>
          fst (SetSnapshot d (Cache (w_xds w)) (nodeID ep) snap) = None))"
proof (cases rule: Reconcile_cases [of d w req])
  case (build ep ls cs rs srs es vers err)
  then show ?thesis by (simp add: Reconcile_build_error proxy_snapshot_def)
qed (simp_all add: Reconcile_rules, simp_all add: proxy_snapshot_def)

text \<open>
  C14. The status updates of a reconcile: none if the proxy is missing or a collection fails; exactly one,
  \<open>Ready=False\<close> with the reason and the error text, if the snapshot cannot be built or
  stored; and on success two, first \<open>Connected\<close> with what the server reports of the node,
  then \<open>Ready=True\<close> with the version, each carrying the observed generation.
\<close>

theorem Reconcile_updates:
  "w_updates (snd (Reconcile d w req)) = w_updates w @
     (case GetEnvoyProxy d (w_api w) req of
        Inl err \<Rightarrow> []
      | Inr ep \<Rightarrow>
          (case collectAll d (w_api w) (meta_Namespace (EnvoyProxy_ObjectMeta ep)) (meta_Name (EnvoyProxy_ObjectMeta ep)) of
             Inl err \<Rightarrow> []
           | Inr (ls, cs, rs, srs, es, vers) \<Rightarrow>
               (case BuildSnapshot (UnmarshalResource d) (NewSnapshot d) (computeVersion vers) ls cs rs srs es of
                  Inl err \<Rightarrow> [with_condition d ep ConditionReady ConditionFalse ''SnapshotBuildFailed'' (error_text err)]
                | Inr snap \<Rightarrow>
                    (case fst (SetSnapshot d (Cache (w_xds w)) (nodeID ep) snap) of
                       Some err \<Rightarrow> [with_condition d ep ConditionReady ConditionFalse ''SnapshotSetFailed'' (error_text err)]
                     | None \<Rightarrow>
                         (let u1 = with_condition d ep ConditionConnected
                                (if IsConnected (w_xds w) (nodeID ep) then ConditionTrue else ConditionFalse) ''StreamStatus'' [];
                              ep1 = fst (snd (StatusUpdate d (w_api w) u1))
                          in [u1, with_condition d ep1 ConditionReady ConditionTrue ''SnapshotReady''
                                    (''version='' @ computeVersion vers)])))))"
proof (cases rule: Reconcile_cases [of d w req])
  case (set ep version snap err cache')
  then obtain ls cs rs srs es vers where
    "collectAll d (w_api w) (meta_Namespace (EnvoyProxy_ObjectMeta ep)) (meta_Name (EnvoyProxy_ObjectMeta ep)) =
       Inr (ls, cs, rs, srs, es, vers)"
    "BuildSnapshot (UnmarshalResource d) (NewSnapshot d) (computeVersion vers) ls cs rs srs es = Inr snap"
    by (auto simp: proxy_snapshot_def result_bind_Inr_iff)
  with set show ?thesis by (simp add: Reconcile_set_error setCondition_update)
next
  case (ok ep version snap cache')
  then obtain ls cs rs srs es vers where
    "collectAll d (w_api w) (meta_Namespace (EnvoyProxy_ObjectMeta ep)) (meta_Name (EnvoyProxy_ObjectMeta ep)) =
       Inr (ls, cs, rs, srs, es, vers)"
    "BuildSnapshot (UnmarshalResource d) (NewSnapshot d) (computeVersion vers) ls cs rs srs es = Inr snap"
    "version = computeVersion vers"
    by (auto simp: proxy_snapshot_def result_bind_Inr_iff)
  with ok show ?thesis
    by (simp add: Reconcile_ok report_success_updates) (simp add: IsConnected_def Let_def)
qed (simp_all add: Reconcile_rules setCondition_update)

text \<open>
  Node ids identify proxies: with namespaces that contain no dot (as Kubernetes requires of namespace
  names), two proxies with the same node id have the same name and namespace.
\<close>

theorem nodeID_injective:
  assumes "CHR ''.'' \<notin> set (meta_Namespace (EnvoyProxy_ObjectMeta ep))"
    and "CHR ''.'' \<notin> set (meta_Namespace (EnvoyProxy_ObjectMeta ep'))"
    and "nodeID ep = nodeID ep'"
  shows "meta_Name (EnvoyProxy_ObjectMeta ep) = meta_Name (EnvoyProxy_ObjectMeta ep') \<and>
    meta_Namespace (EnvoyProxy_ObjectMeta ep) = meta_Namespace (EnvoyProxy_ObjectMeta ep')"
  using append_sep_inj [OF assms(1,2)] assms(3) by (simp add: nodeID_def)

text \<open>Two proxies whose names contain dots, in different namespaces.\<close>

definition example_proxy :: "string \<Rightarrow> string \<Rightarrow> EnvoyProxy" where
  "example_proxy name ns =
     \<lparr>EnvoyProxy_ObjectMeta = \<lparr>meta_Name = name, meta_Namespace = ns, meta_ResourceVersion = ''5'',
        meta_Generation = 2, meta_Labels = []\<rparr>,
      EnvoyProxy_Spec = (), EnvoyProxy_Status = \<lparr>status_ObservedGeneration = 0, status_Conditions = []\<rparr>\<rparr>"

theorem nodeID_injective_witness:
  "nodeID (example_proxy ''edge.a'' ''b'') \<noteq> nodeID (example_proxy ''edge'' ''ab'')"
proof
  assume eq: "nodeID (example_proxy ''edge.a'' ''b'') = nodeID (example_proxy ''edge'' ''ab'')"
  have "meta_Namespace (EnvoyProxy_ObjectMeta (example_proxy ''edge.a'' ''b'')) =
      meta_Namespace (EnvoyProxy_ObjectMeta (example_proxy ''edge'' ''ab''))"
    using nodeID_injective [OF _ _ eq] by (simp add: example_proxy_def)
  then show False by (simp add: example_proxy_def)
qed

lemma computeVersion_concat:
  "computeVersion groups = take 16 (hex_EncodeToString (sha256 (concat (concat groups))))"
proof -
  have inner: "foldl (@) h vs = h @ concat vs" for h :: string and vs
    by (induction vs arbitrary: h) auto
  have "foldl (foldl (@)) h gs = h @ concat (concat gs)" for h :: string and gs
    by (induction gs arbitrary: h) (auto simp: inner)
  then show ?thesis by (simp add: computeVersion_def)
qed

text \<open>
  A version is always sixteen lower-case hexadecimal digits, a prefix of the SHA-256 digest of the
  resource versions written one after the other.
\<close>

theorem computeVersion_format:
  "length (computeVersion groups) = 16 \<and> set (computeVersion groups) \<subseteq> set ''0123456789abcdef'' \<and>
   computeVersion groups = take 16 (hex_EncodeToString (sha256 (concat (concat groups))))"
proof -
  let ?hex = "hex_EncodeToString (sha256 (concat (concat groups)))"
  have "set (sha256 (concat (concat groups))) \<subseteq> {0..<256}" using sha256_byte by blast
  then have "set ?hex \<subseteq> set hex_alphabet" by (rule hex_EncodeToString_alphabet)
  with set_take_subset [of 16 ?hex] have "set (take 16 ?hex) \<subseteq> set hex_alphabet" by (rule subset_trans)
  then show ?thesis by (simp only: computeVersion_concat hex_alphabet_def length_take length_hex length_sha256) simp
qed

text \<open>
  C23. The version does not determine the resource versions it is made from: they are hashed without a
  separator. Two resources with versions \<open>u\<close> and \<open>v\<close> give the same version as one resource
  with version \<open>u @ v\<close>, and a version string moved from the end of one kind to the start of
  the next changes nothing. So a configuration can change and keep its snapshot version.
\<close>

theorem computeVersion_ambiguous:
  "computeVersion (before @ (xs @ [u, v] @ ys) # after) = computeVersion (before @ (xs @ [u @ v] @ ys) # after) \<and>
   computeVersion (before @ (xs @ [v]) # ys # after) = computeVersion (before @ xs # (v # ys) # after)"
  by (simp add: computeVersion_concat)

text \<open>
  C17. Which endpoint assignments a proxy gets: the specs of the manual resources that target it, in order,
  followed by one synthesised assignment for each of its clusters that has a service
  reference, a name, and no manual resource whose spec \<open>ClusterName\<close> reads as that name; the
  resource versions are those of the manual resources and of the slices used. The first
  failing list or encoding aborts with its own error.
\<close>

theorem collectEndpoints_closed_form:
  "collectEndpoints d s ns name cs =
     result_bind (ListCLAs d s) (\<lambda>clas.
     (let manual = filter (\<lambda>i. target_key (ClusterLoadAssignment_TargetRef i)
            (meta_Namespace (ClusterLoadAssignment_ObjectMeta i)) = \<lparr>nn_Name = name, nn_Namespace = ns\<rparr>) clas;
          taken = (\<lambda>i. ClusterName (ClusterLoadAssignment_Spec i)) ` set manual in
      result_bind (synthesize_all d s (filter (eligible taken) cs)) (\<lambda>xs.
        Inr (map ClusterLoadAssignment_Spec manual @ map fst xs,
             map (\<lambda>i. meta_ResourceVersion (ClusterLoadAssignment_ObjectMeta i)) manual @ concat (map snd xs)))))"
  by (simp add: collectEndpoints_eq manual_names_def manual_items_def targetMatches_key Let_def)

text \<open>
  C18. Manual \<open>ClusterLoadAssignment\<close> resources do not take precedence over synthesis: their specs name the
  cluster in \<open>cluster_name\<close>, but the name is read from a member called \<open>name\<close>. If no manual
  spec of the proxy has such a member, the synthesised assignments are the same as if
  there were no manual resource at all, so a cluster can be given both.
\<close>

theorem collectEndpoints_manual_not_preferred:
  assumes "ListCLAs d s = Inr clas"
    and "\<forall>i \<in> set (manual_items ns name clas). \<exists>kvs.
      json_decode (ClusterLoadAssignment_Spec i) = Some (JObj kvs) \<and> (\<forall>kv \<in> set kvs. \<not> key_matches ''name'' (fst kv))"
  shows "collectEndpoints d s ns name cs =
    result_bind (synthesize_all d s (filter (eligible {}) cs)) (\<lambda>xs.
      Inr (map ClusterLoadAssignment_Spec (manual_items ns name clas) @ map fst xs,
           map (\<lambda>i. meta_ResourceVersion (ClusterLoadAssignment_ObjectMeta i)) (manual_items ns name clas) @
             concat (map snd xs)))"
proof -
  have "ClusterName (ClusterLoadAssignment_Spec i) = []" if "i \<in> set (manual_items ns name clas)" for i
    using assms(2) that by (blast intro: ClusterName_no_name)
  then have "manual_names ns name clas \<subseteq> {[]}" by (auto simp: manual_names_def)
  then have "eligible (manual_names ns name clas) = eligible {}"
    by (auto simp: fun_eq_iff eligible_def)
  with assms(1) show ?thesis by (simp add: collectEndpoints_eq)
qed

text \<open>
  An environment for the witnesses; its API state is the list of listeners: one proxy, one cluster with a service
  reference, one manual assignment for that cluster, one slice.
\<close>

definition quoted :: "string \<Rightarrow> string" where
  "quoted s = [CHR 0x22] @ s @ [CHR 0x22]"

definition example_meta :: "string \<Rightarrow> string \<Rightarrow> ObjectMeta" where
  "example_meta name rv = \<lparr>meta_Name = name, meta_Namespace = ''default'', meta_ResourceVersion = rv,
     meta_Generation = 1, meta_Labels = []\<rparr>"

definition example_target :: TargetRef where
  "example_target = \<lparr>TargetRef_Name = ''edge'', TargetRef_Namespace = []\<rparr>"

definition example_cluster :: Cluster where
  "example_cluster = \<lparr>Cluster_ObjectMeta = example_meta ''c'' ''11'', Cluster_TargetRef = example_target,
     Cluster_KubernetesServiceRef = Some \<lparr>ServiceRef_Name = ''svc'', ServiceRef_Namespace = [], ServiceRef_Port = Some 9090\<rparr>,
     Cluster_Spec = ''{'' @ quoted ''name'' @ '':'' @ quoted ''svc-alpha'' @ ''}''\<rparr>"

definition example_cla :: ClusterLoadAssignment where
  "example_cla = \<lparr>ClusterLoadAssignment_ObjectMeta = example_meta ''m'' ''12'',
     ClusterLoadAssignment_TargetRef = example_target,
     ClusterLoadAssignment_Spec = ''{'' @ quoted ''cluster_name'' @ '':'' @ quoted ''svc-alpha'' @ ''}''\<rparr>"

definition example_listener :: Listener where
  "example_listener = \<lparr>Listener_ObjectMeta = example_meta ''l'' ''10'', Listener_TargetRef = example_target,
     Listener_Spec = ''{}''\<rparr>"

definition replace_condition :: "Condition list \<Rightarrow> Condition \<Rightarrow> Condition list" where
  "replace_condition cs c = filter (\<lambda>x. cond_Type x \<noteq> cond_Type c) cs @ [c]"

type_synonym example_snapshot = "string \<times> (ResourceType, bytes list) gomap"

definition example_deps :: "(Listener list, bytes, example_snapshot, (string, example_snapshot) gomap) deps" where
  "example_deps = \<lparr>
     GetEnvoyProxy = (\<lambda>s req. if req = \<lparr>nn_Name = ''edge'', nn_Namespace = ''default''\<rparr>
       then Inr (example_proxy ''edge'' ''default'') else Inl (GoError ''not found'')),
     IgnoreNotFound = (\<lambda>err. if err = GoError ''not found'' then None else Some err),
     ListListeners = (\<lambda>s. Inr s),
     ListClusters = (\<lambda>s. Inr [example_cluster]),
     ListRoutes = (\<lambda>s. Inr []),
     ListScopedRoutes = (\<lambda>s. Inr []),
     ListCLAs = (\<lambda>s. Inr [example_cla]),
     ListEndpointSlices = (\<lambda>s ns labels.
       Inr (if ns = ''default'' \<and> labels = [(''kubernetes.io/service-name'', ''svc'')] then [example_slice] else [])),
     MarshalCLA = (\<lambda>cla. Inr (''{'' @ quoted ''clusterName'' @ '':'' @ quoted (cla_ClusterName cla) @ ''}'')),
     UnmarshalResource = (\<lambda>opts t raw. Inr raw),
     NewSnapshot = (\<lambda>v m. Inr (v, m)),
     SetSnapshot = (\<lambda>c n snap. (None, gomap_set n snap c)),
     SetStatusCondition = replace_condition,
     StatusUpdate = (\<lambda>s ep. (None, ep, s))\<rparr>"

lemma example_cluster_name: "ClusterName (Cluster_Spec example_cluster) = ''svc-alpha''"
  by code_simp

lemma example_cla_decodes:
  "json_decode (ClusterLoadAssignment_Spec example_cla) = Some (JObj [(''cluster_name'', JStr ''svc-alpha'')])"
  by code_simp

lemma example_cla_no_name: "\<not> key_matches ''name'' ''cluster_name''"
  by code_simp

lemma example_manual: "manual_items ''default'' ''edge'' [example_cla] = [example_cla]"
  by (simp add: manual_items_def targetMatches_def example_cla_def example_meta_def example_target_def)

lemma example_eligible: "filter (eligible {}) [example_cluster] = [example_cluster]"
  by (simp add: eligible_def example_cluster_name) (simp add: example_cluster_def)

lemma example_synthesized:
  "synthesize_all example_deps [example_listener] [example_cluster] =
     Inr [(''{'' @ quoted ''clusterName'' @ '':'' @ quoted ''svc-alpha'' @ ''}'', [''7''])]"
proof -
  have ref: "Cluster_KubernetesServiceRef example_cluster =
      Some \<lparr>ServiceRef_Name = ''svc'', ServiceRef_Namespace = [], ServiceRef_Port = Some 9090\<rparr>"
    and ns: "meta_Namespace (Cluster_ObjectMeta example_cluster) = ''default''"
    by (simp_all add: example_cluster_def example_meta_def)
  have slices: "ListEndpointSlices example_deps [example_listener] ''default'' [(''kubernetes.io/service-name'', ''svc'')] = Inr [example_slice]"
    and marshal: "MarshalCLA example_deps cla = Inr (''{'' @ quoted ''clusterName'' @ '':'' @ quoted (cla_ClusterName cla) @ ''}'')"
    for cla by (simp_all add: example_deps_def)
  have version: "meta_ResourceVersion (slice_ObjectMeta example_slice) = ''7''"
    by (simp add: example_slice_def)
  have name: "cla_ClusterName (SynthesizeCLA n sls p) = n" for n sls p
    by (simp add: SynthesizeCLA_def Let_def)
  show ?thesis
    by (simp add: synthesize_def cluster_slices_def serviceNamespace_def ref ns slices marshal version name
        example_cluster_name)
qed

text \<open>The cluster \<open>svc-alpha\<close> gets its manual assignment and a synthesised one.\<close>

theorem collectEndpoints_manual_not_preferred_witness:
  "collectEndpoints example_deps [example_listener] ''default'' ''edge'' [example_cluster] =
     Inr ([''{'' @ quoted ''cluster_name'' @ '':'' @ quoted ''svc-alpha'' @ ''}'',
           ''{'' @ quoted ''clusterName'' @ '':'' @ quoted ''svc-alpha'' @ ''}''], [''12'', ''7''])"
proof -
  have l: "ListCLAs example_deps [example_listener] = Inr [example_cla]" by (simp add: example_deps_def)
  have n: "\<forall>i \<in> set (manual_items ''default'' ''edge'' [example_cla]). \<exists>kvs.
      json_decode (ClusterLoadAssignment_Spec i) = Some (JObj kvs) \<and> (\<forall>kv \<in> set kvs. \<not> key_matches ''name'' (fst kv))"
    by (simp add: example_manual example_cla_decodes example_cla_no_name)
  show ?thesis
    using collectEndpoints_manual_not_preferred [OF l n, of "[example_cluster]"]
    by (simp only: example_manual example_eligible example_synthesized)
      (simp add: example_cla_def example_meta_def)
qed

text \<open>
  An event on a resource enqueues exactly the proxy that \<open>Reconcile\<close> would collect the resource for:
  a request is made if and only if the object has a target reference and \<open>targetMatches\<close>
  accepts it for the proxy of the request. The default namespace is the same in both.
\<close>

lemma mapXDSResourceToProxy_exact:
  "r \<in> set (mapXDSResourceToProxy obj) \<longleftrightarrow>
     (\<exists>ref. as_targetReffer obj = Some ref \<and> targetMatches ref (GetNamespace obj) (nn_Namespace r) (nn_Name r))"
  by (cases "as_targetReffer obj") (auto simp: mapXDSResourceToProxy_key targetMatches_request)

text \<open>
  C19. An event on an endpoint slice enqueues, each once, exactly the proxies targeted by some cluster whose
  service reference resolves to the service and namespace of the slice; none if the slice has
  no service label or the clusters cannot be listed.
\<close>

theorem mapEndpointSliceToProxies_exact:
  "distinct (mapEndpointSliceToProxies d s obj) \<and>
   (r \<in> set (mapEndpointSliceToProxies d s obj) \<longleftrightarrow>
     (\<exists>svcName clusters c ref. gomap_get (GetLabels obj) ''kubernetes.io/service-name'' = Some svcName \<and>
        ListClusters d s = Inr clusters \<and> c \<in> set clusters \<and>
        Cluster_KubernetesServiceRef c = Some ref \<and> ServiceRef_Name ref = svcName \<and>
        serviceNamespace c ref = GetNamespace obj \<and>
        targetMatches (Cluster_TargetRef c) (meta_Namespace (Cluster_ObjectMeta c)) (nn_Namespace r) (nn_Name r)))"
proof
  show "distinct (mapEndpointSliceToProxies d s obj)"
    by (simp add: mapEndpointSliceToProxies_dedup dedup_loop_result split: option.splits sum.splits)
qed (fastforce simp: mapEndpointSliceToProxies_request slice_request_Some targetMatches_request)

text \<open>
  C16. What a reconcile collects: of each kind the specs of exactly the items whose target is the proxy, in
  list order, the endpoints made from exactly the clusters that are collected, and the
  resource versions of all of these, kind by kind in the order they are hashed.
\<close>

theorem collectAll_exact:
  assumes "ListListeners d s = Inr ls" and "ListClusters d s = Inr cs"
    and "ListRoutes d s = Inr rs" and "ListScopedRoutes d s = Inr srs"
    and "key = \<lparr>nn_Name = name, nn_Namespace = ns\<rparr>"
    and "ls' = filter (\<lambda>i. target_key (Listener_TargetRef i) (meta_Namespace (Listener_ObjectMeta i)) = key) ls"
    and "cs' = filter (\<lambda>i. target_key (Cluster_TargetRef i) (meta_Namespace (Cluster_ObjectMeta i)) = key) cs"
    and "rs' = filter (\<lambda>i. target_key (RouteConfiguration_TargetRef i)
      (meta_Namespace (RouteConfiguration_ObjectMeta i)) = key) rs"
    and "srs' = filter (\<lambda>i. target_key (ScopedRouteConfiguration_TargetRef i)
      (meta_Namespace (ScopedRouteConfiguration_ObjectMeta i)) = key) srs"
    and "collectEndpoints d s ns name cs' = Inr (es, eVers)"
  shows "collectAll d s ns name = Inr
    (map Listener_Spec ls', map Cluster_Spec cs', map RouteConfiguration_Spec rs', map ScopedRouteConfiguration_Spec srs', es,
     [map (meta_ResourceVersion \<circ> Listener_ObjectMeta) ls', map (meta_ResourceVersion \<circ> Cluster_ObjectMeta) cs',
      map (meta_ResourceVersion \<circ> RouteConfiguration_ObjectMeta) rs',
      map (meta_ResourceVersion \<circ> ScopedRouteConfiguration_ObjectMeta) srs', eVers])"
  using assms by (simp add: collectAll_def collectListeners_def collectClusters_def collectRoutes_def
      collectScopedRoutes_def lst.collect_all rts.collect_all srs.collect_all collectClusters_items_eq
      targetMatches_key Let_def comp_def)

lemma example_endpoints:
  "collectEndpoints example_deps [example_listener] ''default'' ''edge'' [example_cluster] =
     Inr ([''{'' @ quoted ''cluster_name'' @ '':'' @ quoted ''svc-alpha'' @ ''}'',
           ''{'' @ quoted ''clusterName'' @ '':'' @ quoted ''svc-alpha'' @ ''}''], [''12'', ''7''])"
  by code_simp

theorem collectAll_exact_witness:
  "collectAll example_deps [example_listener] ''default'' ''edge'' = Inr ([''{}''], [Cluster_Spec example_cluster], [], [],
     [''{'' @ quoted ''cluster_name'' @ '':'' @ quoted ''svc-alpha'' @ ''}'',
      ''{'' @ quoted ''clusterName'' @ '':'' @ quoted ''svc-alpha'' @ ''}''],
     [[''10''], [''11''], [], [], [''12'', ''7'']])"
proof -
  let ?key = "\<lparr>nn_Name = ''edge'', nn_Namespace = ''default''\<rparr>"
  have lists: "ListListeners example_deps [example_listener] = Inr [example_listener]" "ListClusters example_deps [example_listener] = Inr [example_cluster]"
    "ListRoutes example_deps [example_listener] = Inr []" "ListScopedRoutes example_deps [example_listener] = Inr []"
    by (simp_all add: example_deps_def)
  have ls: "[example_listener] =
      filter (\<lambda>i. target_key (Listener_TargetRef i) (meta_Namespace (Listener_ObjectMeta i)) = ?key) [example_listener]"
    by (simp add: target_key_def example_listener_def example_target_def example_meta_def)
  have cs: "[example_cluster] =
      filter (\<lambda>i. target_key (Cluster_TargetRef i) (meta_Namespace (Cluster_ObjectMeta i)) = ?key) [example_cluster]"
    by (simp add: target_key_def example_cluster_def example_target_def example_meta_def)
  have "map Listener_Spec [example_listener] = [''{}'']"
    "map (meta_ResourceVersion \<circ> Listener_ObjectMeta) [example_listener] = [''10'']"
    "map (meta_ResourceVersion \<circ> Cluster_ObjectMeta) [example_cluster] = [''11'']"
    by (simp_all add: example_listener_def example_cluster_def example_meta_def)
  with collectAll_exact [OF lists refl ls cs _ _ example_endpoints] show ?thesis
    by simp
qed

end
