(* ===== verification/Control_Plane.thy ===== *)
theory Control_Plane
  imports Reconciler
begin

text \<open>
  The control plane as a whole, one reconcile after the other: the events that enqueue no
  request of a proxy do not matter to it, reconciles of different proxies do not interfere,
  the cache holds nothing but snapshots of API states that were read, a queue of requests
  that is worked off leaves the cache up to date, and what a reconcile reports last.

  The promises of the Kubernetes client and of the snapshot cache that these results need
  are the named hypotheses \<open>object_removed\<close>, \<open>cache_laws\<close>, \<open>get_law\<close>, \<open>status_law\<close> and \<open>condition_law\<close>.
\<close>

section \<open>No change of configuration is missed\<close>

text \<open>The item of one kind that an object is.\<close>

definition as_Listener :: "client_object \<Rightarrow> Listener option" where
  "as_Listener obj = (case obj of ObjListener i \<Rightarrow> Some i | _ \<Rightarrow> None)"

definition as_Cluster :: "client_object \<Rightarrow> Cluster option" where
  "as_Cluster obj = (case obj of ObjCluster i \<Rightarrow> Some i | _ \<Rightarrow> None)"

definition as_RouteConfiguration :: "client_object \<Rightarrow> RouteConfiguration option" where
  "as_RouteConfiguration obj = (case obj of ObjRouteConfiguration i \<Rightarrow> Some i | _ \<Rightarrow> None)"

definition as_ScopedRouteConfiguration :: "client_object \<Rightarrow> ScopedRouteConfiguration option" where
  "as_ScopedRouteConfiguration obj = (case obj of ObjScopedRouteConfiguration i \<Rightarrow> Some i | _ \<Rightarrow> None)"

definition as_ClusterLoadAssignment :: "client_object \<Rightarrow> ClusterLoadAssignment option" where
  "as_ClusterLoadAssignment obj = (case obj of ObjClusterLoadAssignment i \<Rightarrow> Some i | _ \<Rightarrow> None)"

lemma as_kind_Some:
  "as_Listener obj = Some iL8 \<longleftrightarrow> obj = ObjListener iL8"
  "as_Cluster obj = Some iC7 \<longleftrightarrow> obj = ObjCluster iC7"
  "as_RouteConfiguration obj = Some iR18 \<longleftrightarrow> obj = ObjRouteConfiguration iR18"
  "as_ScopedRouteConfiguration obj = Some iS24 \<longleftrightarrow> obj = ObjScopedRouteConfiguration iS24"
  "as_ClusterLoadAssignment obj = Some iC21 \<longleftrightarrow> obj = ObjClusterLoadAssignment iC21"
  by (auto simp: as_Listener_def as_Cluster_def as_RouteConfiguration_def as_ScopedRouteConfiguration_def as_ClusterLoadAssignment_def split: client_object.splits)

text \<open>
  An API state \<open>s\<close> and the one with one object less, \<open>s'\<close>, as the client shows them: the list of
  the object's kind has lost it, the other lists are the same. For an endpoint slice this
  is what a list by namespace and label promises: only the list of the slice's own
  namespace and service label may differ.
\<close>

definition listed_for :: "client_object \<Rightarrow> string \<Rightarrow> string \<Rightarrow> bool" where
  "listed_for obj ns svcName = (case obj of
     ObjEndpointSlice sl \<Rightarrow> meta_Namespace (slice_ObjectMeta sl) = ns \<and>
       gomap_get (meta_Labels (slice_ObjectMeta sl)) ''kubernetes.io/service-name'' = Some svcName
   | _ \<Rightarrow> False)"

definition object_removed ::
  "('s, 'res, 'snap, 'cache) deps \<Rightarrow> client_object \<Rightarrow> 's \<Rightarrow> 's \<Rightarrow> bool" where
  "object_removed d obj s s' \<longleftrightarrow>
     list_without (as_Listener obj) (ListListeners d s) (ListListeners d s') \<and>
     list_without (as_Cluster obj) (ListClusters d s) (ListClusters d s') \<and>
     list_without (as_RouteConfiguration obj) (ListRoutes d s) (ListRoutes d s') \<and>
     list_without (as_ScopedRouteConfiguration obj) (ListScopedRoutes d s) (ListScopedRoutes d s') \<and>
     list_without (as_ClusterLoadAssignment obj) (ListCLAs d s) (ListCLAs d s') \<and>
     (\<forall>ns svcName. \<not> listed_for obj ns svcName \<longrightarrow>
        ListEndpointSlices d s' ns [(''kubernetes.io/service-name'', svcName)] =
        ListEndpointSlices d s ns [(''kubernetes.io/service-name'', svcName)])"

lemma unrequested_target:
  assumes "as_targetReffer obj = Some ref" and "r \<notin> set (watchRequests d s obj)"
  shows "target_key ref (GetNamespace obj) \<noteq> r"
  using assms by (cases obj) (auto simp: watchRequests_def mapXDSResourceToProxy_key)

lemma unrequested_slice:
  assumes "r \<notin> set (watchRequests d s obj)"
    and "ListClusters d s = Inr items" and "c \<in> set items"
    and "target_key (Cluster_TargetRef c) (meta_Namespace (Cluster_ObjectMeta c)) = r"
    and "Cluster_KubernetesServiceRef c = Some ref"
  shows "\<not> listed_for obj (serviceNamespace c ref) (ServiceRef_Name ref)"
proof
  assume "listed_for obj (serviceNamespace c ref) (ServiceRef_Name ref)"
  then obtain sl where sl: "obj = ObjEndpointSlice sl"
      "GetLabels obj = meta_Labels (slice_ObjectMeta sl)" "GetNamespace obj = serviceNamespace c ref"
      "gomap_get (GetLabels obj) ''kubernetes.io/service-name'' = Some (ServiceRef_Name ref)"
    by (auto simp: listed_for_def GetLabels_def GetNamespace_def split: client_object.splits)
  with assms have "slice_request (ServiceRef_Name ref) (GetNamespace obj) c = Some r"
    by (simp add: slice_request_Some)
  with assms(2,3) sl(4) have "r \<in> set (mapEndpointSliceToProxies d s obj)"
    by (auto simp: mapEndpointSliceToProxies_request)
  with assms(1) sl(1) show False by (simp add: watchRequests_def)
qed

lemma unrequested_slices:
  assumes "object_removed d obj s s'" and "r \<notin> set (watchRequests d s obj)"
    and "ListClusters d s = Inr items" and "c \<in> set items"
    and "target_key (Cluster_TargetRef c) (meta_Namespace (Cluster_ObjectMeta c)) = r"
    and "Cluster_KubernetesServiceRef c = Some ref"
  shows "cluster_slices d s c ref = cluster_slices d s' c ref"
  using assms(1) unrequested_slice [OF assms(2-)] by (simp add: object_removed_def cluster_slices_def)

text \<open>
  What a reconcile of one proxy sees of an API state: everything it collects of each kind, the
  manual assignments among them, and the slices it reads for its clusters.
\<close>

definition same_view ::
  "('s, 'res, 'snap, 'cache) deps \<Rightarrow> string \<Rightarrow> string \<Rightarrow> 's \<Rightarrow> 's \<Rightarrow> bool" where
  "same_view d ns name s s' \<longleftrightarrow>
     collectListeners d s ns name = collectListeners d s' ns name \<and>
     collectClusters d s ns name = collectClusters d s' ns name \<and>
     collectRoutes d s ns name = collectRoutes d s' ns name \<and>
     collectScopedRoutes d s ns name = collectScopedRoutes d s' ns name \<and>
     result_bind (ListCLAs d s) (\<lambda>clas. Inr (manual_items ns name clas)) =
       result_bind (ListCLAs d s') (\<lambda>clas. Inr (manual_items ns name clas)) \<and>
     (\<forall>specs vers cs. collectClusters d s ns name = Inr (specs, vers, cs) \<longrightarrow>
        (\<forall>c \<in> set cs. \<forall>ref. Cluster_KubernetesServiceRef c = Some ref \<longrightarrow> cluster_slices d s c ref = cluster_slices d s' c ref))"

lemma same_view_refl [simp]: "same_view d ns name s s"
  by (simp add: same_view_def)

lemma same_view_sym: "same_view d ns name s s' \<Longrightarrow> same_view d ns name s' s"
  by (simp add: same_view_def)

lemma same_view_trans: "same_view d ns name s t \<Longrightarrow> same_view d ns name t u \<Longrightarrow> same_view d ns name s u"
  by (simp add: same_view_def)

lemma same_view_endpoints:
  assumes "same_view d ns name s s'" and "collectClusters d s ns name = Inr (specs, vers, cs)"
  shows "collectEndpoints d s ns name cs = collectEndpoints d s' ns name cs"
proof -
  have syn: "synthesize_all d s (filter p cs) = synthesize_all d s' (filter p cs)" for p
    using assms by (intro synthesize_all_cong) (auto simp: same_view_def)
  from assms(1) have "result_bind (ListCLAs d s) (\<lambda>clas. Inr (manual_items ns name clas)) =
      result_bind (ListCLAs d s') (\<lambda>clas. Inr (manual_items ns name clas))"
    by (simp add: same_view_def)
  then show ?thesis
    by (cases "ListCLAs d s"; cases "ListCLAs d s'") (simp_all add: collectEndpoints_eq manual_names_def syn)
qed

lemma same_view_collectAll:
  assumes "same_view d ns name s s'"
  shows "collectAll d s ns name = collectAll d s' ns name"
proof -
  have "collectEndpoints d s ns name cs = collectEndpoints d s' ns name cs"
    if "collectClusters d s' ns name = Inr (specs, vers, cs)" for specs vers cs
    using assms that by (intro same_view_endpoints) (auto simp: same_view_def)
  with assms show ?thesis
    by (cases "collectClusters d s' ns name") (auto simp: collectAll_def same_view_def)
qed

lemma unrequested_same_view:
  assumes "object_removed d obj s s'"
    and "\<lparr>nn_Name = name, nn_Namespace = ns\<rparr> \<notin> set (watchRequests d s obj)"
  shows "same_view d ns name s s'"
  unfolding same_view_def
proof (intro conjI allI ballI impI)
  let ?key = "\<lparr>nn_Name = name, nn_Namespace = ns\<rparr>"
  note key = unrequested_target [OF _ assms(2), unfolded GetNamespace_def]
  show "collectListeners d s ns name = collectListeners d s' ns name"
    unfolding collectListeners_def using assms(1) key
    by (intro lst.collect_without [where x = "as_Listener obj"]) (auto simp: object_removed_def GetTargetRef_defs as_kind_Some)
  show "collectRoutes d s ns name = collectRoutes d s' ns name"
    unfolding collectRoutes_def using assms(1) key
    by (intro rts.collect_without [where x = "as_RouteConfiguration obj"]) (auto simp: object_removed_def GetTargetRef_defs as_kind_Some)
  show "collectScopedRoutes d s ns name = collectScopedRoutes d s' ns name"
    unfolding collectScopedRoutes_def using assms(1) key
    by (intro srs.collect_without [where x = "as_ScopedRouteConfiguration obj"]) (auto simp: object_removed_def GetTargetRef_defs as_kind_Some)
  show "collectClusters d s ns name = collectClusters d s' ns name"
    using assms(1) key
    by (intro collectClusters_without [where x = "as_Cluster obj"]) (auto simp: object_removed_def GetTargetRef_defs as_kind_Some)
  show "result_bind (ListCLAs d s) (\<lambda>clas. Inr (manual_items ns name clas)) =
      result_bind (ListCLAs d s') (\<lambda>clas. Inr (manual_items ns name clas))"
    using assms(1) key
    by (intro manual_items_without [where x = "as_ClusterLoadAssignment obj"]) (auto simp: object_removed_def GetTargetRef_defs as_kind_Some)
next
  fix specs vers cs c ref
  assume "collectClusters d s ns name = Inr (specs, vers, cs)" "c \<in> set cs" and ref: "Cluster_KubernetesServiceRef c = Some ref"
  then obtain items where "ListClusters d s = Inr items" "c \<in> set items"
    "target_key (Cluster_TargetRef c) (meta_Namespace (Cluster_ObjectMeta c)) = \<lparr>nn_Name = name, nn_Namespace = ns\<rparr>"
    by (elim collectClusters_targets) auto
  with assms ref show "cluster_slices d s c ref = cluster_slices d s' c ref"
    by (intro unrequested_slices)
qed

text \<open>
  C8. No change is missed by the watches: if the event on an object does not enqueue a proxy, then what a
  reconcile of that proxy collects (all specs, all resource versions, or its error) is the
  same with and without the object. This holds for every kind of object that is watched.
\<close>

theorem unrequested_change_irrelevant:
  assumes "object_removed d obj s s'"
    and "\<lparr>nn_Name = name, nn_Namespace = ns\<rparr> \<notin> set (watchRequests d s obj)"
  shows "collectAll d s ns name = collectAll d s' ns name"
  by (rule same_view_collectAll [OF unrequested_same_view [OF assms]])

definition example_other_listener :: Listener where
  "example_other_listener = \<lparr>Listener_ObjectMeta = example_meta ''o'' ''13'',
     Listener_TargetRef = \<lparr>TargetRef_Name = ''edge'', TargetRef_Namespace = ''prod''\<rparr>, Listener_Spec = ''{}''\<rparr>"

text \<open>A listener for the proxy of the same name in another namespace.\<close>

theorem unrequested_change_irrelevant_witness:
  "collectAll example_deps [example_other_listener, example_listener] ''default'' ''edge'' =
   collectAll example_deps [example_listener] ''default'' ''edge''"
proof (rule unrequested_change_irrelevant)
  have "list_without (as_Listener (ObjListener example_other_listener))
      (Inr [example_other_listener, example_listener]) (Inr [example_listener])"
    by (simp add: as_Listener_def list_without_def) (metis append_Nil)
  then show "object_removed example_deps (ObjListener example_other_listener)
      [example_other_listener, example_listener] [example_listener]"
    by (simp add: object_removed_def example_deps_def list_without_def as_Cluster_def as_RouteConfiguration_def
        as_ScopedRouteConfiguration_def as_ClusterLoadAssignment_def)
  show "\<lparr>nn_Name = ''edge'', nn_Namespace = ''default''\<rparr> \<notin>
      set (watchRequests example_deps [example_other_listener, example_listener] (ObjListener example_other_listener))"
    by (simp add: watchRequests_def mapXDSResourceToProxy_def Listener_GetTargetRef_def example_other_listener_def)
qed

section \<open>The snapshot cache over time\<close>

text \<open>
  What the control plane relies on in the snapshot cache of \<open>go-control-plane\<close>, seen through a
  lookup \<open>get\<close> by node id: a \<open>SetSnapshot\<close> touches the entry of its node only, the entry is
  then the old one or the new snapshot, and if no error is returned it is the new one.
\<close>

definition cache_laws :: "('s, 'res, 'snap, 'cache) deps \<Rightarrow> ('cache \<Rightarrow> string \<Rightarrow> 'snap option) \<Rightarrow> bool" where
  "cache_laws d get \<longleftrightarrow> (\<forall>c n snap m.
     (m \<noteq> n \<longrightarrow> get (snd (SetSnapshot d c n snap)) m = get c m) \<and>
     get (snd (SetSnapshot d c n snap)) n \<in> {get c n, Some snap} \<and>
     (fst (SetSnapshot d c n snap) = None \<longrightarrow> get (snd (SetSnapshot d c n snap)) n = Some snap))"

lemma cache_laws_entry:
  assumes "cache_laws d get" and "get (snd (SetSnapshot d c n snap)) m = Some x"
  shows "get c m = Some x \<or> m = n \<and> x = snap"
proof (cases "m = n")
  case True
  from assms(1) have "get (snd (SetSnapshot d c n snap)) n \<in> {get c n, Some snap}"
    unfolding cache_laws_def by blast
  with True assms(2) show ?thesis by auto
next
  case False
  with assms show ?thesis unfolding cache_laws_def by simp
qed

text \<open>The proxy a get returns has the requested name and namespace.\<close>

definition get_law :: "('s, 'res, 'snap, 'cache) deps \<Rightarrow> bool" where
  "get_law d \<longleftrightarrow> (\<forall>s req ep. GetEnvoyProxy d s req = Inr ep \<longrightarrow>
     meta_Name (EnvoyProxy_ObjectMeta ep) = nn_Name req \<and> meta_Namespace (EnvoyProxy_ObjectMeta ep) = nn_Namespace req)"

definition node_of :: "NamespacedName \<Rightarrow> string" where
  "node_of r = nn_Name r @ ''.'' @ nn_Namespace r"

lemma node_of_inj:
  assumes "CHR ''.'' \<notin> set (nn_Namespace r)" and "CHR ''.'' \<notin> set (nn_Namespace r')"
  shows "node_of r = node_of r' \<longleftrightarrow> r = r'"
  using append_sep_inj [OF assms] by (auto simp: node_of_def)

lemma nodeID_node_of: "get_law d \<Longrightarrow> GetEnvoyProxy d s req = Inr ep \<Longrightarrow> nodeID ep = node_of req"
  by (simp add: get_law_def nodeID_def node_of_def)

text \<open>The cache after a reconcile, entry by entry.\<close>

lemma Reconcile_cache_cases:
  obtains (same) "Cache (w_xds (snd (Reconcile d w req))) = Cache (w_xds w)"
  | (set) ep version snap where "GetEnvoyProxy d (w_api w) req = Inr ep"
      "proxy_snapshot d (w_api w) ep = Inr (version, snap)"
      "Cache (w_xds (snd (Reconcile d w req))) = snd (SetSnapshot d (Cache (w_xds w)) (nodeID ep) snap)"
proof (cases rule: Reconcile_cases [of d w req])
  case set: (set ep version snap err cache')
  then show thesis using that(2) [of ep version snap] by (simp add: Reconcile_set_error)
next
  case ok: (ok ep version snap cache')
  then show thesis using that(2) [of ep version snap] by (simp add: Reconcile_ok)
qed (use that(1) in \<open>simp_all add: Reconcile_rules\<close>)

text \<open>
  Reconciles of different proxies do not interfere: a reconcile leaves the cache entry of every other
  proxy as it is, whatever its outcome, when namespaces contain no dots.
\<close>

theorem Reconcile_isolated:
  assumes "cache_laws d get" and "get_law d" and "other \<noteq> req"
    and "CHR ''.'' \<notin> set (nn_Namespace req)" and "CHR ''.'' \<notin> set (nn_Namespace other)"
  shows "get (Cache (w_xds (snd (Reconcile d w req)))) (node_of other) = get (Cache (w_xds w)) (node_of other)"
proof (cases rule: Reconcile_cache_cases [of d w req])
  case (set ep version snap)
  from assms(2) set(1) have "nodeID ep = node_of req" by (rule nodeID_node_of)
  with assms(3-5) have "nodeID ep \<noteq> node_of other" by (simp add: node_of_inj)
  with assms(1) set(3) show ?thesis by (simp add: cache_laws_def)
qed simp

text \<open>
  The life of the control plane: reconciles, stream callbacks and changes of the API state in
  any order, with the API states that reconciles have read.
\<close>

inductive cp_run ::
  "('s, 'res, 'snap, 'cache) deps \<Rightarrow> ('s, 'cache) world \<Rightarrow> 's list \<Rightarrow> ('s, 'cache) world \<Rightarrow> bool"
  for d :: "('s, 'res, 'snap, 'cache) deps" and w0 :: "('s, 'cache) world" where
  cp_start: "cp_run d w0 [] w0"
| cp_reconcile: "cp_run d w0 h w \<Longrightarrow> cp_run d w0 (h @ [w_api w]) (snd (Reconcile d w req))"
| cp_stream: "cp_run d w0 h w \<Longrightarrow> cp_run d w0 h (w\<lparr>w_xds := handle_event ev (w_xds w)\<rparr>)"
| cp_api: "cp_run d w0 h w \<Longrightarrow> cp_run d w0 h (w\<lparr>w_api := s\<rparr>)"

lemma handle_event_Cache [simp]: "Cache (handle_event ev srv) = Cache srv"
  by (cases ev) (auto simp: StreamRequestFunc_def StreamClosedFunc_def split: option.splits prod.splits)

text \<open>
  Nothing else gets into the cache: in every run from an empty cache, whatever the order of reconciles,
  stream callbacks and API changes, a snapshot found under a node id is the snapshot of a
  proxy with that node id, collected and built from one of the API states that were read.
\<close>

theorem cache_provenance:
  assumes "cp_run d w0 h w" and "cache_laws d get" and "\<forall>n. get (Cache (w_xds w0)) n = None"
    and "get (Cache (w_xds w)) n = Some snap"
  shows "\<exists>s \<in> set h. \<exists>req ep version. GetEnvoyProxy d s req = Inr ep \<and> nodeID ep = n \<and>
    proxy_snapshot d s ep = Inr (version, snap)"
  using assms
proof (induction arbitrary: n snap rule: cp_run.induct)
  case cp_start
  then show ?case by simp
next
  case (cp_reconcile h w req)
  show ?case
  proof (cases rule: Reconcile_cache_cases [of d w req])
    case same
    with cp_reconcile show ?thesis by fastforce
  next
    case (set ep version snap')
    show ?thesis
    proof (cases "get (Cache (w_xds w)) n = Some snap")
      case True
      with cp_reconcile.IH cp_reconcile.prems show ?thesis by fastforce
    next
      case False
      with cp_reconcile.prems(1,3) set(3) have "n = nodeID ep \<and> snap = snap'"
        by (auto dest: cache_laws_entry)
      with set(1,2) show ?thesis by auto
    qed
  qed
qed simp_all

text \<open>The laws in the environment of the witnesses.\<close>

definition example_world :: "(Listener list, (string, example_snapshot) gomap) world" where
  "example_world = \<lparr>w_api = [example_listener], w_xds = \<lparr>Cache = [], connected = []\<rparr>, w_errors = [], w_updates = []\<rparr>"

definition example_request :: NamespacedName where
  "example_request = \<lparr>nn_Name = ''edge'', nn_Namespace = ''default''\<rparr>"

lemma example_cache_laws: "cache_laws example_deps gomap_get"
  by (simp add: cache_laws_def example_deps_def update_conv')

lemma example_get_law: "get_law example_deps"
  by (auto simp: get_law_def example_deps_def example_proxy_def split: if_splits)

lemma example_get: "GetEnvoyProxy example_deps s example_request = Inr (example_proxy ''edge'' ''default'')"
  by (simp add: example_deps_def example_request_def)

theorem Reconcile_isolated_witness:
  "gomap_get (Cache (w_xds (snd (Reconcile example_deps example_world example_request)))) ''edge.prod'' = None"
proof -
  let ?other = "\<lparr>nn_Name = ''edge'', nn_Namespace = ''prod''\<rparr>"
  have "?other \<noteq> example_request" by (simp add: example_request_def)
  from Reconcile_isolated [OF example_cache_laws example_get_law this, of example_world] show ?thesis
    by (simp add: example_request_def node_of_def example_world_def)
qed

lemma example_specs:
  "collectAll example_deps [example_listener] ''default'' ''edge'' = Inr ([''{}''], [Cluster_Spec example_cluster], [], [],
     [''{'' @ quoted ''cluster_name'' @ '':'' @ quoted ''svc-alpha'' @ ''}'',
      ''{'' @ quoted ''clusterName'' @ '':'' @ quoted ''svc-alpha'' @ ''}''],
     [[''10''], [''11''], [], [], [''12'', ''7'']])"
  by code_simp

definition example_published :: example_snapshot where
  "example_published = (computeVersion [[''10''], [''11''], [], [], [''12'', ''7'']],
     [(ListenerType, [''{}'']), (ClusterType, [Cluster_Spec example_cluster]), (RouteType, []), (ScopedRouteType, []),
      (EndpointType, [''{'' @ quoted ''cluster_name'' @ '':'' @ quoted ''svc-alpha'' @ ''}'',
         ''{'' @ quoted ''clusterName'' @ '':'' @ quoted ''svc-alpha'' @ ''}''])])"

lemma example_proxy_snapshot:
  "proxy_snapshot example_deps [example_listener] (example_proxy ''edge'' ''default'') =
     Inr (fst example_published, example_published)"
proof -
  have "Cluster_Spec example_cluster \<noteq> []" by (simp add: example_cluster_def)
  then show ?thesis
    by (simp add: proxy_snapshot_def example_proxy_def example_specs BuildSnapshot_def unmarshalAll_def
        example_published_def) (simp add: example_deps_def)
qed

lemma example_set:
  "SetSnapshot example_deps (Cache (w_xds example_world)) (nodeID (example_proxy ''edge'' ''default'')) example_published =
     (None, [(''edge.default'', example_published)])"
  by (simp add: example_deps_def example_world_def nodeID_def example_proxy_def)

lemma example_reconciled:
  "Reconcile example_deps example_world example_request =
     (None, report_success example_deps
        (example_world\<lparr>w_xds := (w_xds example_world)\<lparr>Cache := [(''edge.default'', example_published)]\<rparr>\<rparr>)
        (example_proxy ''edge'' ''default'') (fst example_published))"
  by (rule Reconcile_ok [OF example_get _ example_set])
    (simp add: example_world_def example_proxy_snapshot)

theorem cache_provenance_witness:
  "\<exists>req ep version. GetEnvoyProxy example_deps [example_listener] req = Inr ep \<and> nodeID ep = ''edge.default'' \<and>
     proxy_snapshot example_deps [example_listener] ep = Inr (version, example_published)"
proof -
  let ?w = "snd (Reconcile example_deps example_world example_request)"
  have run: "cp_run example_deps example_world [[example_listener]] ?w"
    using cp_reconcile [OF cp_start, of example_deps example_world example_request] by (simp add: example_world_def)
  have empty: "\<forall>n. gomap_get (Cache (w_xds example_world)) n = None" by (simp add: example_world_def)
  have "gomap_get (Cache (w_xds ?w)) ''edge.default'' = Some example_published"
    by (simp add: example_reconciled)
  from cache_provenance [OF run example_cache_laws empty this] show ?thesis by simp
qed

section \<open>Working off a queue of requests\<close>

text \<open>The manager reconciles the requests one after the other; each gives its error or none.\<close>

fun process_queue ::
  "('s, 'res, 'snap, 'cache) deps \<Rightarrow> ('s, 'cache) world \<Rightarrow> NamespacedName list \<Rightarrow> go_error option list \<times> ('s, 'cache) world" where
  "process_queue d w [] = ([], w)"
| "process_queue d w (req # reqs) =
     (let (err, w1) = Reconcile d w req; (errs, w2) = process_queue d w1 reqs in (err # errs, w2))"

text \<open>
  Two API states with the same configuration: the same proxies exist and every proxy collects
  the same. Updates through the status subresource keep it: they change status fields only.
\<close>

definition proxy_key :: "('s, 'res, 'snap, 'cache) deps \<Rightarrow> 's \<Rightarrow> NamespacedName \<Rightarrow> NamespacedName option" where
  "proxy_key d s req = (case GetEnvoyProxy d s req of
     Inl err \<Rightarrow> None
   | Inr ep \<Rightarrow> Some \<lparr>nn_Name = meta_Name (EnvoyProxy_ObjectMeta ep), nn_Namespace = meta_Namespace (EnvoyProxy_ObjectMeta ep)\<rparr>)"

definition same_config :: "('s, 'res, 'snap, 'cache) deps \<Rightarrow> 's \<Rightarrow> 's \<Rightarrow> bool" where
  "same_config d s s' \<longleftrightarrow> (\<forall>req. proxy_key d s' req = proxy_key d s req) \<and>
     (\<forall>ns name. collectAll d s' ns name = collectAll d s ns name)"

definition status_law :: "('s, 'res, 'snap, 'cache) deps \<Rightarrow> bool" where
  "status_law d \<longleftrightarrow> (\<forall>s ep. same_config d s (snd (snd (StatusUpdate d s ep))))"

lemma same_config_refl [simp]: "same_config d s s"
  by (simp add: same_config_def)

lemma same_config_trans: "same_config d s t \<Longrightarrow> same_config d t u \<Longrightarrow> same_config d s u"
  by (simp add: same_config_def)

text \<open>
  A reconcile changes the API state by status updates only: what every status update keeps, as a
  reflexive and transitive relation, a reconcile keeps.
\<close>

lemma Reconcile_api:
  assumes "\<And>s ep. R s (snd (snd (StatusUpdate d s ep)))" and "\<And>s. R s s" and "\<And>s t u. R s t \<Longrightarrow> R t u \<Longrightarrow> R s u"
  shows "R (w_api w) (w_api (snd (Reconcile d w req)))"
proof -
  have one: "R (w_api w) (w_api (snd (setCondition d w ep ct st rs msg)))" for w :: "('a, 'd) world" and ep ct st rs msg
    by (simp add: setCondition_api assms(1))
  have two: "R (w_api w) (w_api (report_success d w ep v))" for w :: "('a, 'd) world" and ep v
    unfolding report_success_def split_def Let_def by (blast intro: assms(3) one)
  show ?thesis
  proof (cases rule: Reconcile_cases [of d w req])
    case (set ep version snap err cache')
    then show ?thesis using one [of "w\<lparr>w_xds := (w_xds w)\<lparr>Cache := cache'\<rparr>\<rparr>"] by (simp add: Reconcile_set_error)
  next
    case (ok ep version snap cache')
    then show ?thesis using two [of "w\<lparr>w_xds := (w_xds w)\<lparr>Cache := cache'\<rparr>\<rparr>"] by (simp add: Reconcile_ok)
  qed (simp_all add: Reconcile_rules one assms(2))
qed

lemma Reconcile_config: "status_law d \<Longrightarrow> same_config d (w_api w) (w_api (snd (Reconcile d w req)))"
  by (rule Reconcile_api) (auto simp: status_law_def intro: same_config_trans)

text \<open>The snapshot of a proxy by its key, and the cache entry being that snapshot.\<close>

definition key_snapshot :: "('s, 'res, 'snap, 'cache) deps \<Rightarrow> 's \<Rightarrow> NamespacedName \<Rightarrow> (string \<times> 'snap) result" where
  "key_snapshot d s req =
     result_bind (collectAll d s (nn_Namespace req) (nn_Name req)) (\<lambda>(ls, cs, rs, srs, es, vers).
       result_bind (errorf ''build snapshot: ''
           (BuildSnapshot (UnmarshalResource d) (NewSnapshot d) (computeVersion vers) ls cs rs srs es))
         (\<lambda>snap. Inr (computeVersion vers, snap)))"

lemma proxy_snapshot_key:
  "get_law d \<Longrightarrow> GetEnvoyProxy d s req = Inr ep \<Longrightarrow> proxy_snapshot d s ep = key_snapshot d s req"
  by (simp add: proxy_snapshot_def key_snapshot_def get_law_def)

lemma key_snapshot_config: "same_config d s s' \<Longrightarrow> key_snapshot d s' req = key_snapshot d s req"
  by (simp add: key_snapshot_def same_config_def)

definition up_to_date ::
  "('s, 'res, 'snap, 'cache) deps \<Rightarrow> ('cache \<Rightarrow> string \<Rightarrow> 'snap option) \<Rightarrow> ('s, 'cache) world \<Rightarrow> NamespacedName \<Rightarrow> bool" where
  "up_to_date d get w req \<longleftrightarrow> (proxy_key d (w_api w) req \<noteq> None \<longrightarrow>
     (\<exists>version snap. key_snapshot d (w_api w) req = Inr (version, snap) \<and>
        get (Cache (w_xds w)) (node_of req) = Some snap))"

lemma Reconcile_up_to_date:
  assumes "cache_laws d get" and "get_law d" and "status_law d" and "fst (Reconcile d w req) = None"
  shows "up_to_date d get (snd (Reconcile d w req)) req"
proof (cases rule: Reconcile_cases [of d w req])
  case (missing err)
  then show ?thesis by (simp add: Reconcile_missing up_to_date_def proxy_key_def)
next
  case (ok ep version snap cache')
  let ?w' = "snd (Reconcile d w req)"
  have cfg: "same_config d (w_api w) (w_api ?w')" by (rule Reconcile_config [OF assms(3)])
  have "key_snapshot d (w_api ?w') req = Inr (version, snap)"
    using ok key_snapshot_config [OF cfg] proxy_snapshot_key [OF assms(2)] by metis
  moreover have "get (Cache (w_xds ?w')) (node_of req) = Some snap"
    using ok assms(1) nodeID_node_of [OF assms(2) ok(1)]
    by (simp add: Reconcile_ok cache_laws_def) (metis fst_conv snd_conv)
  ultimately show ?thesis by (simp add: up_to_date_def)
qed (use assms(4) in \<open>simp_all add: Reconcile_rules\<close>)

lemma up_to_date_other:
  assumes "cache_laws d get" and "get_law d" and "status_law d" and "up_to_date d get w other" and "other \<noteq> req"
    and "CHR ''.'' \<notin> set (nn_Namespace req)" and "CHR ''.'' \<notin> set (nn_Namespace other)"
  shows "up_to_date d get (snd (Reconcile d w req)) other"
proof -
  have "get (Cache (w_xds (snd (Reconcile d w req)))) (node_of other) = get (Cache (w_xds w)) (node_of other)"
  proof (cases rule: Reconcile_cache_cases [of d w req])
    case (set ep version snap)
    from assms(2) set(1) have "nodeID ep = node_of req" by (rule nodeID_node_of)
    with assms(5-7) have "nodeID ep \<noteq> node_of other" by (simp add: node_of_inj)
    with assms(1) set(3) show ?thesis by (simp add: cache_laws_def)
  qed simp
  moreover note cfg = Reconcile_config [OF assms(3), of w req]
  ultimately show ?thesis
    using assms(4) key_snapshot_config [OF cfg] cfg by (simp add: up_to_date_def same_config_def)
qed

lemma process_queue_keeps:
  assumes "cache_laws d get" and "get_law d" and "status_law d"
    and "\<forall>r \<in> set (req # reqs). CHR ''.'' \<notin> set (nn_Namespace r)"
    and "list_all (\<lambda>e. e = None) (fst (process_queue d w reqs))" and "up_to_date d get w req"
  shows "up_to_date d get (snd (process_queue d w reqs)) req"
  using assms(4-6)
proof (induction reqs arbitrary: w)
  case Nil
  then show ?case by simp
next
  case (Cons r reqs)
  from Cons.prems have "up_to_date d get (snd (Reconcile d w r)) req"
    using Reconcile_up_to_date [OF assms(1-3), of w r] up_to_date_other [OF assms(1-3), of w req r]
    by (cases "r = req") (auto simp: split_def Let_def)
  with Cons show ?case by (simp add: split_def Let_def)
qed

text \<open>
  Convergence: when a queue of requests has been worked off without errors, in any order and with
  repetitions, the cache holds for every requested proxy that exists exactly the snapshot of
  the configuration in the API state, the status updates made on the way included.
\<close>

theorem process_queue_converges:
  assumes "cache_laws d get" and "get_law d" and "status_law d"
    and "\<forall>r \<in> set reqs. CHR ''.'' \<notin> set (nn_Namespace r)"
    and "list_all (\<lambda>e. e = None) (fst (process_queue d w reqs))" and "req \<in> set reqs"
    and "GetEnvoyProxy d (w_api w) req = Inr ep"
  shows "\<exists>version snap. proxy_snapshot d (w_api w) ep = Inr (version, snap) \<and>
    get (Cache (w_xds (snd (process_queue d w reqs)))) (nodeID ep) = Some snap"
proof -
  have cfg: "same_config d (w_api w) (w_api (snd (process_queue d w reqs)))"
  proof (induction reqs arbitrary: w)
    case (Cons r reqs)
    then show ?case
      using same_config_trans [OF Reconcile_config [OF assms(3), of w r] Cons.IH] by (simp add: split_def Let_def)
  qed simp
  have "up_to_date d get (snd (process_queue d w reqs)) req"
    using assms(4-6)
  proof (induction reqs arbitrary: w)
    case (Cons r reqs)
    show ?case
    proof (cases "req \<in> set reqs")
      case True
      with Cons show ?thesis by (simp add: split_def Let_def)
    next
      case False
      with Cons.prems have r: "r = req" "fst (Reconcile d w req) = None"
        by (auto simp: split_def Let_def)
      then show ?thesis
        using process_queue_keeps [OF assms(1-3), of req reqs "snd (Reconcile d w req)"] Cons.prems
          Reconcile_up_to_date [OF assms(1-3) r(2)] by (simp add: split_def Let_def)
    qed
  qed simp
  moreover have "proxy_key d (w_api (snd (process_queue d w reqs))) req \<noteq> None"
    using assms(7) cfg by (simp add: same_config_def proxy_key_def)
  ultimately show ?thesis
    using key_snapshot_config [OF cfg, of req] proxy_snapshot_key [OF assms(2,7)] nodeID_node_of [OF assms(2,7)]
    by (auto simp: up_to_date_def)
qed

lemma example_status_law: "status_law example_deps"
  by (simp add: status_law_def example_deps_def)

theorem process_queue_converges_witness:
  "gomap_get (Cache (w_xds (snd (process_queue example_deps example_world [example_request])))) ''edge.default'' =
     Some example_published"
proof -
  have ns: "\<forall>r \<in> set [example_request]. CHR ''.'' \<notin> set (nn_Namespace r)" by (simp add: example_request_def)
  have ok: "list_all (\<lambda>e. e = None) (fst (process_queue example_deps example_world [example_request]))"
    by (simp add: example_reconciled)
  from process_queue_converges [OF example_cache_laws example_get_law example_status_law ns ok _ example_get] show ?thesis
    by (auto simp: example_world_def example_proxy_snapshot) (simp add: nodeID_def example_proxy_def)
qed

section \<open>The reported status\<close>

text \<open>
  \<open>meta.SetStatusCondition\<close> on a list with at most one condition of each type: afterwards there
  is one condition of the given type, with the given status, reason, message and
  generation, the conditions of other types are as before, and types are still distinct.
\<close>

definition condition_of :: "EnvoyProxy \<Rightarrow> string \<Rightarrow> Condition list" where
  "condition_of ep t = filter (\<lambda>c. cond_Type c = t) (status_Conditions (EnvoyProxy_Status ep))"

definition condition_law :: "('s, 'res, 'snap, 'cache) deps \<Rightarrow> bool" where
  "condition_law d \<longleftrightarrow> (\<forall>cs c. distinct (map cond_Type cs) \<longrightarrow>
     distinct (map cond_Type (SetStatusCondition d cs c)) \<and>
     (\<forall>t. filter (\<lambda>x. cond_Type x = t) (SetStatusCondition d cs c) =
        (if t = cond_Type c then [c] else filter (\<lambda>x. cond_Type x = t) cs)))"

definition distinct_conditions :: "EnvoyProxy \<Rightarrow> bool" where
  "distinct_conditions ep \<longleftrightarrow> distinct (map cond_Type (status_Conditions (EnvoyProxy_Status ep)))"

lemma distinct_with_condition:
  "condition_law d \<Longrightarrow> distinct_conditions ep \<Longrightarrow> distinct_conditions (with_condition d ep ct st rs msg)"
  by (simp add: distinct_conditions_def with_condition_def condition_law_def)

lemma condition_of_with_condition:
  "condition_law d \<Longrightarrow> distinct_conditions ep \<Longrightarrow> condition_of (with_condition d ep ct st rs msg) t =
     (if t = ct
      then [\<lparr>cond_Type = ct, cond_Status = st, cond_Reason = rs, cond_Message = msg,
             cond_ObservedGeneration = meta_Generation (EnvoyProxy_ObjectMeta ep)\<rparr>]
      else condition_of ep t)"
  by (simp add: condition_of_def with_condition_def condition_law_def distinct_conditions_def)

text \<open>
  C15. The status a successful reconcile reports last carries both conditions: \<open>Connected\<close> as the server
  reports the node, and \<open>Ready=True\<close> with the version. \<open>Ready\<close> does not depend on the proxy
  being connected: it says that a snapshot is in the cache, not that a proxy received it.
\<close>

theorem Reconcile_success_status:
  assumes "condition_law d" and "distinct_conditions ep"
    and "\<forall>s ep. EnvoyProxy_Status (fst (snd (StatusUpdate d s ep))) = EnvoyProxy_Status ep \<and>
      meta_Generation (EnvoyProxy_ObjectMeta (fst (snd (StatusUpdate d s ep)))) = meta_Generation (EnvoyProxy_ObjectMeta ep)"
    and "GetEnvoyProxy d (w_api w) req = Inr ep" and "fst (Reconcile d w req) = None"
  shows "\<exists>version snap. proxy_snapshot d (w_api w) ep = Inr (version, snap) \<and>
    (let u = last (w_updates (snd (Reconcile d w req))); gen = meta_Generation (EnvoyProxy_ObjectMeta ep) in
      condition_of u ConditionConnected =
        [\<lparr>cond_Type = ConditionConnected,
          cond_Status = (if IsConnected (w_xds w) (nodeID ep) then ConditionTrue else ConditionFalse),
          cond_Reason = ''StreamStatus'', cond_Message = [], cond_ObservedGeneration = gen\<rparr>] \<and>
      condition_of u ConditionReady =
        [\<lparr>cond_Type = ConditionReady, cond_Status = ConditionTrue, cond_Reason = ''SnapshotReady'',
          cond_Message = ''version='' @ version, cond_ObservedGeneration = gen\<rparr>] \<and>
      status_ObservedGeneration (EnvoyProxy_Status u) = gen)"
proof (cases rule: Reconcile_cases [of d w req])
  case (ok ep' version snap cache')
  with assms(4) have ep: "ep' = ep" by simp
  let ?conn = "if IsConnected (w_xds w) (nodeID ep) then ConditionTrue else ConditionFalse"
  define u1 where "u1 = with_condition d ep ConditionConnected ?conn ''StreamStatus'' []"
  define ep1 where "ep1 = fst (snd (StatusUpdate d (w_api w) u1))"
  have up: "last (w_updates (snd (Reconcile d w req))) =
      with_condition d ep1 ConditionReady ConditionTrue ''SnapshotReady'' (''version='' @ version)"
    using ok ep by (simp add: Reconcile_ok report_success_updates Let_def u1_def ep1_def IsConnected_def)
  have gen: "meta_Generation (EnvoyProxy_ObjectMeta ep1) = meta_Generation (EnvoyProxy_ObjectMeta ep)"
    using assms(3) by (simp add: ep1_def u1_def with_condition_def)
  have c: "condition_of ep1 t = condition_of u1 t" for t
    using assms(3) by (simp add: condition_of_def ep1_def)
  have u1: "distinct_conditions u1" unfolding u1_def by (rule distinct_with_condition [OF assms(1,2)])
  then have d1: "distinct_conditions ep1" using assms(3) by (simp add: distinct_conditions_def ep1_def)
  have og: "status_ObservedGeneration (EnvoyProxy_Status (with_condition d e t st rs msg)) =
      meta_Generation (EnvoyProxy_ObjectMeta e)" for e t st rs msg
    by (simp add: with_condition_def)
  show ?thesis
    using ok(2) ep
    by (simp add: up Let_def condition_of_with_condition [OF assms(1) d1] c gen og) (simp add: u1_def condition_of_with_condition [OF assms(1,2)])
qed (use assms(4,5) in \<open>simp_all add: Reconcile_rules\<close>)

lemma example_condition_law: "condition_law example_deps"
  by (auto simp: condition_law_def example_deps_def replace_condition_def filter_empty_conv distinct_map_filter
      intro: filter_cong)

lemma example_distinct: "distinct_conditions (example_proxy ''edge'' ''default'')"
  by (simp add: distinct_conditions_def example_proxy_def)

theorem Reconcile_success_status_witness:
  "condition_of (last (w_updates (snd (Reconcile example_deps example_world example_request)))) ConditionReady =
     [\<lparr>cond_Type = ConditionReady, cond_Status = ConditionTrue, cond_Reason = ''SnapshotReady'',
       cond_Message = ''version='' @ fst example_published, cond_ObservedGeneration = 2\<rparr>] \<and>
   \<not> IsConnected (w_xds example_world) ''edge.default''"
proof -
  have upd: "\<forall>s ep. EnvoyProxy_Status (fst (snd (StatusUpdate example_deps s ep))) = EnvoyProxy_Status ep \<and>
      meta_Generation (EnvoyProxy_ObjectMeta (fst (snd (StatusUpdate example_deps s ep)))) = meta_Generation (EnvoyProxy_ObjectMeta ep)"
    by (simp add: example_deps_def)
  have ok: "fst (Reconcile example_deps example_world example_request) = None"
    by (simp add: example_reconciled)
  have api: "w_api example_world = [example_listener]" by (simp add: example_world_def)
  have gen: "meta_Generation (EnvoyProxy_ObjectMeta (example_proxy ''edge'' ''default'')) = 2"
    by (simp add: example_proxy_def)
  from Reconcile_success_status [OF example_condition_law example_distinct upd example_get ok] show ?thesis
    unfolding api example_proxy_snapshot gen Let_def by (auto simp: IsConnected_def example_world_def)
qed

end
