(* ===== verification/Client_Calls.thy ===== *)
theory Client_Calls
  imports Control_Plane
begin

text \<open>
  \<open>Reconcile\<close> and the functions it calls, at the grain of single calls: of the Kubernetes client,
  the snapshot cache and the connection table. Between two calls the rest of the system may
  do anything, so each call has a continuation for its reply.

  A program that runs alone computes what the functions of \<open>Reconciler\<close> compute. A program
  whose reads see the API at different moments, or fail, is described by \<open>ensures\<close>: what
  holds of its result and of the log of its effects, however its reads are answered from a
  set of states.
\<close>

section \<open>Programs of client calls\<close>

datatype ('snap, 'a) prog =
    Return 'a
  | CallGet NamespacedName "EnvoyProxy result \<Rightarrow> ('snap, 'a) prog"
  | CallListListeners "Listener list result \<Rightarrow> ('snap, 'a) prog"
  | CallListClusters "Cluster list result \<Rightarrow> ('snap, 'a) prog"
  | CallListRoutes "RouteConfiguration list result \<Rightarrow> ('snap, 'a) prog"
  | CallListScopedRoutes "ScopedRouteConfiguration list result \<Rightarrow> ('snap, 'a) prog"
  | CallListCLAs "ClusterLoadAssignment list result \<Rightarrow> ('snap, 'a) prog"
  | CallListEndpointSlices string "(string \<times> string) list" "EndpointSlice list result \<Rightarrow> ('snap, 'a) prog"
  | CallSetSnapshot string 'snap "go_error option \<Rightarrow> ('snap, 'a) prog"
  | CallIsConnected string "bool \<Rightarrow> ('snap, 'a) prog"
  | CallStatusUpdate EnvoyProxy "go_error option \<times> EnvoyProxy \<Rightarrow> ('snap, 'a) prog"
  | CallLogError string go_error "('snap, 'a) prog"

primrec prog_bind :: "('snap, 'a) prog \<Rightarrow> ('a \<Rightarrow> ('snap, 'b) prog) \<Rightarrow> ('snap, 'b) prog" where
  "prog_bind (Return x) f = f x"
| "prog_bind (CallGet q k) f = CallGet q (\<lambda>x. prog_bind (k x) f)"
| "prog_bind (CallListListeners k) f = CallListListeners (\<lambda>x. prog_bind (k x) f)"
| "prog_bind (CallListClusters k) f = CallListClusters (\<lambda>x. prog_bind (k x) f)"
| "prog_bind (CallListRoutes k) f = CallListRoutes (\<lambda>x. prog_bind (k x) f)"
| "prog_bind (CallListScopedRoutes k) f = CallListScopedRoutes (\<lambda>x. prog_bind (k x) f)"
| "prog_bind (CallListCLAs k) f = CallListCLAs (\<lambda>x. prog_bind (k x) f)"
| "prog_bind (CallListEndpointSlices ns labels k) f = CallListEndpointSlices ns labels (\<lambda>x. prog_bind (k x) f)"
| "prog_bind (CallSetSnapshot n snap k) f = CallSetSnapshot n snap (\<lambda>x. prog_bind (k x) f)"
| "prog_bind (CallIsConnected n k) f = CallIsConnected n (\<lambda>x. prog_bind (k x) f)"
| "prog_bind (CallStatusUpdate ep k) f = CallStatusUpdate ep (\<lambda>x. prog_bind (k x) f)"
| "prog_bind (CallLogError t e p) f = CallLogError t e (prog_bind p f)"

section \<open>The reconcile as a program\<close>

definition collectListeners_prog :: "string \<Rightarrow> string \<Rightarrow> ('snap, (bytes list \<times> string list) result) prog" where
  "collectListeners_prog ns name =
     CallListListeners (\<lambda>r. Return (result_bind r (\<lambda>items. Inr (collectListeners_items ns name items))))"

definition collectClusters_prog :: "string \<Rightarrow> string \<Rightarrow> ('snap, (bytes list \<times> string list \<times> Cluster list) result) prog" where
  "collectClusters_prog ns name =
     CallListClusters (\<lambda>r. Return (result_bind r (\<lambda>items. Inr (collectClusters_items ns name items))))"

definition collectRoutes_prog :: "string \<Rightarrow> string \<Rightarrow> ('snap, (bytes list \<times> string list) result) prog" where
  "collectRoutes_prog ns name =
     CallListRoutes (\<lambda>r. Return (result_bind r (\<lambda>items. Inr (collectRoutes_items ns name items))))"

definition collectScopedRoutes_prog :: "string \<Rightarrow> string \<Rightarrow> ('snap, (bytes list \<times> string list) result) prog" where
  "collectScopedRoutes_prog ns name =
     CallListScopedRoutes (\<lambda>r. Return (result_bind r (\<lambda>items. Inr (collectScopedRoutes_items ns name items))))"

fun collectSynthesized_prog ::
  "('s, 'res, 'snap, 'cache) deps \<Rightarrow> (string, bool) gomap \<Rightarrow> bytes list \<Rightarrow> string list \<Rightarrow> Cluster list \<Rightarrow>
   ('snap, (bytes list \<times> string list) result) prog" where
  "collectSynthesized_prog d manualNames specs versions [] = Return (Inr (specs, versions))"
| "collectSynthesized_prog d manualNames specs versions (cluster # clusters) =
     (case Cluster_KubernetesServiceRef cluster of
        None \<Rightarrow> collectSynthesized_prog d manualNames specs versions clusters
      | Some ref \<Rightarrow>
          (let clusterName = ClusterName (Cluster_Spec cluster) in
           if clusterName = [] \<or> gomap_get manualNames clusterName = Some True
           then collectSynthesized_prog d manualNames specs versions clusters
           else
             (let svcNS = serviceNamespace cluster ref in
              CallListEndpointSlices svcNS [(''kubernetes.io/service-name'', ServiceRef_Name ref)] (\<lambda>r. case r of
                Inl err \<Rightarrow>
                  Return (Inl (Wrapped (''list endpointslices for '' @ svcNS @ ''/'' @ ServiceRef_Name ref @ '': '') err))
              | Inr slices \<Rightarrow>
                  (case MarshalCLA d (SynthesizeCLA clusterName slices (ServiceRef_Port ref)) of
                     Inl err \<Rightarrow>
                       Return (Inl (Wrapped (''marshal synthesized CLA for cluster '' @ clusterName @ '': '') err))
                   | Inr raw \<Rightarrow>
                       collectSynthesized_prog d manualNames (specs @ [raw])
                         (foldl (\<lambda>vs sl. vs @ [meta_ResourceVersion (slice_ObjectMeta sl)]) versions slices)
                         clusters)))))"

definition collectEndpoints_prog ::
  "('s, 'res, 'snap, 'cache) deps \<Rightarrow> string \<Rightarrow> string \<Rightarrow> Cluster list \<Rightarrow> ('snap, (bytes list \<times> string list) result) prog" where
  "collectEndpoints_prog d ns name clusterItems = CallListCLAs (\<lambda>r. case r of
     Inl err \<Rightarrow> Return (Inl err)
   | Inr claItems \<Rightarrow>
       (let (specs, versions, manualNames) = collectManual ns name claItems in
        collectSynthesized_prog d manualNames specs versions clusterItems))"

definition setCondition_prog ::
  "('s, 'res, 'snap, 'cache) deps \<Rightarrow> EnvoyProxy \<Rightarrow> string \<Rightarrow> ConditionStatus \<Rightarrow> string \<Rightarrow> string \<Rightarrow> ('snap, EnvoyProxy) prog" where
  "setCondition_prog d ep condType status reason msg =
     (let gen = meta_Generation (EnvoyProxy_ObjectMeta ep);
          conds = SetStatusCondition d (status_Conditions (EnvoyProxy_Status ep))
            \<lparr>cond_Type = condType, cond_Status = status, cond_Reason = reason, cond_Message = msg,
             cond_ObservedGeneration = gen\<rparr>;
          ep1 = ep\<lparr>EnvoyProxy_Status := \<lparr>status_ObservedGeneration = gen, status_Conditions = conds\<rparr>\<rparr>
      in CallStatusUpdate ep1 (\<lambda>(err, ep2). case err of
           None \<Rightarrow> Return ep2
         | Some e \<Rightarrow> CallLogError condType e (Return ep2)))"

text \<open>A step of \<open>Reconcile\<close> that returns the wrapped error of a collection at once.\<close>

definition prog_try ::
  "string \<Rightarrow> ('snap, 'a result) prog \<Rightarrow> ('a \<Rightarrow> ('snap, go_error option) prog) \<Rightarrow> ('snap, go_error option) prog" where
  "prog_try prefix p f = prog_bind p (\<lambda>r. case r of Inl err \<Rightarrow> Return (Some (Wrapped prefix err)) | Inr x \<Rightarrow> f x)"

text \<open>The part of \<open>Reconcile\<close> after the collections.\<close>

definition publish_prog ::
  "('s, 'res, 'snap, 'cache) deps \<Rightarrow> EnvoyProxy \<Rightarrow> string \<Rightarrow> 'snap result \<Rightarrow> ('snap, go_error option) prog" where
  "publish_prog d ep version built = (case built of
     Inl err \<Rightarrow>
       prog_bind (setCondition_prog d ep ConditionReady ConditionFalse ''SnapshotBuildFailed'' (error_text err)) (\<lambda>_.
       Return (Some (Wrapped ''build snapshot: '' err)))
   | Inr snap \<Rightarrow>
       CallSetSnapshot (nodeID ep) snap (\<lambda>serr. case serr of
         Some err \<Rightarrow>
           prog_bind (setCondition_prog d ep ConditionReady ConditionFalse ''SnapshotSetFailed'' (error_text err)) (\<lambda>_.
           Return (Some (Wrapped ''set snapshot: '' err)))
       | None \<Rightarrow>
           CallIsConnected (nodeID ep) (\<lambda>connected.
           prog_bind (setCondition_prog d ep ConditionConnected (if connected then ConditionTrue else ConditionFalse)
             ''StreamStatus'' []) (\<lambda>ep1.
           prog_bind (setCondition_prog d ep1 ConditionReady ConditionTrue ''SnapshotReady'' (''version='' @ version)) (\<lambda>_.
           Return None)))))"

text \<open>The part after the proxy was read.\<close>

definition collect_prog ::
  "('s, 'res, 'snap, 'cache) deps \<Rightarrow> EnvoyProxy \<Rightarrow> ('snap, go_error option) prog" where
  "collect_prog d ep =
     (let ns = meta_Namespace (EnvoyProxy_ObjectMeta ep); name = meta_Name (EnvoyProxy_ObjectMeta ep) in
      prog_try ''collect listeners: '' (collectListeners_prog ns name) (\<lambda>(listeners, lVers).
      prog_try ''collect clusters: '' (collectClusters_prog ns name) (\<lambda>(clusters, cVers, clusterItems).
      prog_try ''collect routes: '' (collectRoutes_prog ns name) (\<lambda>(routes, rVers).
      prog_try ''collect scoped routes: '' (collectScopedRoutes_prog ns name) (\<lambda>(scopedRoutes, srVers).
      prog_try ''collect endpoints: '' (collectEndpoints_prog d ns name clusterItems) (\<lambda>(endpoints, eVers).
        (let version = computeVersion [lVers, cVers, rVers, srVers, eVers] in
         publish_prog d ep version
           (BuildSnapshot (UnmarshalResource d) (NewSnapshot d) version listeners clusters routes scopedRoutes endpoints))))))))"

definition Reconcile_prog ::
  "('s, 'res, 'snap, 'cache) deps \<Rightarrow> NamespacedName \<Rightarrow> ('snap, go_error option) prog" where
  "Reconcile_prog d req = CallGet req (\<lambda>r. case r of
     Inl err \<Rightarrow> Return (IgnoreNotFound d err)
   | Inr ep \<Rightarrow> collect_prog d ep)"

section \<open>A program that runs alone\<close>

primrec run_prog ::
  "('s, 'res, 'snap, 'cache) deps \<Rightarrow> ('snap, 'a) prog \<Rightarrow> ('s, 'cache) world \<Rightarrow> 'a \<times> ('s, 'cache) world" where
  "run_prog d (Return x) w = (x, w)"
| "run_prog d (CallGet q k) w = run_prog d (k (GetEnvoyProxy d (w_api w) q)) w"
| "run_prog d (CallListListeners k) w = run_prog d (k (ListListeners d (w_api w))) w"
| "run_prog d (CallListClusters k) w = run_prog d (k (ListClusters d (w_api w))) w"
| "run_prog d (CallListRoutes k) w = run_prog d (k (ListRoutes d (w_api w))) w"
| "run_prog d (CallListScopedRoutes k) w = run_prog d (k (ListScopedRoutes d (w_api w))) w"
| "run_prog d (CallListCLAs k) w = run_prog d (k (ListCLAs d (w_api w))) w"
| "run_prog d (CallListEndpointSlices ns labels k) w = run_prog d (k (ListEndpointSlices d (w_api w) ns labels)) w"
| "run_prog d (CallSetSnapshot n snap k) w =
     (let (err, cache') = SetSnapshot d (Cache (w_xds w)) n snap in
      run_prog d (k err) (w\<lparr>w_xds := (w_xds w)\<lparr>Cache := cache'\<rparr>\<rparr>))"
| "run_prog d (CallIsConnected n k) w = run_prog d (k (IsConnected (w_xds w) n)) w"
| "run_prog d (CallStatusUpdate ep k) w =
     (let (err, ep', s') = StatusUpdate d (w_api w) ep in
      run_prog d (k (err, ep')) (w\<lparr>w_api := s', w_updates := w_updates w @ [ep]\<rparr>))"
| "run_prog d (CallLogError t e p) w = run_prog d p (w\<lparr>w_errors := w_errors w @ [(t, e)]\<rparr>)"

lemma run_prog_bind: "run_prog d (prog_bind p f) w = (let (x, w') = run_prog d p w in run_prog d (f x) w')"
  by (induction p arbitrary: w) (simp_all add: Let_def split_def)

lemma run_prog_try:
  assumes "run_prog d p w = (r, w)"
  shows "run_prog d (prog_try prefix p f) w = (case errorf prefix r of Inl e \<Rightarrow> (Some e, w) | Inr x \<Rightarrow> run_prog d (f x) w)"
  by (simp add: prog_try_def run_prog_bind assms split: sum.split)

lemma run_collect:
  "run_prog d (collectListeners_prog ns name) w = (collectListeners d (w_api w) ns name, w)"
  "run_prog d (collectClusters_prog ns name) w = (collectClusters d (w_api w) ns name, w)"
  "run_prog d (collectRoutes_prog ns name) w = (collectRoutes d (w_api w) ns name, w)"
  "run_prog d (collectScopedRoutes_prog ns name) w = (collectScopedRoutes d (w_api w) ns name, w)"
  by (simp_all add: collectListeners_prog_def collectClusters_prog_def collectRoutes_prog_def collectScopedRoutes_prog_def
      collectListeners_def collectClusters_def collectRoutes_def collectScopedRoutes_def)

lemma run_collectSynthesized:
  "run_prog d (collectSynthesized_prog d names specs vers cs) w = (collectSynthesized d (w_api w) names specs vers cs, w)"
  by (induction d "w_api w" names specs vers cs rule: collectSynthesized.induct)
    (auto simp: Let_def split: option.split sum.split)

lemma run_collectEndpoints:
  "run_prog d (collectEndpoints_prog d ns name cs) w = (collectEndpoints d (w_api w) ns name cs, w)"
  by (cases "ListCLAs d (w_api w)")
    (simp_all add: collectEndpoints_prog_def collectEndpoints_def run_collectSynthesized split: prod.split)

lemma run_setCondition: "run_prog d (setCondition_prog d ep ct st rs msg) w = setCondition d w ep ct st rs msg"
  by (simp add: setCondition_prog_def setCondition_def Let_def split: prod.split option.split)


lemma run_publish:
  "run_prog d (publish_prog d ep version built) w = (case built of
     Inl err \<Rightarrow> (Some (Wrapped ''build snapshot: '' err),
       snd (setCondition d w ep ConditionReady ConditionFalse ''SnapshotBuildFailed'' (error_text err)))
   | Inr snap \<Rightarrow>
       (let (serr, cache') = SetSnapshot d (Cache (w_xds w)) (nodeID ep) snap;
            w0 = w\<lparr>w_xds := (w_xds w)\<lparr>Cache := cache'\<rparr>\<rparr> in
        case serr of
          Some err \<Rightarrow> (Some (Wrapped ''set snapshot: '' err),
            snd (setCondition d w0 ep ConditionReady ConditionFalse ''SnapshotSetFailed'' (error_text err)))
        | None \<Rightarrow> (None, report_success d w0 ep version)))"
  by (simp add: publish_prog_def run_prog_bind run_setCondition report_success_def Let_def split_def split: sum.split option.split)

text \<open>
  A reconcile whose calls are not interleaved with anything does what \<open>Reconcile\<close> says: the program of
  single calls and the function on worlds are the same, in result, cache, status updates and log.
\<close>

lemma Reconcile_prog_run: "run_prog d (Reconcile_prog d req) w = Reconcile d w req"
proof (cases rule: Reconcile_cases [of d w req])
  case (missing err)
  then show ?thesis by (simp add: Reconcile_prog_def Reconcile_missing)
next
  case (collect ep err)
  then show ?thesis
    by (auto simp: Reconcile_collect_error) (auto simp: Reconcile_prog_def collect_prog_def collectAll_def Let_def run_prog_try run_collect
        run_collectEndpoints result_bind_def split: sum.splits)
next
  case (build ep ls cs rs srs es vers err)
  then show ?thesis
    by (auto simp: Reconcile_build_error) (auto simp: Reconcile_prog_def collect_prog_def collectAll_def Let_def run_prog_try run_collect
        run_collectEndpoints run_publish result_bind_Inr_iff)
next
  case (set ep version snap err cache')
  then show ?thesis
    by (auto simp: Reconcile_set_error) (auto simp: Reconcile_prog_def collect_prog_def collectAll_def proxy_snapshot_def Let_def run_prog_try
        run_collect run_collectEndpoints run_publish result_bind_Inr_iff)
next
  case (ok ep version snap cache')
  then show ?thesis
    by (auto simp: Reconcile_ok) (auto simp: Reconcile_prog_def collect_prog_def collectAll_def proxy_snapshot_def Let_def run_prog_try
        run_collect run_collectEndpoints run_publish result_bind_Inr_iff)
qed

section \<open>What a program ensures when its reads are torn\<close>

text \<open>The effects of a program, with the replies they got.\<close>

datatype 'snap effect =
    Published string 'snap "go_error option"
  | Reported EnvoyProxy "go_error option \<times> EnvoyProxy"

text \<open>
  A reply shows one of the states \<open>T\<close> or is an error; a get that fails without showing a state
  does not claim that the proxy does not exist.
\<close>

definition get_reply ::
  "('s, 'res, 'snap, 'cache) deps \<Rightarrow> 's set \<Rightarrow> NamespacedName \<Rightarrow> EnvoyProxy result \<Rightarrow> bool" where
  "get_reply d T q x \<longleftrightarrow> (\<exists>t \<in> T. x = GetEnvoyProxy d t q) \<or> (\<exists>err. x = Inl err \<and> IgnoreNotFound d err \<noteq> None)"

definition list_reply :: "'s set \<Rightarrow> ('s \<Rightarrow> 'a result) \<Rightarrow> 'a result \<Rightarrow> bool" where
  "list_reply T f x \<longleftrightarrow> (\<exists>t \<in> T. x = f t) \<or> (\<exists>err. x = Inl err)"

lemma reply_mono:
  "T \<subseteq> T' \<Longrightarrow> get_reply d T q x \<Longrightarrow> get_reply d T' q x"
  "T \<subseteq> T' \<Longrightarrow> list_reply T f y \<Longrightarrow> list_reply T' f y"
  by (auto simp: get_reply_def list_reply_def)

text \<open>
  Whatever the replies are, the result \<open>x\<close> and the final log \<open>l\<close> satisfy \<open>Q x l\<close>, and every publication is one
  that \<open>I\<close> allows.
\<close>

primrec ensures ::
  "('s, 'res, 'snap, 'cache) deps \<Rightarrow> 's set \<Rightarrow> (string \<Rightarrow> 'snap \<Rightarrow> bool) \<Rightarrow> ('snap, 'a) prog \<Rightarrow>
   ('a \<Rightarrow> 'snap effect list \<Rightarrow> bool) \<Rightarrow> 'snap effect list \<Rightarrow> bool" where
  "ensures d T I (Return x) Q l = Q x l"
| "ensures d T I (CallGet q k) Q l = (\<forall>x. get_reply d T q x \<longrightarrow> ensures d T I (k x) Q l)"
| "ensures d T I (CallListListeners k) Q l = (\<forall>x. list_reply T (ListListeners d) x \<longrightarrow> ensures d T I (k x) Q l)"
| "ensures d T I (CallListClusters k) Q l = (\<forall>x. list_reply T (ListClusters d) x \<longrightarrow> ensures d T I (k x) Q l)"
| "ensures d T I (CallListRoutes k) Q l = (\<forall>x. list_reply T (ListRoutes d) x \<longrightarrow> ensures d T I (k x) Q l)"
| "ensures d T I (CallListScopedRoutes k) Q l = (\<forall>x. list_reply T (ListScopedRoutes d) x \<longrightarrow> ensures d T I (k x) Q l)"
| "ensures d T I (CallListCLAs k) Q l = (\<forall>x. list_reply T (ListCLAs d) x \<longrightarrow> ensures d T I (k x) Q l)"
| "ensures d T I (CallListEndpointSlices ns labels k) Q l =
     (\<forall>x. list_reply T (\<lambda>t. ListEndpointSlices d t ns labels) x \<longrightarrow> ensures d T I (k x) Q l)"
| "ensures d T I (CallSetSnapshot n snap k) Q l = (I n snap \<and> (\<forall>err. ensures d T I (k err) Q (l @ [Published n snap err])))"
| "ensures d T I (CallIsConnected n k) Q l = (\<forall>b. ensures d T I (k b) Q l)"
| "ensures d T I (CallStatusUpdate ep k) Q l = (\<forall>r. ensures d T I (k r) Q (l @ [Reported ep r]))"
| "ensures d T I (CallLogError t e p) Q l = ensures d T I p Q l"

lemma ensures_bind: "ensures d T I (prog_bind p f) Q l = ensures d T I p (\<lambda>x. ensures d T I (f x) Q) l"
  by (induction p arbitrary: l) simp_all

lemma ensures_mono:
  "ensures d T I p Q l \<Longrightarrow> (\<And>x l. Q x l \<Longrightarrow> Q' x l) \<Longrightarrow> ensures d T I p Q' l"
  by (induction p arbitrary: l) auto

lemma ensures_try:
  assumes "ensures d T I p (\<lambda>r l'. l' = l \<and> (\<forall>x. r = Inr x \<longrightarrow> ensures d T I (f x) Q l) \<and> (\<forall>e. r = Inl e \<longrightarrow> Q (Some (Wrapped prefix e)) l)) l"
  shows "ensures d T I (prog_try prefix p f) Q l"
  unfolding prog_try_def ensures_bind by (rule ensures_mono [OF assms]) (auto split: sum.split)


section \<open>The outcome of a reconcile with torn reads\<close>

text \<open>
  What a reconcile collects when each of its reads may see another of the states \<open>T\<close>: also the
  slices of each cluster are read on their own, twice if two clusters refer to one service.
\<close>

definition torn_endpoints ::
  "('s, 'res, 'snap, 'cache) deps \<Rightarrow> 's set \<Rightarrow> string \<Rightarrow> string \<Rightarrow> Cluster list \<Rightarrow> bytes list \<times> string list \<Rightarrow> bool" where
  "torn_endpoints d T ns name cs x \<longleftrightarrow> (\<exists>t \<in> T. \<exists>clas xs. ListCLAs d t = Inr clas \<and>
     list_all2 (\<lambda>c y. \<exists>u \<in> T. synthesize d u c = Inr y) (filter (eligible (manual_names ns name clas)) cs) xs \<and>
     x = (map ClusterLoadAssignment_Spec (manual_items ns name clas) @ map fst xs,
          map (\<lambda>i. meta_ResourceVersion (ClusterLoadAssignment_ObjectMeta i)) (manual_items ns name clas) @ concat (map snd xs)))"

definition torn_collected ::
  "('s, 'res, 'snap, 'cache) deps \<Rightarrow> 's set \<Rightarrow> string \<Rightarrow> string \<Rightarrow>
   bytes list \<times> bytes list \<times> bytes list \<times> bytes list \<times> bytes list \<times> string list list \<Rightarrow> bool" where
  "torn_collected d T ns name x \<longleftrightarrow> (\<exists>ls lv cs cv items rs rv srs sv es ev.
     (\<exists>t \<in> T. collectListeners d t ns name = Inr (ls, lv)) \<and> (\<exists>t \<in> T. collectClusters d t ns name = Inr (cs, cv, items)) \<and>
     (\<exists>t \<in> T. collectRoutes d t ns name = Inr (rs, rv)) \<and> (\<exists>t \<in> T. collectScopedRoutes d t ns name = Inr (srs, sv)) \<and>
     torn_endpoints d T ns name items (es, ev) \<and> x = (ls, cs, rs, srs, es, [lv, cv, rv, sv, ev]))"

definition torn_snapshot ::
  "('s, 'res, 'snap, 'cache) deps \<Rightarrow> 's set \<Rightarrow> EnvoyProxy \<Rightarrow> string \<Rightarrow> 'snap \<Rightarrow> bool" where
  "torn_snapshot d T ep version snap \<longleftrightarrow> (\<exists>ls cs rs srs es vers.
     torn_collected d T (meta_Namespace (EnvoyProxy_ObjectMeta ep)) (meta_Name (EnvoyProxy_ObjectMeta ep)) (ls, cs, rs, srs, es, vers) \<and>
     version = computeVersion vers \<and>
     BuildSnapshot (UnmarshalResource d) (NewSnapshot d) version ls cs rs srs es = Inr snap)"

text \<open>What a reconcile of \<open>req\<close> may publish: a snapshot of the proxy it read, under its node id.\<close>

definition publishable ::
  "('s, 'res, 'snap, 'cache) deps \<Rightarrow> 's set \<Rightarrow> NamespacedName \<Rightarrow> string \<Rightarrow> 'snap \<Rightarrow> bool" where
  "publishable d T req n snap \<longleftrightarrow> (\<exists>t \<in> T. \<exists>ep version. GetEnvoyProxy d t req = Inr ep \<and> n = nodeID ep \<and>
     torn_snapshot d T ep version snap)"

text \<open>The results of a reconcile with the effects that go with them.\<close>

inductive reconcile_outcome ::
  "('s, 'res, 'snap, 'cache) deps \<Rightarrow> 's set \<Rightarrow> NamespacedName \<Rightarrow> go_error option \<Rightarrow> 'snap effect list \<Rightarrow> bool"
  for d :: "('s, 'res, 'snap, 'cache) deps" and T :: "'s set" and req :: NamespacedName where
  missing: "t \<in> T \<Longrightarrow> GetEnvoyProxy d t req = Inl e \<Longrightarrow> IgnoreNotFound d e = None \<Longrightarrow> reconcile_outcome d T req None []"
| get_failed: "IgnoreNotFound d e = Some e' \<Longrightarrow> reconcile_outcome d T req (Some e') []"
| collect_failed: "prefix \<in> {''collect listeners: '', ''collect clusters: '', ''collect routes: '',
      ''collect scoped routes: '', ''collect endpoints: ''} \<Longrightarrow> reconcile_outcome d T req (Some (Wrapped prefix e)) []"
| build_failed: "t \<in> T \<Longrightarrow> GetEnvoyProxy d t req = Inr ep \<Longrightarrow>
    torn_collected d T (meta_Namespace (EnvoyProxy_ObjectMeta ep)) (meta_Name (EnvoyProxy_ObjectMeta ep)) (ls, cs, rs, srs, es, vers) \<Longrightarrow>
    BuildSnapshot (UnmarshalResource d) (NewSnapshot d) (computeVersion vers) ls cs rs srs es = Inl e \<Longrightarrow>
    reconcile_outcome d T req (Some (Wrapped ''build snapshot: '' e))
      [Reported (with_condition d ep ConditionReady ConditionFalse ''SnapshotBuildFailed'' (error_text e)) r]"
| set_failed: "t \<in> T \<Longrightarrow> GetEnvoyProxy d t req = Inr ep \<Longrightarrow> torn_snapshot d T ep version snap \<Longrightarrow>
    reconcile_outcome d T req (Some (Wrapped ''set snapshot: '' e))
      [Published (nodeID ep) snap (Some e),
       Reported (with_condition d ep ConditionReady ConditionFalse ''SnapshotSetFailed'' (error_text e)) r]"
| reported: "t \<in> T \<Longrightarrow> GetEnvoyProxy d t req = Inr ep \<Longrightarrow> torn_snapshot d T ep version snap \<Longrightarrow> st \<in> {ConditionTrue, ConditionFalse} \<Longrightarrow>
    reconcile_outcome d T req None
      [Published (nodeID ep) snap None,
       Reported (with_condition d ep ConditionConnected st ''StreamStatus'' []) r1,
       Reported (with_condition d (snd r1) ConditionReady ConditionTrue ''SnapshotReady'' (''version='' @ version)) r2]"

inductive_cases reconcile_outcome_successE: "reconcile_outcome d T req None l"

lemma ensures_collect:
  "ensures d T I (collectListeners_prog ns name) (\<lambda>r l'. l' = l \<and> (\<forall>x. r = Inr x \<longrightarrow> (\<exists>t \<in> T. collectListeners d t ns name = Inr x))) l"
  "ensures d T I (collectClusters_prog ns name) (\<lambda>r l'. l' = l \<and> (\<forall>x. r = Inr x \<longrightarrow> (\<exists>t \<in> T. collectClusters d t ns name = Inr x))) l"
  "ensures d T I (collectRoutes_prog ns name) (\<lambda>r l'. l' = l \<and> (\<forall>x. r = Inr x \<longrightarrow> (\<exists>t \<in> T. collectRoutes d t ns name = Inr x))) l"
  "ensures d T I (collectScopedRoutes_prog ns name) (\<lambda>r l'. l' = l \<and> (\<forall>x. r = Inr x \<longrightarrow> (\<exists>t \<in> T. collectScopedRoutes d t ns name = Inr x))) l"
  by (auto simp: collectListeners_prog_def collectClusters_prog_def collectRoutes_prog_def collectScopedRoutes_prog_def
      collectListeners_def collectClusters_def collectRoutes_def collectScopedRoutes_def list_reply_def)

lemma ensures_collectSynthesized:
  assumes "\<And>k. gomap_get m k = Some True \<longleftrightarrow> k \<in> names"
  shows "ensures d T I (collectSynthesized_prog d m specs vers cs) (\<lambda>r l'. l' = l \<and> (\<forall>x. r = Inr x \<longrightarrow>
    (\<exists>xs. list_all2 (\<lambda>c y. \<exists>u \<in> T. synthesize d u c = Inr y) (filter (eligible names) cs) xs \<and>
       x = (specs @ map fst xs, vers @ concat (map snd xs))))) l"
proof (induction cs arbitrary: specs vers)
  case (Cons c cs)
  show ?case
  proof (cases "eligible names c")
    case False
    then have "collectSynthesized_prog d m specs vers (c # cs) = collectSynthesized_prog d m specs vers cs"
      by (auto simp: eligible_def assms Let_def split: option.splits)
    with False Cons show ?thesis by simp
  next
    case True
    then obtain ref where ref: "Cluster_KubernetesServiceRef c = Some ref"
      and name: "\<not> (ClusterName (Cluster_Spec c) = [] \<or> ClusterName (Cluster_Spec c) \<in> names)"
      by (auto simp: eligible_def)
    have syn: "synthesize d t c = Inr (raw, map (\<lambda>sl. meta_ResourceVersion (slice_ObjectMeta sl)) slices)"
      if "ListEndpointSlices d t (serviceNamespace c ref) [(''kubernetes.io/service-name'', ServiceRef_Name ref)] = Inr slices"
        "MarshalCLA d (SynthesizeCLA (ClusterName (Cluster_Spec c)) slices (ServiceRef_Port ref)) = Inr raw" for t slices raw
      using that ref by (simp add: synthesize_def cluster_slices_def)
    have cons: "\<exists>xs'. list_all2 (\<lambda>c y. \<exists>u \<in> T. synthesize d u c = Inr y) (c # cs') xs' \<and>
        (specs @ raw # map fst xs, vers @ map rv slices @ concat (map snd xs)) = (specs @ map fst xs', vers @ concat (map snd xs'))"
      if "t \<in> T" "synthesize d t c = Inr (raw, map rv slices)" "list_all2 (\<lambda>c y. \<exists>u \<in> T. synthesize d u c = Inr y) cs' xs"
      for t raw rv and slices :: "EndpointSlice list" and cs' xs
      using that by (intro exI [of _ "(raw, map rv slices) # xs"]) auto
    have "ensures d T I (collectSynthesized_prog d m (specs @ [raw])
          (foldl (\<lambda>vs sl. vs @ [meta_ResourceVersion (slice_ObjectMeta sl)]) vers slices) cs)
        (\<lambda>r l'. l' = l \<and> (\<forall>x. r = Inr x \<longrightarrow>
          (\<exists>xs. list_all2 (\<lambda>c y. \<exists>u \<in> T. synthesize d u c = Inr y) (c # filter (eligible names) cs) xs \<and>
             x = (specs @ map fst xs, vers @ concat (map snd xs))))) l"
      if "t \<in> T" "Inr slices = ListEndpointSlices d t (serviceNamespace c ref) [(''kubernetes.io/service-name'', ServiceRef_Name ref)]"
        "MarshalCLA d (SynthesizeCLA (ClusterName (Cluster_Spec c)) slices (ServiceRef_Port ref)) = Inr raw" for t slices raw
      using cons [OF that(1) syn [OF that(2) [symmetric] that(3)]]
      by (intro ensures_mono [OF Cons.IH]) (auto simp: go_loop)
    with True ref name show ?thesis
      by (auto simp: assms Let_def list_reply_def split: sum.split)
  qed
qed simp

lemma ensures_collectEndpoints:
  "ensures d T I (collectEndpoints_prog d ns name cs) (\<lambda>r l'. l' = l \<and> (\<forall>x. r = Inr x \<longrightarrow> torn_endpoints d T ns name cs x)) l"
proof -
  have names: "gomap_get (fold (\<lambda>i. gomap_set (ClusterName (ClusterLoadAssignment_Spec i)) True) (manual_items ns name clas) []) k
      = Some True \<longleftrightarrow> k \<in> manual_names ns name clas" for k clas
    using manualNames_get [of ns name clas k] by (simp add: collectManual_eq)
  have "ensures d T I (let (specs, versions, manualNames) = collectManual ns name clas in collectSynthesized_prog d manualNames specs versions cs)
      (\<lambda>r l'. l' = l \<and> (\<forall>x. r = Inr x \<longrightarrow> torn_endpoints d T ns name cs x)) l"
    if "t \<in> T" "ListCLAs d t = Inr clas" for t clas
    unfolding collectManual_eq Let_def prod.case torn_endpoints_def
    by (rule ensures_mono [OF ensures_collectSynthesized [OF names]]) (use that in blast)
  then show ?thesis
    by (auto simp: collectEndpoints_prog_def list_reply_def split: sum.split)
qed


lemma ensures_setCondition:
  assumes "\<And>r. Q (snd r) (l @ [Reported (with_condition d ep ct st rs msg) r])"
  shows "ensures d T I (setCondition_prog d ep ct st rs msg) Q l"
  using assms by (simp add: setCondition_prog_def with_condition_def Let_def split: prod.split option.split) force

lemma ensures_publish:
  assumes ep: "t \<in> T" "GetEnvoyProxy d t req = Inr ep"
    and col: "torn_collected d T (meta_Namespace (EnvoyProxy_ObjectMeta ep)) (meta_Name (EnvoyProxy_ObjectMeta ep)) (ls, cs, rs, srs, es, vers)"
  shows "ensures d T (publishable d T req)
    (publish_prog d ep (computeVersion vers) (BuildSnapshot (UnmarshalResource d) (NewSnapshot d) (computeVersion vers) ls cs rs srs es))
    (reconcile_outcome d T req) []"
proof (cases "BuildSnapshot (UnmarshalResource d) (NewSnapshot d) (computeVersion vers) ls cs rs srs es")
  case (Inl e)
  from reconcile_outcome.build_failed [OF ep col Inl] show ?thesis
    by (auto simp: Inl publish_prog_def ensures_bind intro: ensures_setCondition)
next
  case (Inr snap)
  with col have snap: "torn_snapshot d T ep (computeVersion vers) snap" unfolding torn_snapshot_def by blast
  with ep have "publishable d T req (nodeID ep) snap" by (auto simp: publishable_def)
  with reconcile_outcome.set_failed [OF ep snap] reconcile_outcome.reported [OF ep snap] Inr show ?thesis
    by (auto simp: publish_prog_def ensures_bind intro!: ensures_setCondition split: option.split)
qed

lemma ensures_collect_prog:
  assumes "t \<in> T" and "GetEnvoyProxy d t req = Inr ep"
  shows "ensures d T (publishable d T req) (collect_prog d ep) (reconcile_outcome d T req) []"
proof -
  let ?E = "\<lambda>p. ensures d T (publishable d T req) p (reconcile_outcome d T req) []"
  have step: "?E (prog_try prefix p f)"
    if "ensures d T (publishable d T req) p (\<lambda>r l'. l' = [] \<and> (\<forall>x. r = Inr x \<longrightarrow> P x)) []"
      "prefix \<in> {''collect listeners: '', ''collect clusters: '', ''collect routes: '', ''collect scoped routes: '', ''collect endpoints: ''}"
      "\<And>x. P x \<Longrightarrow> ?E (f x)" for prefix and p :: "(_, 'x result) prog" and P f
    using that by (intro ensures_try) (auto intro!: ensures_mono [OF that(1)] reconcile_outcome.collect_failed)
  show ?thesis
    unfolding collect_prog_def Let_def
    apply (rule step [OF ensures_collect(1)], simp, clarsimp)
    apply (rule step [OF ensures_collect(2)], simp, clarsimp)
    apply (rule step [OF ensures_collect(3)], simp, clarsimp)
    apply (rule step [OF ensures_collect(4)], simp, clarsimp)
    apply (rule step [OF ensures_collectEndpoints], simp, clarsimp)
    apply (rule ensures_publish [OF assms], unfold torn_collected_def, blast)
    done
qed

text \<open>
  However the reads of a reconcile are answered from the states it runs through, every snapshot it publishes is one
  that it collected and built from those reads, and its result and its effects belong together.
\<close>

lemma Reconcile_prog_ensures:
  "ensures d T (publishable d T req) (Reconcile_prog d req) (reconcile_outcome d T req) []"
proof -
  have "ensures d T (publishable d T req) (Return (IgnoreNotFound d err)) (reconcile_outcome d T req) []"
    if "IgnoreNotFound d err \<noteq> None \<or> (\<exists>t \<in> T. Inl err = GetEnvoyProxy d t req)" for err
    using that by (cases "IgnoreNotFound d err") (auto intro: reconcile_outcome.missing [OF _ sym] reconcile_outcome.get_failed)
  then show ?thesis
    by (auto simp: Reconcile_prog_def get_reply_def simp del: ensures.simps(1) split: sum.split
        intro: ensures_collect_prog [OF _ sym])
qed


section \<open>Reads that do not differ in what matters\<close>

text \<open>
  A reconcile whose reads saw states which are all the same to its proxy collects and builds what
  it would have in any one of them.
\<close>

lemma torn_endpoints_view:
  assumes "\<forall>t \<in> T. same_view d ns name t u" and "collectClusters d u ns name = Inr (specs, vers, cs)"
    and "torn_endpoints d T ns name cs x"
  shows "collectEndpoints d u ns name cs = Inr x"
proof -
  from assms(3) obtain t clas xs where t: "t \<in> T" "ListCLAs d t = Inr clas"
    and xs: "list_all2 (\<lambda>c y. \<exists>u \<in> T. synthesize d u c = Inr y) (filter (eligible (manual_names ns name clas)) cs) xs"
    and x: "x = (map ClusterLoadAssignment_Spec (manual_items ns name clas) @ map fst xs,
      map (\<lambda>i. meta_ResourceVersion (ClusterLoadAssignment_ObjectMeta i)) (manual_items ns name clas) @ concat (map snd xs))"
    unfolding torn_endpoints_def by blast
  from assms(1) t have "result_bind (ListCLAs d u) (\<lambda>clas. Inr (manual_items ns name clas)) = Inr (manual_items ns name clas)"
    unfolding same_view_def by (metis result_bind_simps(2))
  then obtain clas' where clas': "ListCLAs d u = Inr clas'" "manual_items ns name clas' = manual_items ns name clas"
    by (auto simp: result_bind_Inr_iff)
  have same: "synthesize d u c = synthesize d t c" if "t \<in> T" "c \<in> set cs" for t c
    using that assms(1,2) by (auto simp: synthesize_def same_view_def split: option.split)
  have "list_all2 (\<lambda>c y. \<exists>u \<in> T. synthesize d u c = Inr y) cs' ys \<Longrightarrow> set cs' \<subseteq> set cs \<Longrightarrow> synthesize_all d u cs' = Inr ys" for cs' ys
    by (induction rule: list_all2_induct) (auto simp: same)
  with xs have "synthesize_all d u (filter (eligible (manual_names ns name clas)) cs) = Inr xs" by simp
  with clas' show ?thesis by (simp add: collectEndpoints_eq x manual_names_def)
qed

lemma torn_collected_view:
  assumes "\<forall>t \<in> T. same_view d ns name t u" and "torn_collected d T ns name x"
  shows "collectAll d u ns name = Inr x"
proof -
  from assms(2) obtain ls lv cs cv items rs rv srs sv es ev where
    parts: "\<exists>t \<in> T. collectListeners d t ns name = Inr (ls, lv)" "\<exists>t \<in> T. collectClusters d t ns name = Inr (cs, cv, items)"
      "\<exists>t \<in> T. collectRoutes d t ns name = Inr (rs, rv)" "\<exists>t \<in> T. collectScopedRoutes d t ns name = Inr (srs, sv)"
      "torn_endpoints d T ns name items (es, ev)" "x = (ls, cs, rs, srs, es, [lv, cv, rv, sv, ev])"
    unfolding torn_collected_def by blast
  have view: "collectListeners d t ns name = collectListeners d u ns name" "collectClusters d t ns name = collectClusters d u ns name"
      "collectRoutes d t ns name = collectRoutes d u ns name" "collectScopedRoutes d t ns name = collectScopedRoutes d u ns name"
    if "t \<in> T" for t using assms(1) that by (simp_all add: same_view_def)
  from parts view have "collectListeners d u ns name = Inr (ls, lv)" "collectClusters d u ns name = Inr (cs, cv, items)"
      "collectRoutes d u ns name = Inr (rs, rv)" "collectScopedRoutes d u ns name = Inr (srs, sv)" by auto
  with torn_endpoints_view [OF assms(1) this(2) parts(5)] parts(6) show ?thesis by (simp add: collectAll_def)
qed

lemma torn_snapshot_view:
  assumes "\<forall>t \<in> T. same_view d (meta_Namespace (EnvoyProxy_ObjectMeta ep)) (meta_Name (EnvoyProxy_ObjectMeta ep)) t u"
    and "torn_snapshot d T ep version snap"
  shows "proxy_snapshot d u ep = Inr (version, snap)"
  using assms(2) torn_collected_view [OF assms(1)] by (auto simp: torn_snapshot_def proxy_snapshot_def)

section \<open>Steps of a running program\<close>

text \<open>
  One call of a program in the world as it is, with the events the call causes. Reads can fail.
  A status update is written at once, and an update that writes nothing causes no event;
  or the reply comes first and what it wrote is seen by the client later, as a change of the API.
\<close>

inductive call_step ::
  "('s, 'res, 'snap, 'cache) deps \<Rightarrow> ('s, 'cache) world \<Rightarrow> 'snap effect list \<Rightarrow> ('snap, 'a) prog \<Rightarrow> client_object list \<Rightarrow>
   ('s, 'cache) world \<Rightarrow> 'snap effect list \<Rightarrow> ('snap, 'a) prog \<Rightarrow> bool"
  for d :: "('s, 'res, 'snap, 'cache) deps" and w :: "('s, 'cache) world" and l :: "'snap effect list" where
  do_get: "get_reply d {w_api w} q x \<Longrightarrow> call_step d w l (CallGet q k) [] w l (k x)"
| do_listeners: "list_reply {w_api w} (ListListeners d) ls \<Longrightarrow> call_step d w l (CallListListeners kl) [] w l (kl ls)"
| do_clusters: "list_reply {w_api w} (ListClusters d) cs \<Longrightarrow> call_step d w l (CallListClusters kc) [] w l (kc cs)"
| do_routes: "list_reply {w_api w} (ListRoutes d) rs \<Longrightarrow> call_step d w l (CallListRoutes kr) [] w l (kr rs)"
| do_scoped: "list_reply {w_api w} (ListScopedRoutes d) srs \<Longrightarrow> call_step d w l (CallListScopedRoutes ks) [] w l (ks srs)"
| do_clas: "list_reply {w_api w} (ListCLAs d) clas \<Longrightarrow> call_step d w l (CallListCLAs ka) [] w l (ka clas)"
| do_slices: "list_reply {w_api w} (\<lambda>t. ListEndpointSlices d t ns labels) es \<Longrightarrow>
    call_step d w l (CallListEndpointSlices ns labels ke) [] w l (ke es)"
| do_set: "SetSnapshot d (Cache (w_xds w)) n snap = (err, cache') \<Longrightarrow>
    call_step d w l (CallSetSnapshot n snap kp) [] (w\<lparr>w_xds := (w_xds w)\<lparr>Cache := cache'\<rparr>\<rparr>) (l @ [Published n snap err]) (kp err)"
| do_connected: "call_step d w l (CallIsConnected n ki) [] w l (ki (IsConnected (w_xds w) n))"
| do_update: "StatusUpdate d (w_api w) ep = (err, ep', s') \<Longrightarrow>
    call_step d w l (CallStatusUpdate ep ku) (if s' = w_api w then [] else [ObjEnvoyProxy ep])
      (w\<lparr>w_api := s', w_updates := w_updates w @ [ep]\<rparr>) (l @ [Reported ep (err, ep')]) (ku (err, ep'))"
| do_update_later:
    "call_step d w l (CallStatusUpdate ep ku) [] (w\<lparr>w_updates := w_updates w @ [ep]\<rparr>) (l @ [Reported ep r]) (ku r)"
| do_log: "call_step d w l (CallLogError t e p) [] (w\<lparr>w_errors := w_errors w @ [(t, e)]\<rparr>) l p"

lemma call_step_ensures:
  assumes "call_step d w l p evs w' l' p'" and "ensures d T I p Q l" and "w_api w \<in> T"
  shows "ensures d T I p' Q l'"
  using assms by cases (auto intro: reply_mono [of "{w_api w}" T])

text \<open>What a call changes: of the API only status, of the cache only what it publishes.\<close>

lemma call_step_cases:
  assumes "call_step d w l p evs w' l' p'"
  obtains (quiet) "Cache (w_xds w') = Cache (w_xds w)" "\<And>n snap err. Published n snap err \<in> set l' \<longleftrightarrow> Published n snap err \<in> set l"
  | (publish) n snap k where "p = CallSetSnapshot n snap k" "w_api w' = w_api w"
      "Cache (w_xds w') = snd (SetSnapshot d (Cache (w_xds w)) n snap)"
      "l' = l @ [Published n snap (fst (SetSnapshot d (Cache (w_xds w)) n snap))]"
  using assms
proof cases
  case (do_set n snap err cache' k)
  then show thesis by (intro publish [of n snap k]) simp_all
qed (rule quiet; simp)+

lemma call_step_api:
  assumes "call_step d w l p evs w' l' p'"
  shows "w_api w' = w_api w \<or> (\<exists>ep. w_api w' = snd (snd (StatusUpdate d (w_api w) ep)))"
  using assms
proof cases
  case (do_update ep err ep' s' k)
  then have "w_api w' = snd (snd (StatusUpdate d (w_api w) ep))" by simp
  then show ?thesis by blast
qed simp_all

text \<open>Several calls of one program with nothing in between.\<close>

inductive call_steps ::
  "('s, 'res, 'snap, 'cache) deps \<Rightarrow> ('s, 'cache) world \<Rightarrow> 'snap effect list \<Rightarrow> ('snap, 'a) prog \<Rightarrow> client_object list \<Rightarrow>
   ('s, 'cache) world \<Rightarrow> 'snap effect list \<Rightarrow> ('snap, 'a) prog \<Rightarrow> bool"
  for d :: "('s, 'res, 'snap, 'cache) deps" where
  steps_refl: "call_steps d w l p [] w l p"
| steps_more: "call_step d w l p evs w1 l1 p1 \<Longrightarrow> call_steps d w1 l1 p1 evs' w2 l2 p2 \<Longrightarrow>
    call_steps d w l p (evs @ evs') w2 l2 p2"

end
