(* ===== verification/Status_Writes.thy ===== *)
theory Status_Writes
  imports Client_Calls
begin

text \<open>
  What a reconcile writes to the API and reads back: status updates leave everything a reconcile
  reads as it is, but each one that changes the stored proxy is an event on the proxy, and
  the controller watches proxies without a filter. So a reconcile requests itself again. The
  last section shows what a second reconcile writes: nothing, if it collects what the first did.
\<close>

section \<open>Promises of the environment\<close>

text \<open>All that a reconcile or a handler reads is the same in two states.\<close>

definition same_reads :: "('s, 'res, 'snap, 'cache) deps \<Rightarrow> 's \<Rightarrow> 's \<Rightarrow> bool" where
  "same_reads d s s' \<longleftrightarrow>
     ListListeners d s' = ListListeners d s \<and> ListClusters d s' = ListClusters d s \<and> ListRoutes d s' = ListRoutes d s \<and>
     ListScopedRoutes d s' = ListScopedRoutes d s \<and> ListCLAs d s' = ListCLAs d s \<and>
     ListEndpointSlices d s' = ListEndpointSlices d s \<and>
     (\<forall>req err. GetEnvoyProxy d s' req = Inl err \<longleftrightarrow> GetEnvoyProxy d s req = Inl err)"

text \<open>
  An update through the status subresource changes nothing of that: neither a list, nor
  whether a proxy exists. Namespaces of existing objects contain no dot.
\<close>

definition status_reads_law :: "('s, 'res, 'snap, 'cache) deps \<Rightarrow> bool" where
  "status_reads_law d \<longleftrightarrow> (\<forall>s ep. same_reads d s (snd (snd (StatusUpdate d s ep))))"

definition namespace_law :: "('s, 'res, 'snap, 'cache) deps \<Rightarrow> bool" where
  "namespace_law d \<longleftrightarrow> (\<forall>s req ep. GetEnvoyProxy d s req = Inr ep \<longrightarrow> CHR ''.'' \<notin> set (nn_Namespace req))"

text \<open>
  Conditions are a map by type, and setting a condition that is there already changes nothing.
  An update of the status of the stored proxy is stored and returned, with the generation as it was
  and the other proxies too, and one that changes nothing writes nothing.
\<close>

definition status_write_law :: "('s, 'res, 'snap, 'cache) deps \<Rightarrow> bool" where
  "status_write_law d \<longleftrightarrow> condition_law d \<and>
     (\<forall>cs c. distinct (map cond_Type cs) \<and> c \<in> set cs \<longrightarrow> SetStatusCondition d cs c = cs) \<and>
     (\<forall>s req ep. GetEnvoyProxy d s req = Inr ep \<longrightarrow> distinct_conditions ep \<and> StatusUpdate d s ep = (None, ep, s) \<and>
        (\<forall>st. distinct (map cond_Type (status_Conditions st)) \<longrightarrow> (\<exists>ep' s'. StatusUpdate d s (ep\<lparr>EnvoyProxy_Status := st\<rparr>) = (None, ep', s') \<and> GetEnvoyProxy d s' req = Inr ep' \<and>
           EnvoyProxy_Status ep' = st \<and> meta_Generation (EnvoyProxy_ObjectMeta ep') = meta_Generation (EnvoyProxy_ObjectMeta ep) \<and>
           (\<forall>other. other \<noteq> req \<longrightarrow> GetEnvoyProxy d s' other = GetEnvoyProxy d s other))))"

text \<open>The promises that the convergence of the controller needs.\<close>

definition mesh_env :: "('s, 'res, 'snap, 'cache) deps \<Rightarrow> ('cache \<Rightarrow> string \<Rightarrow> 'snap option) \<Rightarrow> bool" where
  "mesh_env d get \<longleftrightarrow> cache_laws d get \<and> get_law d \<and> status_reads_law d \<and> namespace_law d"

lemma mesh_envD:
  assumes "mesh_env d get"
  shows "cache_laws d get" "get_law d" "status_reads_law d" "namespace_law d"
  using assms by (simp_all add: mesh_env_def)

lemma same_reads_refl [simp]: "same_reads d s s"
  by (simp add: same_reads_def)

lemma same_reads_trans: "same_reads d s t \<Longrightarrow> same_reads d t u \<Longrightarrow> same_reads d s u"
  by (simp add: same_reads_def)

lemma same_reads_view: "same_reads d s s' \<Longrightarrow> same_view d ns name s s'"
  by (simp add: same_reads_def same_view_def collectListeners_def collectClusters_def collectRoutes_def
      collectScopedRoutes_def cluster_slices_def)

lemma proxy_key_None: "proxy_key d s req = None \<longleftrightarrow> (\<exists>err. GetEnvoyProxy d s req = Inl err)"
  by (simp add: proxy_key_def split: sum.split)

lemma proxy_key_get_law:
  assumes "get_law d"
  shows "proxy_key d s req = (if \<exists>err. GetEnvoyProxy d s req = Inl err then None else Some req)"
  using assms by (auto simp: proxy_key_def get_law_def split: sum.split)

lemma same_reads_config:
  assumes "get_law d" and "same_reads d s s'"
  shows "same_config d s s'"
  using assms(2) same_view_collectAll [OF same_reads_view [OF assms(2)]]
  by (simp add: same_config_def proxy_key_get_law [OF assms(1)] same_reads_def)

lemma Reconcile_reads: "status_reads_law d \<Longrightarrow> same_reads d (w_api w) (w_api (snd (Reconcile d w req)))"
  by (rule Reconcile_api) (auto simp: status_reads_law_def intro: same_reads_trans)

text \<open>
  An API state in which every reconcile can succeed: missing proxies are reported as such, the
  snapshot of every proxy can be built, and the cache takes it.
\<close>

definition reconcilable :: "('s, 'res, 'snap, 'cache) deps \<Rightarrow> 's \<Rightarrow> bool" where
  "reconcilable d s \<longleftrightarrow>
     (\<forall>r err. GetEnvoyProxy d s r = Inl err \<longrightarrow> IgnoreNotFound d err = None) \<and>
     (\<forall>r ep. GetEnvoyProxy d s r = Inr ep \<longrightarrow> (\<exists>version snap. key_snapshot d s r = Inr (version, snap))) \<and>
     (\<forall>c n snap. fst (SetSnapshot d c n snap) = None)"

lemma reconcilable_ok:
  assumes "get_law d" and "reconcilable d (w_api w)"
  shows "fst (Reconcile d w r) = None"
proof (cases "GetEnvoyProxy d (w_api w) r")
  case (Inl err)
  with assms(2) show ?thesis by (simp add: Reconcile_missing reconcilable_def)
next
  case (Inr ep)
  with assms obtain version snap where ps: "proxy_snapshot d (w_api w) ep = Inr (version, snap)"
    unfolding reconcilable_def by (metis proxy_snapshot_key)
  obtain cache' where "SetSnapshot d (Cache (w_xds w)) (nodeID ep) snap = (None, cache')"
    using assms(2) by (metis reconcilable_def prod.collapse)
  with Inr ps show ?thesis by (simp add: Reconcile_ok)
qed

lemma reconcilable_reads:
  assumes "get_law d" and "same_reads d s s'" and "reconcilable d s"
  shows "reconcilable d s'"
proof -
  have same: "key_snapshot d s' r = key_snapshot d s r" for r
    by (rule key_snapshot_config [OF same_reads_config [OF assms(1,2)]])
  have found: "\<exists>ep'. GetEnvoyProxy d s r = Inr ep'" if "GetEnvoyProxy d s' r = Inr ep" for r ep
    using assms(2) that unfolding same_reads_def by (metis sum.exhaust sum.distinct(1))
  with assms(2,3) same show ?thesis by (auto simp: reconcilable_def same_reads_def)
qed

section \<open>The events of a program that runs alone\<close>

definition status_events :: "'s \<Rightarrow> EnvoyProxy \<Rightarrow> 's \<Rightarrow> client_object list" where
  "status_events s ep s' = (if s' = s then [] else [ObjEnvoyProxy ep])"

primrec run_events :: "('s, 'res, 'snap, 'cache) deps \<Rightarrow> ('snap, 'a) prog \<Rightarrow> ('s, 'cache) world \<Rightarrow> client_object list" where
  "run_events d (Return x) w = []"
| "run_events d (CallGet q k) w = run_events d (k (GetEnvoyProxy d (w_api w) q)) w"
| "run_events d (CallListListeners k) w = run_events d (k (ListListeners d (w_api w))) w"
| "run_events d (CallListClusters k) w = run_events d (k (ListClusters d (w_api w))) w"
| "run_events d (CallListRoutes k) w = run_events d (k (ListRoutes d (w_api w))) w"
| "run_events d (CallListScopedRoutes k) w = run_events d (k (ListScopedRoutes d (w_api w))) w"
| "run_events d (CallListCLAs k) w = run_events d (k (ListCLAs d (w_api w))) w"
| "run_events d (CallListEndpointSlices ns labels k) w = run_events d (k (ListEndpointSlices d (w_api w) ns labels)) w"
| "run_events d (CallSetSnapshot n snap k) w =
     (let (err, cache') = SetSnapshot d (Cache (w_xds w)) n snap in
      run_events d (k err) (w\<lparr>w_xds := (w_xds w)\<lparr>Cache := cache'\<rparr>\<rparr>))"
| "run_events d (CallIsConnected n k) w = run_events d (k (IsConnected (w_xds w) n)) w"
| "run_events d (CallStatusUpdate ep k) w =
     (let (err, ep', s') = StatusUpdate d (w_api w) ep in
      status_events (w_api w) ep s' @ run_events d (k (err, ep')) (w\<lparr>w_api := s', w_updates := w_updates w @ [ep]\<rparr>))"
| "run_events d (CallLogError t e p) w = run_events d p (w\<lparr>w_errors := w_errors w @ [(t, e)]\<rparr>)"

lemma run_events_bind:
  "run_events d (prog_bind p f) w = run_events d p w @ (let (x, w') = run_prog d p w in run_events d (f x) w')"
  by (induction p arbitrary: w) (simp_all add: Let_def split_def)

text \<open>A program can always run to its end, with the result and the events of the run alone.\<close>

lemma run_steps:
  "\<exists>l'. call_steps d w l p (run_events d p w) (snd (run_prog d p w)) l' (Return (fst (run_prog d p w)))"
proof (induction p arbitrary: w l)
  case (CallGet q k)
  then show ?case using call_steps.steps_more [OF call_step.do_get] by (fastforce simp: get_reply_def)
next
  case (CallListListeners k)
  then show ?case using call_steps.steps_more [OF call_step.do_listeners] by (fastforce simp: list_reply_def)
next
  case (CallListClusters k)
  then show ?case using call_steps.steps_more [OF call_step.do_clusters] by (fastforce simp: list_reply_def)
next
  case (CallListRoutes k)
  then show ?case using call_steps.steps_more [OF call_step.do_routes] by (fastforce simp: list_reply_def)
next
  case (CallListScopedRoutes k)
  then show ?case using call_steps.steps_more [OF call_step.do_scoped] by (fastforce simp: list_reply_def)
next
  case (CallListCLAs k)
  then show ?case using call_steps.steps_more [OF call_step.do_clas] by (fastforce simp: list_reply_def)
next
  case (CallListEndpointSlices ns labels k)
  then show ?case using call_steps.steps_more [OF call_step.do_slices] by (fastforce simp: list_reply_def)
next
  case (CallSetSnapshot n snap k)
  then show ?case using call_steps.steps_more [OF call_step.do_set] by (fastforce split: prod.split)
next
  case (CallIsConnected n k)
  then show ?case using call_steps.steps_more [OF call_step.do_connected] by fastforce
next
  case (CallStatusUpdate ep k)
  then show ?case using call_steps.steps_more [OF call_step.do_update] by (fastforce simp: status_events_def split: prod.split)
next
  case (CallLogError t e p)
  then show ?case using call_steps.steps_more [OF call_step.do_log] by fastforce
qed (auto intro: steps_refl)

text \<open>Each program here reads first.\<close>

lemma run_events_try:
  assumes "run_prog d p w = (r, w)" and "run_events d p w = []"
  shows "run_events d (prog_try prefix p f) w = (case r of Inl e \<Rightarrow> [] | Inr x \<Rightarrow> run_events d (f x) w)"
  by (simp add: prog_try_def run_events_bind assms split: sum.split)

lemma run_events_collect:
  "run_events d (collectListeners_prog ns name) w = []" "run_events d (collectClusters_prog ns name) w = []"
  "run_events d (collectRoutes_prog ns name) w = []" "run_events d (collectScopedRoutes_prog ns name) w = []"
  by (simp_all add: collectListeners_prog_def collectClusters_prog_def collectRoutes_prog_def collectScopedRoutes_prog_def)

lemma run_events_collectSynthesized: "run_events d (collectSynthesized_prog d names specs vers cs) w = []"
  by (induction d names specs vers cs rule: collectSynthesized_prog.induct) (auto simp: Let_def split: option.split sum.split)

lemma run_events_collectEndpoints: "run_events d (collectEndpoints_prog d ns name cs) w = []"
  by (simp add: collectEndpoints_prog_def run_events_collectSynthesized Let_def split: sum.split prod.split)

lemma run_events_setCondition:
  "run_events d (setCondition_prog d ep ct st rs msg) w =
     status_events (w_api w) (with_condition d ep ct st rs msg) (w_api (snd (setCondition d w ep ct st rs msg)))"
  by (simp add: setCondition_prog_def setCondition_def with_condition_def Let_def split: prod.split option.split)

lemmas run_events_rules = run_events_try run_collect run_collectEndpoints run_events_collect run_events_collectEndpoints

lemma Reconcile_missing_events:
  "GetEnvoyProxy d (w_api w) req = Inl err \<Longrightarrow> run_events d (Reconcile_prog d req) w = []"
  by (simp add: Reconcile_prog_def)

lemma Reconcile_ok_events:
  assumes "GetEnvoyProxy d (w_api w) req = Inr ep" and "proxy_snapshot d (w_api w) ep = Inr (version, snap)"
    and "SetSnapshot d (Cache (w_xds w)) (nodeID ep) snap = (None, cache')"
  shows "run_events d (Reconcile_prog d req) w =
    (let u1 = with_condition d ep ConditionConnected (if IsConnected (w_xds w) (nodeID ep) then ConditionTrue else ConditionFalse)
           ''StreamStatus'' [];
         (e1, ep1, s1) = StatusUpdate d (w_api w) u1;
         u2 = with_condition d ep1 ConditionReady ConditionTrue ''SnapshotReady'' (''version='' @ version)
     in status_events (w_api w) u1 s1 @ status_events s1 u2 (snd (snd (StatusUpdate d s1 u2))))"
  using assms
  by (auto simp: Reconcile_prog_def collect_prog_def collectAll_def proxy_snapshot_def run_events_rules result_bind_Inr_iff publish_prog_def
      run_events_bind run_events_setCondition run_setCondition setCondition_api setCondition_proxy IsConnected_def Let_def split_def)


section \<open>A reconcile that follows its own status updates\<close>

lemma status_writeD:
  assumes "status_write_law d" and "GetEnvoyProxy d s req = Inr ep"
  shows "distinct_conditions ep" "StatusUpdate d s ep = (None, ep, s)"
    "\<exists>ep' s'. StatusUpdate d s (with_condition d ep ct st rs msg) = (None, ep', s') \<and> GetEnvoyProxy d s' req = Inr ep' \<and>
       EnvoyProxy_Status ep' = EnvoyProxy_Status (with_condition d ep ct st rs msg) \<and>
       meta_Generation (EnvoyProxy_ObjectMeta ep') = meta_Generation (EnvoyProxy_ObjectMeta ep) \<and>
       (\<forall>other. other \<noteq> req \<longrightarrow> GetEnvoyProxy d s' other = GetEnvoyProxy d s other)"
proof -
  have "\<exists>ep' s'. StatusUpdate d s (ep\<lparr>EnvoyProxy_Status := x\<rparr>) = (None, ep', s') \<and> GetEnvoyProxy d s' req = Inr ep' \<and>
      EnvoyProxy_Status ep' = x \<and> meta_Generation (EnvoyProxy_ObjectMeta ep') = meta_Generation (EnvoyProxy_ObjectMeta ep) \<and>
      (\<forall>other. other \<noteq> req \<longrightarrow> GetEnvoyProxy d s' other = GetEnvoyProxy d s other)"
    if "distinct (map cond_Type (status_Conditions x))" for x
    using assms that unfolding status_write_law_def by blast
  moreover have "distinct_conditions (with_condition d ep ct st rs msg)"
    using assms unfolding status_write_law_def by (blast intro: distinct_with_condition)
  ultimately show "\<exists>ep' s'. StatusUpdate d s (with_condition d ep ct st rs msg) = (None, ep', s') \<and> GetEnvoyProxy d s' req = Inr ep' \<and>
       EnvoyProxy_Status ep' = EnvoyProxy_Status (with_condition d ep ct st rs msg) \<and>
       meta_Generation (EnvoyProxy_ObjectMeta ep') = meta_Generation (EnvoyProxy_ObjectMeta ep) \<and>
       (\<forall>other. other \<noteq> req \<longrightarrow> GetEnvoyProxy d s' other = GetEnvoyProxy d s other)"
    by (simp add: with_condition_def distinct_conditions_def)
  show "distinct_conditions ep" "StatusUpdate d s ep = (None, ep, s)"
    using assms unfolding status_write_law_def by blast+
qed

text \<open>A condition that was reported already is reported again without a change.\<close>

lemma with_condition_keep:
  assumes "status_write_law d" and "distinct_conditions ep"
    and "condition_of ep ct = [\<lparr>cond_Type = ct, cond_Status = st, cond_Reason = rs, cond_Message = msg,
      cond_ObservedGeneration = meta_Generation (EnvoyProxy_ObjectMeta ep)\<rparr>]"
    and "status_ObservedGeneration (EnvoyProxy_Status ep) = meta_Generation (EnvoyProxy_ObjectMeta ep)"
  shows "with_condition d ep ct st rs msg = ep"
proof -
  let ?c = "\<lparr>cond_Type = ct, cond_Status = st, cond_Reason = rs, cond_Message = msg,
    cond_ObservedGeneration = meta_Generation (EnvoyProxy_ObjectMeta ep)\<rparr>"
  from assms(3) have "?c \<in> set (condition_of ep ct)" by simp
  then have "?c \<in> set (status_Conditions (EnvoyProxy_Status ep))" by (simp add: condition_of_def)
  with assms(1,2) have "SetStatusCondition d (status_Conditions (EnvoyProxy_Status ep)) ?c = status_Conditions (EnvoyProxy_Status ep)"
    unfolding status_write_law_def distinct_conditions_def by blast
  with assms(4) show ?thesis by (simp add: with_condition_def)
qed

text \<open>The two updates of a successful reconcile, and the proxy that is stored then.\<close>

lemma report_success_stored:
  assumes law: "status_write_law d" and ep: "GetEnvoyProxy d (w_api w) req = Inr ep"
  defines "conn \<equiv> if IsConnected (w_xds w) (nodeID ep) then ConditionTrue else ConditionFalse"
  obtains ep2 where "GetEnvoyProxy d (w_api (report_success d w ep version)) req = Inr ep2"
    "\<And>other. other \<noteq> req \<Longrightarrow> GetEnvoyProxy d (w_api (report_success d w ep version)) other = GetEnvoyProxy d (w_api w) other"
    "with_condition d ep2 ConditionConnected conn ''StreamStatus'' [] = ep2"
    "with_condition d ep2 ConditionReady ConditionTrue ''SnapshotReady'' (''version='' @ version) = ep2"
proof -
  have cl: "condition_law d" using law by (simp add: status_write_law_def)
  let ?u1 = "with_condition d ep ConditionConnected conn ''StreamStatus'' []"
  obtain ep1 s1 where 1: "StatusUpdate d (w_api w) ?u1 = (None, ep1, s1)" "GetEnvoyProxy d s1 req = Inr ep1"
    "EnvoyProxy_Status ep1 = EnvoyProxy_Status ?u1" "meta_Generation (EnvoyProxy_ObjectMeta ep1) = meta_Generation (EnvoyProxy_ObjectMeta ep)"
    "\<And>other. other \<noteq> req \<Longrightarrow> GetEnvoyProxy d s1 other = GetEnvoyProxy d (w_api w) other"
    using status_writeD(3) [OF law ep] by blast
  let ?u2 = "with_condition d ep1 ConditionReady ConditionTrue ''SnapshotReady'' (''version='' @ version)"
  obtain ep2 s2 where 2: "StatusUpdate d s1 ?u2 = (None, ep2, s2)" "GetEnvoyProxy d s2 req = Inr ep2"
    "EnvoyProxy_Status ep2 = EnvoyProxy_Status ?u2" "meta_Generation (EnvoyProxy_ObjectMeta ep2) = meta_Generation (EnvoyProxy_ObjectMeta ep1)"
    "\<And>other. other \<noteq> req \<Longrightarrow> GetEnvoyProxy d s2 other = GetEnvoyProxy d s1 other"
    using status_writeD(3) [OF law 1(2)] by blast
  have stored: "w_api (report_success d w ep version) = s2"
    by (simp add: report_success_def split_def setCondition_api setCondition_proxy 1(1) 2(1) del: append_Cons flip: conn_def)
  note dist = status_writeD(1) [OF law]
  have cond: "condition_of ep2 t = condition_of ?u2 t" "condition_of ep1 t = condition_of ?u1 t" for t
    by (simp_all add: condition_of_def 1(3) 2(3))
  have gen: "status_ObservedGeneration (EnvoyProxy_Status ep2) = meta_Generation (EnvoyProxy_ObjectMeta ep2)"
    by (simp add: 2(3,4)) (simp add: with_condition_def)
  have "with_condition d ep2 ConditionConnected conn ''StreamStatus'' [] = ep2"
    by (rule with_condition_keep [OF law dist [OF 2(2)] _ gen])
      (simp add: cond condition_of_with_condition [OF cl dist [OF 1(2)]] condition_of_with_condition [OF cl dist [OF ep]] 2(4) 1(4))
  moreover have "with_condition d ep2 ConditionReady ConditionTrue ''SnapshotReady'' (''version='' @ version) = ep2"
    by (rule with_condition_keep [OF law dist [OF 2(2)] _ gen])
      (simp add: cond condition_of_with_condition [OF cl dist [OF 1(2)]] 2(4))
  ultimately show thesis using that 2(2,5) 1(5) stored by simp
qed

lemma Reconcile_stored:
  assumes law: "status_write_law d" and ep: "GetEnvoyProxy d (w_api w) req = Inr ep" and first: "Reconcile d w req = (None, w1)"
  obtains ep2 version snap where "GetEnvoyProxy d (w_api w1) req = Inr ep2" "proxy_snapshot d (w_api w) ep = Inr (version, snap)"
    "connected (w_xds w1) = connected (w_xds w)"
    "\<And>other. other \<noteq> req \<Longrightarrow> GetEnvoyProxy d (w_api w1) other = GetEnvoyProxy d (w_api w) other"
    "with_condition d ep2 ConditionConnected (if IsConnected (w_xds w) (nodeID ep) then ConditionTrue else ConditionFalse) ''StreamStatus'' [] = ep2"
    "with_condition d ep2 ConditionReady ConditionTrue ''SnapshotReady'' (''version='' @ version) = ep2"
proof (cases rule: Reconcile_cases [of d w req])
  case (ok ep' version snap cache')
  let ?w = "w\<lparr>w_xds := (w_xds w)\<lparr>Cache := cache'\<rparr>\<rparr>"
  from ok ep first have w1: "w1 = report_success d ?w ep version" and ep': "ep' = ep" by (simp_all add: Reconcile_ok)
  have "GetEnvoyProxy d (w_api ?w) req = Inr ep" "IsConnected (w_xds ?w) n = IsConnected (w_xds w) n" for n
    using ep by (simp_all add: IsConnected_def)
  note stored = report_success_stored [OF law this(1), of version, unfolded this(2), folded w1]
  show thesis
    by (rule stored) (rule that [OF _ ok(2) [unfolded ep']]; simp add: w1)
qed (use first ep in \<open>simp_all add: Reconcile_rules\<close>)

text \<open>The stored status of a proxy is what a reconcile in this world would report.\<close>

definition status_current :: "('s, 'res, 'snap, 'cache) deps \<Rightarrow> ('s, 'cache) world \<Rightarrow> NamespacedName \<Rightarrow> bool" where
  "status_current d w req \<longleftrightarrow> (\<forall>ep. GetEnvoyProxy d (w_api w) req = Inr ep \<longrightarrow>
     (\<exists>version snap. proxy_snapshot d (w_api w) ep = Inr (version, snap) \<and>
        with_condition d ep ConditionConnected (if IsConnected (w_xds w) (nodeID ep) then ConditionTrue else ConditionFalse) ''StreamStatus'' [] = ep \<and>
        with_condition d ep ConditionReady ConditionTrue ''SnapshotReady'' (''version='' @ version) = ep))"

lemma status_current_quiet:
  assumes law: "status_write_law d" and cur: "status_current d w req" and ok: "fst (Reconcile d w req) = None"
  shows "run_events d (Reconcile_prog d req) w = [] \<and> w_api (snd (Reconcile d w req)) = w_api w"
proof (cases rule: Reconcile_cases [of d w req])
  case (missing err)
  then show ?thesis by (simp add: Reconcile_missing_events Reconcile_missing)
next
  case (ok ep version snap cache')
  with cur have "with_condition d ep ConditionConnected (if IsConnected (w_xds w) (nodeID ep) then ConditionTrue else ConditionFalse) ''StreamStatus'' [] = ep"
      "with_condition d ep ConditionReady ConditionTrue ''SnapshotReady'' (''version='' @ version) = ep"
    unfolding status_current_def by auto
  with ok status_writeD(2) [OF law ok(1)] show ?thesis
    by (simp add: Reconcile_ok_events Reconcile_ok report_success_def split_def setCondition_api setCondition_proxy
        IsConnected_def status_events_def Let_def)
qed (use ok in \<open>simp_all add: Reconcile_rules\<close>)

lemma Reconcile_status_current:
  assumes law: "status_write_law d" "get_law d" "status_reads_law d" and first: "Reconcile d w req = (None, w1)"
  shows "status_current d w1 req"
proof (cases "GetEnvoyProxy d (w_api w) req")
  case (Inl err)
  with first show ?thesis by (simp add: Reconcile_missing status_current_def)
next
  case (Inr ep)
  let ?conn = "if IsConnected (w_xds w) (nodeID ep) then ConditionTrue else ConditionFalse"
  obtain ep2 version snap where ep2: "GetEnvoyProxy d (w_api w1) req = Inr ep2"
    "with_condition d ep2 ConditionConnected ?conn ''StreamStatus'' [] = ep2"
    "with_condition d ep2 ConditionReady ConditionTrue ''SnapshotReady'' (''version='' @ version) = ep2"
    and ok: "proxy_snapshot d (w_api w) ep = Inr (version, snap)" "connected (w_xds w1) = connected (w_xds w)"
    using Reconcile_stored [OF law(1) Inr first] by metis
  have "same_config d (w_api w) (w_api w1)"
    using same_reads_config [OF law(2) Reconcile_reads [OF law(3), of w req]] first by simp
  from key_snapshot_config [OF this] ok(1) have "proxy_snapshot d (w_api w1) ep2 = Inr (version, snap)"
    by (simp add: proxy_snapshot_key [OF law(2) Inr] proxy_snapshot_key [OF law(2) ep2(1)])
  moreover have "IsConnected (w_xds w1) (nodeID ep2) = IsConnected (w_xds w) (nodeID ep)"
    using nodeID_node_of [OF law(2) Inr] nodeID_node_of [OF law(2) ep2(1)] by (simp add: ok(2) IsConnected_def)
  ultimately show ?thesis using ep2 by (simp add: status_current_def)
qed

text \<open>A reconcile does not change what is to be reported for another proxy.\<close>

lemma status_current_other:
  assumes law: "status_write_law d" "get_law d" "status_reads_law d" and first: "Reconcile d w req = (None, w1)"
    and "status_current d w other" and "other \<noteq> req"
  shows "status_current d w1 other"
proof (cases "GetEnvoyProxy d (w_api w) req")
  case (Inl err)
  with first assms(5) show ?thesis by (simp add: Reconcile_missing)
next
  case (Inr ep)
  obtain ep2 where w1: "connected (w_xds w1) = connected (w_xds w)" "GetEnvoyProxy d (w_api w1) other = GetEnvoyProxy d (w_api w) other"
    using Reconcile_stored [OF law(1) Inr first] assms(6) by metis
  have "same_config d (w_api w) (w_api w1)"
    using same_reads_config [OF law(2) Reconcile_reads [OF law(3), of w req]] first by simp
  then have "proxy_snapshot d (w_api w1) ep' = proxy_snapshot d (w_api w) ep'" for ep'
    by (simp add: proxy_snapshot_def same_config_def)
  with assms(5) w1 show ?thesis by (simp add: status_current_def IsConnected_def)
qed

lemma Reconcile_again:
  assumes law: "status_write_law d" "get_law d" "status_reads_law d"
    and first: "Reconcile d w req = (None, w1)" and second: "fst (Reconcile d w1 req) = None"
  shows "run_events d (Reconcile_prog d req) w1 = [] \<and> w_api (snd (Reconcile d w1 req)) = w_api w1"
  by (rule status_current_quiet [OF law(1) Reconcile_status_current [OF law first] second])

text \<open>The events of a reconcile are events on its own proxy.\<close>

definition proxy_name :: "EnvoyProxy \<Rightarrow> NamespacedName" where
  "proxy_name e = \<lparr>nn_Name = meta_Name (EnvoyProxy_ObjectMeta e), nn_Namespace = meta_Namespace (EnvoyProxy_ObjectMeta e)\<rparr>"

lemma proxy_name_with_condition [simp]: "proxy_name (with_condition d ep ct st rs msg) = proxy_name ep"
  by (simp add: proxy_name_def with_condition_def)

lemma proxy_name_get: "get_law d \<Longrightarrow> GetEnvoyProxy d s req = Inr ep \<Longrightarrow> proxy_name ep = req"
  by (simp add: proxy_name_def get_law_def)

lemma Reconcile_own_events:
  assumes law: "status_write_law d" "get_law d" and ok: "fst (Reconcile d w req) = None"
    and ev: "ev \<in> set (run_events d (Reconcile_prog d req) w)"
  shows "\<exists>u. ev = ObjEnvoyProxy u \<and> proxy_name u = req"
proof (cases rule: Reconcile_cases [of d w req])
  case (missing err)
  with ev show ?thesis by (simp add: Reconcile_missing_events)
next
  case (ok ep version snap cache')
  let ?u1 = "with_condition d ep ConditionConnected (if IsConnected (w_xds w) (nodeID ep) then ConditionTrue else ConditionFalse)
    ''StreamStatus'' []"
  obtain ep1 s1 where 1: "StatusUpdate d (w_api w) ?u1 = (None, ep1, s1)" "GetEnvoyProxy d s1 req = Inr ep1"
    using status_writeD(3) [OF law(1) ok(1)] by blast
  with ev ok proxy_name_get [OF law(2)] show ?thesis
    by (auto simp: Reconcile_ok_events status_events_def Let_def split: if_splits)
qed (use ok in \<open>simp_all add: Reconcile_rules\<close>)


text \<open>
  An environment that stores the status of its one proxy, beside the listeners: updates are
  written if they change something, conditions are replaced if they differ.
\<close>

definition keep_condition :: "Condition list \<Rightarrow> Condition \<Rightarrow> Condition list" where
  "keep_condition cs c = (if c \<in> set cs then cs else replace_condition cs c)"

definition stored_status :: "EnvoyProxyStatus \<Rightarrow> EnvoyProxyStatus" where
  "stored_status st = (if distinct (map cond_Type (status_Conditions st)) then st else st\<lparr>status_Conditions := []\<rparr>)"

definition stored_proxy :: "EnvoyProxyStatus \<Rightarrow> EnvoyProxy" where
  "stored_proxy st = (example_proxy ''edge'' ''default'')\<lparr>EnvoyProxy_Status := stored_status st\<rparr>"

definition example_store ::
  "(EnvoyProxyStatus \<times> Listener list, bytes, example_snapshot, (string, example_snapshot) gomap) deps" where
  "example_store = \<lparr>
     GetEnvoyProxy = (\<lambda>s req. if req = example_request then Inr (stored_proxy (fst s)) else Inl (GoError ''not found'')),
     IgnoreNotFound = IgnoreNotFound example_deps,
     ListListeners = (\<lambda>s. ListListeners example_deps (snd s)),
     ListClusters = (\<lambda>s. ListClusters example_deps (snd s)),
     ListRoutes = (\<lambda>s. ListRoutes example_deps (snd s)),
     ListScopedRoutes = (\<lambda>s. ListScopedRoutes example_deps (snd s)),
     ListCLAs = (\<lambda>s. ListCLAs example_deps (snd s)),
     ListEndpointSlices = (\<lambda>s. ListEndpointSlices example_deps (snd s)),
     MarshalCLA = MarshalCLA example_deps,
     UnmarshalResource = UnmarshalResource example_deps,
     NewSnapshot = NewSnapshot example_deps,
     SetSnapshot = SetSnapshot example_deps,
     SetStatusCondition = keep_condition,
     StatusUpdate = (\<lambda>s ep. (None, ep, if EnvoyProxy_Status ep = stored_status (fst s) then s else (EnvoyProxy_Status ep, snd s)))\<rparr>"

definition stored_world :: "(EnvoyProxyStatus \<times> Listener list, (string, example_snapshot) gomap) world" where
  "stored_world = \<lparr>w_api = (EnvoyProxy_Status (example_proxy ''edge'' ''default''), [example_listener]),
     w_xds = \<lparr>Cache = [], connected = []\<rparr>, w_errors = [], w_updates = []\<rparr>"

lemma store_get_law: "get_law example_store"
  by (auto simp: get_law_def example_store_def stored_proxy_def example_proxy_def example_request_def split: if_splits)

lemma store_mesh_env: "mesh_env example_store gomap_get"
proof -
  have "cache_laws example_store gomap_get" using example_cache_laws by (simp add: cache_laws_def example_store_def)
  moreover have "status_reads_law example_store"
    by (auto simp: status_reads_law_def example_store_def same_reads_def)
  moreover have "namespace_law example_store"
    by (auto simp: namespace_law_def example_store_def example_request_def split: if_splits)
  ultimately show ?thesis by (simp add: mesh_env_def store_get_law)
qed

lemma store_condition_law: "condition_law example_store"
proof -
  have "filter (\<lambda>x. cond_Type x = cond_Type c) cs = [c]" if "distinct (map cond_Type cs)" "c \<in> set cs" for cs :: "Condition list" and c
    using that by (induction cs) (auto simp: filter_empty_conv image_iff)
  then show ?thesis
    using example_condition_law
    by (auto simp: condition_law_def example_store_def example_deps_def keep_condition_def)
qed

lemma store_status_write_law: "status_write_law example_store"
  unfolding status_write_law_def
proof (intro conjI allI impI)
  show "condition_law example_store" by (rule store_condition_law)
  show "SetStatusCondition example_store cs c = cs" if "distinct (map cond_Type cs) \<and> c \<in> set cs" for cs c
    using that by (simp add: example_store_def keep_condition_def)
next
  fix s req ep assume "GetEnvoyProxy example_store s req = Inr ep"
  then have ep: "ep = stored_proxy (fst s)" "req = example_request" by (auto simp: example_store_def split: if_splits)
  then show "distinct_conditions ep" by (simp add: distinct_conditions_def stored_proxy_def stored_status_def)
  from ep show "StatusUpdate example_store s ep = (None, ep, s)" by (simp add: example_store_def stored_proxy_def)
  fix st :: EnvoyProxyStatus assume "distinct (map cond_Type (status_Conditions st))"
  with ep show "\<exists>ep' s'. StatusUpdate example_store s (ep\<lparr>EnvoyProxy_Status := st\<rparr>) = (None, ep', s') \<and>
      GetEnvoyProxy example_store s' req = Inr ep' \<and> EnvoyProxy_Status ep' = st \<and>
      meta_Generation (EnvoyProxy_ObjectMeta ep') = meta_Generation (EnvoyProxy_ObjectMeta ep) \<and>
      (\<forall>other. other \<noteq> req \<longrightarrow> GetEnvoyProxy example_store s' other = GetEnvoyProxy example_store s other)"
    by (auto simp: example_store_def stored_proxy_def stored_status_def)
qed

lemma example_collects: "\<exists>x. collectAll example_deps s ''default'' ''edge'' = Inr x"
proof -
  have lists: "ListListeners example_deps s = Inr s" "ListClusters example_deps s = Inr [example_cluster]"
      "ListRoutes example_deps s = Inr []" "ListScopedRoutes example_deps s = Inr []"
    by (simp_all add: example_deps_def)
  have "synthesize_all example_deps s cs = synthesize_all example_deps [example_listener] cs" for cs
    by (rule synthesize_all_cong) (simp add: cluster_slices_def example_deps_def)
  moreover have "ListCLAs example_deps s = ListCLAs example_deps [example_listener]" by (simp add: example_deps_def)
  ultimately have "collectEndpoints example_deps s ''default'' ''edge'' cs =
      collectEndpoints example_deps [example_listener] ''default'' ''edge'' cs" for cs
    by (simp add: collectEndpoints_eq)
  moreover have "collectClusters_items ''default'' ''edge'' [example_cluster] =
      ([Cluster_Spec example_cluster], [''11''], [example_cluster])"
    by (simp add: collectClusters_items_eq targetMatches_def example_cluster_def example_target_def example_meta_def)
  ultimately show ?thesis
    by (simp add: collectAll_def collectListeners_def collectClusters_def collectRoutes_def collectScopedRoutes_def
        lists example_endpoints split_def)
qed

lemma example_builds:
  "\<exists>snap. BuildSnapshot (UnmarshalResource example_deps) (NewSnapshot example_deps) v ls cs rs srs es = Inr snap"
  by (simp add: BuildSnapshot_def unmarshalAll_ok decodes_def list_all_iff example_deps_def)

lemma store_collectAll: "collectAll example_store s ns name = collectAll example_deps (snd s) ns name"
proof -
  have "cluster_slices example_store s c ref = cluster_slices example_deps (snd s) c ref" for c ref
    by (simp add: cluster_slices_def example_store_def)
  then have "synthesize example_store s c = synthesize example_deps (snd s) c" for c
    by (simp add: synthesize_def example_store_def split: option.split)
  then have "synthesize_all example_store s cs = synthesize_all example_deps (snd s) cs" for cs
    by (induction cs) simp_all
  then have "collectEndpoints example_store s ns name cs = collectEndpoints example_deps (snd s) ns name cs" for cs
    by (simp add: collectEndpoints_eq) (simp add: example_store_def)
  then show ?thesis
    by (simp add: collectAll_def collectListeners_def collectClusters_def collectRoutes_def collectScopedRoutes_def)
      (simp add: example_store_def)
qed

lemma store_reconcilable: "reconcilable example_store s"
proof -
  have "r = example_request" if "GetEnvoyProxy example_store s r = Inr ep" for r ep
    using that by (auto simp: example_store_def split: if_splits)
  moreover have "\<exists>version snap. key_snapshot example_store s example_request = Inr (version, snap)"
  proof -
    from example_collects obtain ls cs rs srs es vers where
      "collectAll example_deps (snd s) ''default'' ''edge'' = Inr (ls, cs, rs, srs, es, vers)" by (metis prod_cases6)
    moreover have "UnmarshalResource example_store = UnmarshalResource example_deps" "NewSnapshot example_store = NewSnapshot example_deps"
      by (simp_all add: example_store_def)
    moreover note example_builds [of "computeVersion vers" ls cs rs srs es]
    ultimately show ?thesis
      by (auto simp: key_snapshot_def example_request_def store_collectAll)
  qed
  moreover have "GetEnvoyProxy example_store s r = Inl err \<Longrightarrow> IgnoreNotFound example_store err = None" for r err
    by (simp add: example_store_def example_deps_def split: if_splits)
  moreover have "fst (SetSnapshot example_store c n snap) = None" for c n snap by (simp add: example_store_def example_deps_def)
  ultimately show ?thesis unfolding reconcilable_def by blast
qed

lemma store_get: "GetEnvoyProxy example_store s example_request = Inr (stored_proxy (fst s))"
  by (simp add: example_store_def)

end
