(* ===== verification/Controller.thy ===== *)
theory Controller
  imports Status_Writes
begin

text \<open>
  The controller that \<open>SetupWithManager\<close> (\<open>internal/controller/envoyproxy_controller.go\<close>) builds, with
  all that can happen between and during its reconciles.

  An API change is seen by the client at once, but its event waits until a handler maps it to
  requests with \<open>watchRequests\<close>; requests wait in the work queue; one reconcile runs at a time, call
  by call, and between two of its calls anything else may happen. Each of its reads shows
  the API as it is at that moment, or fails. A failed reconcile is queued again. The list of
  clusters that the handler of endpoint slices makes can fail too, and then the event is
  lost, as the code says. Status updates cause events like all other changes.
\<close>

section \<open>The controller\<close>

text \<open>
  A running reconcile: its request and the calls it still has to make. For the record only:
  the API states there have been since it started, and its effects so far.
\<close>

record ('s, 'snap) running =
  run_request :: NamespacedName
  run_seen :: "'s set"
  run_log :: "'snap effect list"
  run_rest :: "('snap, go_error option) prog"

text \<open>
  The state of the running controller: the world, the events that wait for their handler, the
  requests in the work queue, the running reconcile, and, for the record only, the requests
  of lost events that no reconcile has started for since.
\<close>

record ('s, 'snap, 'cache) controller =
  c_world :: "('s, 'cache) world"
  c_events :: "client_object list"
  c_queue :: "NamespacedName set"
  c_active :: "('s, 'snap) running option"
  c_lost :: "NamespacedName set"

abbreviation c_api :: "('s, 'snap, 'cache) controller \<Rightarrow> 's" where
  "c_api c \<equiv> w_api (c_world c)"

text \<open>
  A change of one object, added or removed; an update is a removal and an addition, as the
  handlers get both the old and the new object. Only a proxy's own event changes what a
  get of it returns.
\<close>

definition object_changed ::
  "('s, 'res, 'snap, 'cache) deps \<Rightarrow> client_object \<Rightarrow> 's \<Rightarrow> 's \<Rightarrow> bool" where
  "object_changed d obj s s' \<longleftrightarrow> (object_removed d obj s s' \<or> object_removed d obj s' s) \<and>
     (\<forall>req. (\<exists>e. obj = ObjEnvoyProxy e \<and> req = proxy_name e) \<or> GetEnvoyProxy d s' req = GetEnvoyProxy d s req)"

text \<open>A reconcile at its start.\<close>

definition started :: "('s, 'res, 'snap, 'cache) deps \<Rightarrow> NamespacedName \<Rightarrow> 's \<Rightarrow> ('s, 'snap) running" where
  "started d r s = \<lparr>run_request = r, run_seen = {s}, run_log = [], run_rest = Reconcile_prog d r\<rparr>"

inductive controller_step ::
  "('s, 'res, 'snap, 'cache) deps \<Rightarrow> ('s, 'snap, 'cache) controller \<Rightarrow> ('s, 'snap, 'cache) controller \<Rightarrow> bool"
  for d :: "('s, 'res, 'snap, 'cache) deps" where
  api_change: "object_changed d obj (c_api c) s' \<Longrightarrow>
    controller_step d c (c\<lparr>c_world := (c_world c)\<lparr>w_api := s'\<rparr>, c_events := c_events c @ [obj],
      c_active := map_option (\<lambda>a. a\<lparr>run_seen := insert s' (run_seen a)\<rparr>) (c_active c)\<rparr>)"
| handle: "c_events c = xs @ obj # ys \<Longrightarrow>
    controller_step d c (c\<lparr>c_events := xs @ ys, c_queue := c_queue c \<union> set (watchRequests d (c_api c) obj)\<rparr>)"
| lose: "c_events c = xs @ obj # ys \<Longrightarrow> obj = ObjEndpointSlice sl \<Longrightarrow>
    controller_step d c (c\<lparr>c_events := xs @ ys, c_lost := c_lost c \<union> set (watchRequests d (c_api c) obj),
      c_queue := c_queue c \<union> set (watchRequests (d\<lparr>ListClusters := \<lambda>s. Inl err\<rparr>) (c_api c) obj)\<rparr>)"
| resync: "controller_step d c (c\<lparr>c_queue := insert r (c_queue c)\<rparr>)"
| pick: "c_active c = None \<Longrightarrow> r \<in> c_queue c \<Longrightarrow>
    controller_step d c (c\<lparr>c_queue := c_queue c - {r}, c_active := Some (started d r (c_api c)), c_lost := c_lost c - {r}\<rparr>)"
| call: "c_active c = Some a \<Longrightarrow> call_step d (c_world c) (run_log a) (run_rest a) evs w' l' p' \<Longrightarrow>
    controller_step d c (c\<lparr>c_world := w', c_events := c_events c @ evs,
      c_active := Some (a\<lparr>run_seen := insert (w_api w') (run_seen a), run_log := l', run_rest := p'\<rparr>)\<rparr>)"
| finish: "c_active c = Some a \<Longrightarrow> run_rest a = Return err \<Longrightarrow>
    controller_step d c (c\<lparr>c_active := None,
      c_queue := (if err = None then c_queue c else insert (run_request a) (c_queue c))\<rparr>)"
| stream: "controller_step d c (c\<lparr>c_world := (c_world c)\<lparr>w_xds := handle_event ev (w_xds (c_world c))\<rparr>\<rparr>)"

text \<open>The start: nothing runs or was lost, and the first listing gives an event for every proxy.\<close>

definition controller_start :: "('s, 'res, 'snap, 'cache) deps \<Rightarrow> ('s, 'snap, 'cache) controller \<Rightarrow> bool" where
  "controller_start d c \<longleftrightarrow> c_active c = None \<and> c_queue c = {} \<and> c_lost c = {} \<and>
     (\<forall>req ep. GetEnvoyProxy d (c_api c) req = Inr ep \<longrightarrow> (\<exists>e. ObjEnvoyProxy e \<in> set (c_events c) \<and> proxy_name e = req))"

lemma watchRequests_cong:
  "ListClusters d s' = ListClusters d s \<Longrightarrow> watchRequests d s' obj = watchRequests d s obj"
  unfolding watchRequests_def mapEndpointSliceToProxies_def by metis

section \<open>The running reconcile\<close>

text \<open>
  The invariant of the running reconcile: the current state is among the recorded ones, and however the
  calls that are left are answered, what the reconcile publishes and returns is what
  \<open>Reconcile_prog_ensures\<close> says of the whole.
\<close>

definition running_ok :: "('s, 'res, 'snap, 'cache) deps \<Rightarrow> ('s, 'snap, 'cache) controller \<Rightarrow> bool" where
  "running_ok d c \<longleftrightarrow> (\<forall>a. c_active c = Some a \<longrightarrow> c_api c \<in> run_seen a \<and>
     (\<forall>T. run_seen a \<subseteq> T \<longrightarrow>
        ensures d T (publishable d T (run_request a)) (run_rest a) (reconcile_outcome d T (run_request a)) (run_log a)))"

lemma running_ok_step:
  assumes "controller_step d c c'" and "running_ok d c"
  shows "running_ok d c'"
  using assms(1)
proof (cases rule: controller_step.cases)
  case (pick r)
  then show ?thesis by (simp add: running_ok_def started_def Reconcile_prog_ensures)
next
  case (call a evs w' l' p')
  with assms(2) show ?thesis by (auto simp: running_ok_def intro: call_step_ensures)
qed (use assms(2) in \<open>auto simp: running_ok_def\<close>)

lemma running_ok_reachable:
  assumes "c_active c0 = None" and "(controller_step d)\<^sup>*\<^sup>* c0 c"
  shows "running_ok d c"
  using assms(2) by induction (simp add: running_ok_def assms(1), rule running_ok_step)

lemma running_publishes:
  assumes "running_ok d c" and "c_active c = Some a" and "run_rest a = CallSetSnapshot n snap k"
  shows "publishable d (run_seen a) (run_request a) n snap"
  using assms unfolding running_ok_def by (metis ensures.simps(9) subset_refl)

lemma running_returns:
  assumes "running_ok d c" and "c_active c = Some a" and "run_rest a = Return err"
  shows "reconcile_outcome d (run_seen a) (run_request a) err (run_log a)"
  using assms unfolding running_ok_def by (metis ensures.simps(1) subset_refl)

lemma call_step_reads: "status_reads_law d \<Longrightarrow> call_step d w l p evs w' l' p' \<Longrightarrow> same_reads d (w_api w) (w_api w')"
  by (drule call_step_api) (auto simp: status_reads_law_def)

section \<open>No request is forgotten\<close>

text \<open>Nothing that matters to the proxy of a request differs between two states.\<close>

definition unchanged :: "('s, 'res, 'snap, 'cache) deps \<Rightarrow> NamespacedName \<Rightarrow> 's \<Rightarrow> 's \<Rightarrow> bool" where
  "unchanged d r s s' \<longleftrightarrow> same_view d (nn_Namespace r) (nn_Name r) s s' \<and> proxy_key d s r = proxy_key d s' r"

lemma unchanged_refl [simp]: "unchanged d r s s"
  by (simp add: unchanged_def)

lemma unchanged_trans: "unchanged d r s t \<Longrightarrow> unchanged d r t u \<Longrightarrow> unchanged d r s u"
  by (auto simp: unchanged_def intro: same_view_trans)

lemma same_reads_unchanged: "get_law d \<Longrightarrow> same_reads d s s' \<Longrightarrow> unchanged d r s s'"
  using same_reads_config [of d s s'] same_reads_view [of d s s'] by (simp add: unchanged_def same_config_def)

lemma key_snapshot_unchanged: "unchanged d r s s' \<Longrightarrow> key_snapshot d s' r = key_snapshot d s r"
  using same_view_collectAll [of d "nn_Namespace r" "nn_Name r" s s'] by (simp add: unchanged_def key_snapshot_def)

lemma up_to_date_unchanged:
  assumes "unchanged d r (w_api w) (w_api w')"
    and "get (Cache (w_xds w')) (node_of r) = get (Cache (w_xds w)) (node_of r)"
  shows "up_to_date d get w' r \<longleftrightarrow> up_to_date d get w r"
  using assms key_snapshot_unchanged [OF assms(1)] by (simp add: up_to_date_def unchanged_def)

lemma object_removed_clusters:
  "object_removed d (ObjEndpointSlice sl) s s' \<Longrightarrow> ListClusters d s' = ListClusters d s"
  by (simp add: object_removed_def as_Cluster_def list_without_def)

lemma object_changed_watch:
  assumes "object_changed d obj s s'"
  shows "watchRequests d s' obj = watchRequests d s obj"
proof (cases obj)
  case (ObjEndpointSlice sl)
  with assms have "ListClusters d s' = ListClusters d s"
    by (auto simp: object_changed_def dest: object_removed_clusters)
  then show ?thesis by (rule watchRequests_cong)
qed (simp_all add: watchRequests_def)

text \<open>A change whose event requests another proxy leaves this one unchanged.\<close>

lemma object_changed_unchanged:
  assumes "object_changed d obj s s'" and "r \<notin> set (watchRequests d s' obj)"
  shows "unchanged d r s s'"
proof -
  have key: "\<lparr>nn_Name = nn_Name r, nn_Namespace = nn_Namespace r\<rparr> = r" by simp
  from assms(2) have "r \<notin> set (watchRequests d s obj)" by (simp add: object_changed_watch [OF assms(1)])
  with assms have "same_view d (nn_Namespace r) (nn_Name r) s s'"
    unfolding object_changed_def
    using unrequested_same_view [of d obj s s' "nn_Name r" "nn_Namespace r", unfolded key]
      same_view_sym [OF unrequested_same_view [of d obj s' s "nn_Name r" "nn_Namespace r", unfolded key]] by blast
  moreover have "GetEnvoyProxy d s' r = GetEnvoyProxy d s r"
    using assms by (auto simp: object_changed_def watchRequests_def proxy_name_def)
  ultimately show ?thesis by (simp add: unchanged_def proxy_key_def)
qed

text \<open>
  An event that waits keeps its request of a proxy through the changes that do not request the
  proxy: a slice may lose a cluster that leads to the proxy only by the event of that cluster.
\<close>

lemma waiting_request_kept:
  assumes "object_changed d obj s s'" and "r \<notin> set (watchRequests d s' obj)" and "r \<in> set (watchRequests d s ev)"
  shows "r \<in> set (watchRequests d s' ev)"
proof (cases "\<exists>sl. ev = ObjEndpointSlice sl")
  case False
  with assms(3) show ?thesis by (cases ev) (simp_all add: watchRequests_def)
next
  case True
  then have w: "watchRequests d t ev = mapEndpointSliceToProxies d t ev" for t by (auto simp: watchRequests_def)
  with assms(3) have "r \<in> set (mapEndpointSliceToProxies d s ev)" by simp
  then obtain svc items c where req: "gomap_get (GetLabels ev) ''kubernetes.io/service-name'' = Some svc"
      "ListClusters d s = Inr items" "c \<in> set items" "slice_request svc (GetNamespace ev) c = Some r"
    by (auto simp: mapEndpointSliceToProxies_request)
  have "as_Cluster obj \<noteq> Some c"
  proof
    assume "as_Cluster obj = Some c"
    then have "obj = ObjCluster c" by (simp add: as_kind_Some)
    with assms(2) req(4) show False
      by (auto simp: slice_request_Some watchRequests_def mapXDSResourceToProxy_key GetTargetRef_defs GetNamespace_def)
  qed
  moreover have "list_without (as_Cluster obj) (ListClusters d s) (ListClusters d s') \<or>
      list_without (as_Cluster obj) (ListClusters d s') (ListClusters d s)"
    using assms(1) by (auto simp: object_changed_def object_removed_def)
  ultimately obtain items' where "ListClusters d s' = Inr items'" "c \<in> set items'"
    using req(2,3) by (cases "as_Cluster obj"; cases "ListClusters d s'") (auto simp: list_without_def)
  with req(1,4) show ?thesis
    by (auto simp: w mapEndpointSliceToProxies_request)
qed

text \<open>
  The invariant of one request: its proxy is up to date and not being reconciled, or it is queued or lost, or an event
  that will request it waits, or it is being reconciled on states that do not differ from
  the current one in anything that matters to it, and up to date if its snapshot is published.
\<close>

definition published_ok :: "'snap effect list \<Rightarrow> bool" where
  "published_ok l \<longleftrightarrow> (\<exists>n snap. Published n snap None \<in> set l)"

definition on_track ::
  "('s, 'res, 'snap, 'cache) deps \<Rightarrow> ('cache \<Rightarrow> string \<Rightarrow> 'snap option) \<Rightarrow> ('s, 'cache) world \<Rightarrow> ('s, 'snap) running \<Rightarrow> bool" where
  "on_track d get w a \<longleftrightarrow> (\<forall>t \<in> run_seen a. unchanged d (run_request a) t (w_api w)) \<and>
     (published_ok (run_log a) \<longrightarrow> up_to_date d get w (run_request a))"

definition covered ::
  "('s, 'res, 'snap, 'cache) deps \<Rightarrow> ('cache \<Rightarrow> string \<Rightarrow> 'snap option) \<Rightarrow> ('s, 'snap, 'cache) controller \<Rightarrow> NamespacedName \<Rightarrow> bool" where
  "covered d get c r \<longleftrightarrow> up_to_date d get (c_world c) r \<and> (\<forall>a. c_active c = Some a \<longrightarrow> run_request a \<noteq> r) \<or>
     r \<in> c_queue c \<or> r \<in> c_lost c \<or> (\<exists>ev \<in> set (c_events c). r \<in> set (watchRequests d (c_api c) ev)) \<or>
     (\<exists>a. c_active c = Some a \<and> run_request a = r \<and> on_track d get (c_world c) a)"

lemma covered_cases:
  assumes "covered d get c r"
  obtains (done_with) "up_to_date d get (c_world c) r" "\<forall>a. c_active c = Some a \<longrightarrow> run_request a \<noteq> r"
  | (asked) "r \<in> c_queue c \<or> r \<in> c_lost c"
  | (waiting) ev where "ev \<in> set (c_events c)" "r \<in> set (watchRequests d (c_api c) ev)"
  | (running) a where "c_active c = Some a" "run_request a = r" "on_track d get (c_world c) a"
  using assms unfolding covered_def by blast

lemma covered_api_change:
  assumes "object_changed d obj (c_api c) s'" and "covered d get c r"
  shows "covered d get (c\<lparr>c_world := (c_world c)\<lparr>w_api := s'\<rparr>, c_events := c_events c @ [obj],
    c_active := map_option (\<lambda>a. a\<lparr>run_seen := insert s' (run_seen a)\<rparr>) (c_active c)\<rparr>) r"
proof (cases "r \<in> set (watchRequests d s' obj)")
  case True
  then show ?thesis by (simp add: covered_def)
next
  case False
  have same: "unchanged d r (c_api c) s'" by (rule object_changed_unchanged [OF assms(1) False])
  have up: "up_to_date d get ((c_world c)\<lparr>w_api := s'\<rparr>) r \<longleftrightarrow> up_to_date d get (c_world c) r"
    using same by (intro up_to_date_unchanged) simp_all
  from assms(2) show ?thesis
  proof (cases rule: covered_cases)
    case done_with
    then show ?thesis by (auto simp: covered_def up)
  next
    case asked
    then show ?thesis by (auto simp: covered_def)
  next
    case (waiting ev)
    then show ?thesis using waiting_request_kept [OF assms(1) False] by (auto simp: covered_def)
  next
    case (running a)
    then have "on_track d get ((c_world c)\<lparr>w_api := s'\<rparr>) (a\<lparr>run_seen := insert s' (run_seen a)\<rparr>)"
      using same up by (auto simp: on_track_def intro: unchanged_trans)
    with running show ?thesis by (simp add: covered_def)
  qed
qed

text \<open>A publication by a reconcile on track makes its proxy up to date, and no other one out of date.\<close>

lemma publishable_node:
  assumes "publishable d T r n snap" and env: "mesh_env d get"
  shows "n = node_of r" "CHR ''.'' \<notin> set (nn_Namespace r)"
  using assms(1) nodeID_node_of [OF mesh_envD(2) [OF env]] mesh_envD(4) [OF env]
  unfolding publishable_def namespace_law_def by blast+

lemma publishable_unchanged:
  assumes "publishable d T r n snap" and "\<forall>t \<in> T. unchanged d r t s" and env: "mesh_env d get"
  shows "\<exists>version. key_snapshot d s r = Inr (version, snap)"
proof -
  from assms(1) obtain t ep version where ep: "t \<in> T" "GetEnvoyProxy d t r = Inr ep" "torn_snapshot d T ep version snap"
    unfolding publishable_def by blast
  with mesh_envD(2) [OF env] have name: "meta_Namespace (EnvoyProxy_ObjectMeta ep) = nn_Namespace r"
      "meta_Name (EnvoyProxy_ObjectMeta ep) = nn_Name r" by (auto simp: get_law_def)
  with assms(2) ep(3) have "proxy_snapshot d s ep = Inr (version, snap)"
    by (intro torn_snapshot_view) (auto simp: unchanged_def)
  with name show ?thesis by (auto simp: proxy_snapshot_def key_snapshot_def)
qed

lemma publish_other:
  assumes "publishable d T r n snap" and "other \<noteq> r" and "up_to_date d get w other"
    and "w_api w' = w_api w" and "Cache (w_xds w') = snd (SetSnapshot d (Cache (w_xds w)) n snap)" and env: "mesh_env d get"
  shows "up_to_date d get w' other"
proof (cases "GetEnvoyProxy d (w_api w) other")
  case (Inl err)
  then show ?thesis by (simp add: up_to_date_def proxy_key_def assms(4))
next
  case (Inr ep)
  then have "CHR ''.'' \<notin> set (nn_Namespace other)" using mesh_envD(4) [OF env] unfolding namespace_law_def by blast
  with publishable_node [OF assms(1) env] assms(2) have "node_of other \<noteq> n" by (simp add: node_of_inj)
  with mesh_envD(1) [OF env] have "get (Cache (w_xds w')) (node_of other) = get (Cache (w_xds w)) (node_of other)"
    by (simp add: assms(5) cache_laws_def)
  with assms(3,4) show ?thesis by (simp add: up_to_date_def)
qed

lemma publish_own:
  assumes pub: "publishable d (run_seen a) (run_request a) n snap" and track: "on_track d get w a"
    and w': "w_api w' = w_api w" "Cache (w_xds w') = snd (SetSnapshot d (Cache (w_xds w)) n snap)" and env: "mesh_env d get"
    and ok: "published_ok (run_log a) \<or> fst (SetSnapshot d (Cache (w_xds w)) n snap) = None"
  shows "up_to_date d get w' (run_request a)"
proof -
  from track have same: "\<forall>t \<in> run_seen a. unchanged d (run_request a) t (w_api w)" by (simp add: on_track_def)
  obtain version where snap: "key_snapshot d (w_api w) (run_request a) = Inr (version, snap)"
    using publishable_unchanged [OF pub same env] by blast
  note n = publishable_node(1) [OF pub env]
  have entry: "get (Cache (w_xds w')) n \<in> {get (Cache (w_xds w)) n, Some snap}"
      "fst (SetSnapshot d (Cache (w_xds w)) n snap) = None \<Longrightarrow> get (Cache (w_xds w')) n = Some snap"
    using mesh_envD(1) [OF env] unfolding w'(2) cache_laws_def by blast+
  from ok show ?thesis
  proof
    assume "published_ok (run_log a)"
    with track have "up_to_date d get w (run_request a)" by (simp add: on_track_def)
    with snap entry(1) n show ?thesis by (auto simp: up_to_date_def w'(1))
  qed (use snap entry(2) n in \<open>simp add: up_to_date_def w'(1)\<close>)
qed

lemma covered_call:
  assumes act: "c_active c = Some a" and step: "call_step d (c_world c) (run_log a) (run_rest a) evs w' l' p'"
    and ok: "running_ok d c" and cov: "covered d get c r" and env: "mesh_env d get"
  shows "covered d get (c\<lparr>c_world := w', c_events := c_events c @ evs,
    c_active := Some (a\<lparr>run_seen := insert (w_api w') (run_seen a), run_log := l', run_rest := p'\<rparr>)\<rparr>) r"
proof -
  let ?a = "a\<lparr>run_seen := insert (w_api w') (run_seen a), run_log := l', run_rest := p'\<rparr>"
  note reads = call_step_reads [OF mesh_envD(3) [OF env] step]
  then have same: "unchanged d q (c_api c) (w_api w')" for q by (rule same_reads_unchanged [OF mesh_envD(2) [OF env]])
  have watch: "watchRequests d (w_api w') ev = watchRequests d (c_api c) ev" for ev
    using reads by (intro watchRequests_cong) (simp add: same_reads_def)
  have up: "up_to_date d get w' q" if "up_to_date d get (c_world c) q" "q \<noteq> run_request a" for q
    using step
  proof (cases rule: call_step_cases)
    case quiet
    with same have "up_to_date d get w' q \<longleftrightarrow> up_to_date d get (c_world c) q" by (intro up_to_date_unchanged) simp_all
    with that(1) show ?thesis by simp
  next
    case (publish n snap k)
    from publish_other [OF running_publishes [OF ok act publish(1)] that(2,1) publish(2,3) env] show ?thesis .
  qed
  have track: "on_track d get w' ?a" if t: "on_track d get (c_world c) a"
  proof -
    have "up_to_date d get w' (run_request a)" if "published_ok l'"
      using step
    proof (cases rule: call_step_cases)
      case quiet
      with that have "published_ok (run_log a)" by (simp add: published_ok_def)
      with t have "up_to_date d get (c_world c) (run_request a)" by (simp add: on_track_def)
      moreover from quiet(1) same have "up_to_date d get w' (run_request a) \<longleftrightarrow> up_to_date d get (c_world c) (run_request a)"
        by (intro up_to_date_unchanged) simp_all
      ultimately show ?thesis by simp
    next
      case (publish n snap k)
      from publish(4) that have "published_ok (run_log a) \<or> fst (SetSnapshot d (Cache (w_xds (c_world c))) n snap) = None"
        by (auto simp: published_ok_def)
      from publish_own [OF running_publishes [OF ok act publish(1)] t publish(2,3) env this] show ?thesis .
    qed
    with t same show ?thesis by (auto simp: on_track_def intro: unchanged_trans)
  qed
  from cov show ?thesis
    by (cases rule: covered_cases) (use act up track in \<open>auto simp: covered_def watch\<close>)
qed

lemma covered_finish:
  assumes act: "c_active c = Some a" and ret: "run_rest a = Return err" and ok: "running_ok d c" and cov: "covered d get c r"
  shows "covered d get (c\<lparr>c_active := None, c_queue := (if err = None then c_queue c else insert (run_request a) (c_queue c))\<rparr>) r"
proof -
  have "up_to_date d get (c_world c) (run_request a)" if track: "on_track d get (c_world c) a" and "err = None"
  proof -
    from running_returns [OF ok act ret] that(2)
    have "reconcile_outcome d (run_seen a) (run_request a) None (run_log a)" by simp
    then show ?thesis
    proof (cases rule: reconcile_outcome.cases)
      case (missing t e)
      with track have "proxy_key d (c_api c) (run_request a) = None"
        unfolding on_track_def unchanged_def by (metis proxy_key_None)
      then show ?thesis by (simp add: up_to_date_def)
    next
      case (reported t ep version snap st r1 r2)
      then have "published_ok (run_log a)" by (auto simp: published_ok_def)
      with track show ?thesis by (simp add: on_track_def)
    qed
  qed
  with cov act show ?thesis by (cases rule: covered_cases) (auto simp: covered_def)
qed

text \<open>Every step keeps every request covered.\<close>

lemma covered_step:
  assumes "controller_step d c c'" and "running_ok d c" and "covered d get c r" and env: "mesh_env d get"
  shows "covered d get c' r"
  using assms(1)
proof (cases rule: controller_step.cases)
  case (api_change obj s')
  show ?thesis unfolding api_change(1) by (rule covered_api_change [OF api_change(2) assms(3)])
next
  case (pick q)
  from assms(3) show ?thesis
    by (cases rule: covered_cases) (use pick in \<open>auto simp: covered_def started_def on_track_def published_ok_def\<close>)
next
  case (call a evs w' l' p')
  show ?thesis unfolding call(1) by (rule covered_call [OF call(2,3) assms(2,3) env])
next
  case (finish a err)
  show ?thesis unfolding finish(1) by (rule covered_finish [OF finish(2,3) assms(2,3)])
next
  case (stream ev)
  have "up_to_date d get ((c_world c)\<lparr>w_xds := handle_event ev (w_xds (c_world c))\<rparr>) r \<longleftrightarrow> up_to_date d get (c_world c) r" for r
    by (rule up_to_date_unchanged) simp_all
  with assms(3) stream show ?thesis by (simp add: covered_def on_track_def)
qed (use assms(3) in \<open>auto simp: covered_def\<close>)

lemma covered_start:
  assumes "controller_start d c"
  shows "covered d get c r"
proof (cases "GetEnvoyProxy d (c_api c) r")
  case (Inl err)
  with assms show ?thesis by (simp add: covered_def up_to_date_def proxy_key_def controller_start_def)
next
  case (Inr ep)
  with assms obtain e where "ObjEnvoyProxy e \<in> set (c_events c)" "proxy_name e = r"
    unfolding controller_start_def by blast
  then show ?thesis by (force simp: covered_def watchRequests_def proxy_name_def)
qed

lemma covered_reachable:
  assumes "controller_start d c0" and "(controller_step d)\<^sup>*\<^sup>* c0 c" and env: "mesh_env d get"
  shows "covered d get c r"
  using assms(2)
proof induction
  case base
  show ?case by (rule covered_start [OF assms(1)])
next
  case (step c c')
  from assms(1) have "c_active c0 = None" by (simp add: controller_start_def)
  from covered_step [OF step.hyps(2) running_ok_reachable [OF this step.hyps(1)] step.IH env] show ?case .
qed

text \<open>A request that is nowhere on its way is up to date.\<close>

lemma settled_up_to_date:
  assumes "controller_start d c0" and "(controller_step d)\<^sup>*\<^sup>* c0 c"
    and "r \<notin> c_queue c" and "r \<notin> c_lost c" and "\<forall>a. c_active c = Some a \<longrightarrow> run_request a \<noteq> r"
    and "\<forall>ev \<in> set (c_events c). r \<notin> set (watchRequests d (c_api c) ev)" and "mesh_env d get"
  shows "up_to_date d get (c_world c) r"
  using covered_reachable [OF assms(1,2,7), of r] assms(3-6) by (auto simp: covered_def)

text \<open>The same for a proxy: the cache holds the snapshot of the current configuration under its node id.\<close>

lemma settled_snapshot:
  assumes "mesh_env d get" and "controller_start d c0" and "(controller_step d)\<^sup>*\<^sup>* c0 c"
    and "r \<notin> c_queue c" and "r \<notin> c_lost c" and "\<forall>a. c_active c = Some a \<longrightarrow> run_request a \<noteq> r"
    and "\<forall>ev \<in> set (c_events c). r \<notin> set (watchRequests d (c_api c) ev)"
    and "GetEnvoyProxy d (c_api c) r = Inr ep"
  shows "\<exists>version snap. proxy_snapshot d (c_api c) ep = Inr (version, snap) \<and>
    get (Cache (w_xds (c_world c))) (nodeID ep) = Some snap"
proof -
  note law = mesh_envD(2) [OF assms(1)]
  from settled_up_to_date [OF assms(2-7,1)] assms(8) show ?thesis
    by (simp add: up_to_date_def proxy_key_def proxy_snapshot_key [OF law assms(8)] nodeID_node_of [OF law assms(8)])
qed

section \<open>Running on\<close>

definition quiet :: "('s, 'snap, 'cache) controller \<Rightarrow> bool" where
  "quiet c \<longleftrightarrow> c_events c = [] \<and> c_queue c = {} \<and> c_active c = None \<and> c_lost c = {}"

text \<open>The calls of the running reconcile, with nothing else in between.\<close>

lemma calls:
  assumes "call_steps d w l p evs w' l' p'"
  shows "c_world c = w \<Longrightarrow> c_active c = Some a \<Longrightarrow> run_log a = l \<Longrightarrow> run_rest a = p \<Longrightarrow>
    \<exists>T. (controller_step d)\<^sup>*\<^sup>* c (c\<lparr>c_world := w', c_events := c_events c @ evs,
      c_active := Some (a\<lparr>run_seen := T, run_log := l', run_rest := p'\<rparr>)\<rparr>)"
  using assms
proof (induction arbitrary: c a rule: call_steps.induct)
  case (steps_refl w l p)
  then have "c = c\<lparr>c_world := w, c_events := c_events c @ [], c_active := Some (a\<lparr>run_seen := run_seen a, run_log := l, run_rest := p\<rparr>)\<rparr>"
    by auto
  then show ?case by (metis rtranclp.rtrancl_refl)
next
  case (steps_more w l p evs w1 l1 p1 evs' w2 l2 p2)
  let ?a = "a\<lparr>run_seen := insert (w_api w1) (run_seen a), run_log := l1, run_rest := p1\<rparr>"
  let ?c = "c\<lparr>c_world := w1, c_events := c_events c @ evs, c_active := Some ?a\<rparr>"
  have "controller_step d c ?c"
    using controller_step.call [of c a d evs w1 l1 p1] steps_more.hyps(1) steps_more.prems by simp
  moreover obtain T where "(controller_step d)\<^sup>*\<^sup>* ?c (?c\<lparr>c_world := w2, c_events := c_events ?c @ evs',
      c_active := Some (?a\<lparr>run_seen := T, run_log := l2, run_rest := p2\<rparr>)\<rparr>)"
    using steps_more.IH [of ?c ?a] by auto
  ultimately show ?case by (auto intro: converse_rtranclp_into_rtranclp)
qed

lemma finish_active:
  fixes d :: "('s, 'res, 'snap, 'cache) deps"
  assumes "c_active c = Some a"
  defines "x \<equiv> run_prog d (run_rest a) (c_world c)"
  shows "(controller_step d)\<^sup>*\<^sup>* c (c\<lparr>c_world := snd x, c_events := c_events c @ run_events d (run_rest a) (c_world c),
    c_active := None, c_queue := (if fst x = None then c_queue c else insert (run_request a) (c_queue c))\<rparr>)"
proof -
  obtain l where "call_steps d (c_world c) (run_log a) (run_rest a) (run_events d (run_rest a) (c_world c)) (snd x) l (Return (fst x))"
    using run_steps unfolding x_def by metis
  from calls [OF this refl assms(1) refl refl] obtain T where steps:
    "(controller_step d)\<^sup>*\<^sup>* c (c\<lparr>c_world := snd x, c_events := c_events c @ run_events d (run_rest a) (c_world c),
      c_active := Some (a\<lparr>run_seen := T, run_log := l, run_rest := Return (fst x)\<rparr>)\<rparr>)" by blast
  let ?c = "c\<lparr>c_world := snd x, c_events := c_events c @ run_events d (run_rest a) (c_world c),
    c_active := Some (a\<lparr>run_seen := T, run_log := l, run_rest := Return (fst x)\<rparr>)\<rparr>"
  note steps
  moreover have "controller_step d ?c (?c\<lparr>c_active := None, c_queue := (if fst x = None then c_queue c else insert (run_request a) (c_queue c))\<rparr>)"
    using controller_step.finish [of ?c "a\<lparr>run_seen := T, run_log := l, run_rest := Return (fst x)\<rparr>" "fst x" d] by (cases "fst x") simp_all
  ultimately show ?thesis by (simp add: rtranclp.rtrancl_into_rtrancl)
qed

lemma run_prog_reads:
  assumes "status_reads_law d"
  shows "same_reads d (w_api w) (w_api (snd (run_prog d p w)))"
proof (induction p arbitrary: w)
  case (CallStatusUpdate ep k)
  from assms have "same_reads d (w_api w) (snd (snd (StatusUpdate d (w_api w) ep)))" by (simp add: status_reads_law_def)
  moreover have "same_reads d s (w_api (snd (run_prog d (k r) (w\<lparr>w_api := s, w_updates := us\<rparr>))))" for s r us
    using CallStatusUpdate [of "k r" "w\<lparr>w_api := s, w_updates := us\<rparr>"] by simp
  ultimately show ?case by (simp add: split_def Let_def) (blast intro: same_reads_trans)
next
  case (CallSetSnapshot n snap k)
  have "same_reads d (w_api (w\<lparr>w_xds := srv\<rparr>)) (w_api (snd (run_prog d (k err) (w\<lparr>w_xds := srv\<rparr>))))" for err srv
    by (rule CallSetSnapshot) simp
  then show ?case by (simp add: split_def Let_def)
next
  case (CallLogError t e p)
  from CallLogError [of "w\<lparr>w_errors := w_errors w @ [(t, e)]\<rparr>"] show ?case by simp
qed simp_all

lemma watchRequests_proxy: "watchRequests d s (ObjEnvoyProxy u) = [proxy_name u]"
  by (simp add: watchRequests_def proxy_name_def)

lemma reachable_queue:
  assumes "controller_start d c0" and "(controller_step d)\<^sup>*\<^sup>* c0 c"
  shows "finite (c_queue c)"
  using assms(2)
proof induction
  case base
  with assms(1) show ?case by (simp add: controller_start_def)
next
  case (step c c')
  from step.hyps(2) step.IH show ?case by cases auto
qed

end
