(* ===== verification/Settling.thy ===== *)
theory Settling
  imports Controller
begin

text \<open>
  The controller left alone: no object changes but by status updates, lists keep their order, no read fails, no stream
  opens or closes, no resync comes. Then every run ends, and it ends with nothing left to do. The
  difficulty is that a status update causes an event that requests its proxy again: the run
  ends only because a reconcile leaves its own status current (\<open>status_current\<close>), leaves
  that of other proxies as it is, and writes nothing when the status is current.
\<close>

section \<open>The next call of a program\<close>

text \<open>
  The call a program makes next, answered by the state as it is: the events it causes, the world
  and the effects after it, and the rest of the program.
\<close>

fun next_call ::
  "('s, 'res, 'snap, 'cache) deps \<Rightarrow> ('s, 'cache) world \<Rightarrow> 'snap effect list \<Rightarrow> ('snap, 'a) prog \<Rightarrow>
   (client_object list \<times> ('s, 'cache) world \<times> 'snap effect list \<times> ('snap, 'a) prog) option" where
  "next_call d w l (Return x) = None"
| "next_call d w l (CallGet q k) = Some ([], w, l, k (GetEnvoyProxy d (w_api w) q))"
| "next_call d w l (CallListListeners k) = Some ([], w, l, k (ListListeners d (w_api w)))"
| "next_call d w l (CallListClusters k) = Some ([], w, l, k (ListClusters d (w_api w)))"
| "next_call d w l (CallListRoutes k) = Some ([], w, l, k (ListRoutes d (w_api w)))"
| "next_call d w l (CallListScopedRoutes k) = Some ([], w, l, k (ListScopedRoutes d (w_api w)))"
| "next_call d w l (CallListCLAs k) = Some ([], w, l, k (ListCLAs d (w_api w)))"
| "next_call d w l (CallListEndpointSlices ns labels k) = Some ([], w, l, k (ListEndpointSlices d (w_api w) ns labels))"
| "next_call d w l (CallSetSnapshot n snap k) =
     (let (err, cache') = SetSnapshot d (Cache (w_xds w)) n snap in
      Some ([], w\<lparr>w_xds := (w_xds w)\<lparr>Cache := cache'\<rparr>\<rparr>, l @ [Published n snap err], k err))"
| "next_call d w l (CallIsConnected n k) = Some ([], w, l, k (IsConnected (w_xds w) n))"
| "next_call d w l (CallStatusUpdate ep k) =
     (let (err, ep', s') = StatusUpdate d (w_api w) ep in
      Some (status_events (w_api w) ep s', w\<lparr>w_api := s', w_updates := w_updates w @ [ep]\<rparr>, l @ [Reported ep (err, ep')], k (err, ep')))"
| "next_call d w l (CallLogError t e p) = Some ([], w\<lparr>w_errors := w_errors w @ [(t, e)]\<rparr>, l, p)"

primrec calls_left :: "('s, 'res, 'snap, 'cache) deps \<Rightarrow> ('snap, 'a) prog \<Rightarrow> ('s, 'cache) world \<Rightarrow> nat" where
  "calls_left d (Return x) w = 0"
| "calls_left d (CallGet q k) w = Suc (calls_left d (k (GetEnvoyProxy d (w_api w) q)) w)"
| "calls_left d (CallListListeners k) w = Suc (calls_left d (k (ListListeners d (w_api w))) w)"
| "calls_left d (CallListClusters k) w = Suc (calls_left d (k (ListClusters d (w_api w))) w)"
| "calls_left d (CallListRoutes k) w = Suc (calls_left d (k (ListRoutes d (w_api w))) w)"
| "calls_left d (CallListScopedRoutes k) w = Suc (calls_left d (k (ListScopedRoutes d (w_api w))) w)"
| "calls_left d (CallListCLAs k) w = Suc (calls_left d (k (ListCLAs d (w_api w))) w)"
| "calls_left d (CallListEndpointSlices ns labels k) w = Suc (calls_left d (k (ListEndpointSlices d (w_api w) ns labels)) w)"
| "calls_left d (CallSetSnapshot n snap k) w =
     (let (err, cache') = SetSnapshot d (Cache (w_xds w)) n snap in
      Suc (calls_left d (k err) (w\<lparr>w_xds := (w_xds w)\<lparr>Cache := cache'\<rparr>\<rparr>)))"
| "calls_left d (CallIsConnected n k) w = Suc (calls_left d (k (IsConnected (w_xds w) n)) w)"
| "calls_left d (CallStatusUpdate ep k) w =
     (let (err, ep', s') = StatusUpdate d (w_api w) ep in
      Suc (calls_left d (k (err, ep')) (w\<lparr>w_api := s', w_updates := w_updates w @ [ep]\<rparr>)))"
| "calls_left d (CallLogError t e p) w = Suc (calls_left d p (w\<lparr>w_errors := w_errors w @ [(t, e)]\<rparr>))"

lemma next_call_None: "next_call d w l p = None \<longleftrightarrow> (\<exists>x. p = Return x)"
  by (cases p) (auto split: prod.splits)

text \<open>The next call is one of the calls that can happen, and the rest of the run stays the same.\<close>

lemma next_call_step:
  assumes "next_call d w l p = Some (evs, w', l', p')"
  shows "call_step d w l p evs w' l' p'"
  using assms by (cases p) (auto simp: status_events_def get_reply_def list_reply_def split: prod.splits intro: call_step.intros
      call_step.do_update [of d w _ _ _ _ l, unfolded status_events_def [symmetric]])

lemma next_call_run:
  assumes "next_call d w l p = Some (evs, w', l', p')"
  shows "run_prog d p w = run_prog d p' w'" "run_events d p w = evs @ run_events d p' w'"
    "calls_left d p w = Suc (calls_left d p' w')"
  using assms by (cases p; auto split: prod.splits)+

section \<open>Undisturbed steps\<close>

inductive undisturbed_step ::
  "('s, 'res, 'snap, 'cache) deps \<Rightarrow> ('s, 'snap, 'cache) controller \<Rightarrow> ('s, 'snap, 'cache) controller \<Rightarrow> bool"
  for d :: "('s, 'res, 'snap, 'cache) deps" where
  u_handle: "c_events c = xs @ obj # ys \<Longrightarrow>
    undisturbed_step d c (c\<lparr>c_events := xs @ ys, c_queue := c_queue c \<union> set (watchRequests d (c_api c) obj)\<rparr>)"
| u_pick: "c_active c = None \<Longrightarrow> r \<in> c_queue c \<Longrightarrow>
    undisturbed_step d c (c\<lparr>c_queue := c_queue c - {r}, c_active := Some (started d r (c_api c)), c_lost := c_lost c - {r}\<rparr>)"
| u_call: "c_active c = Some a \<Longrightarrow> next_call d (c_world c) (run_log a) (run_rest a) = Some (evs, w', l', p') \<Longrightarrow>
    undisturbed_step d c (c\<lparr>c_world := w', c_events := c_events c @ evs,
      c_active := Some (a\<lparr>run_seen := insert (w_api w') (run_seen a), run_log := l', run_rest := p'\<rparr>)\<rparr>)"
| u_finish: "c_active c = Some a \<Longrightarrow> run_rest a = Return err \<Longrightarrow>
    undisturbed_step d c (c\<lparr>c_active := None,
      c_queue := (if err = None then c_queue c else insert (run_request a) (c_queue c))\<rparr>)"

lemma undisturbed_controller:
  assumes "undisturbed_step d c c'"
  shows "controller_step d c c'"
  using assms
proof cases
  case (u_call a evs w' l' p')
  then show ?thesis using controller_step.call [OF u_call(2) next_call_step [OF u_call(3)]] by blast
next
  case (u_finish a err)
  then show ?thesis using controller_step.finish [OF u_finish(2,3)] by blast
qed (auto intro: controller_step.handle controller_step.pick)

lemma undisturbed_stuck:
  assumes "\<nexists>c'. undisturbed_step d c c'"
  shows "c_events c = []" "c_queue c = {}" "c_active c = None"
proof -
  show "c_events c = []"
    using assms u_handle [of c "[]" _ _ d] by (cases "c_events c") auto
  show act: "c_active c = None"
  proof (rule ccontr)
    assume "c_active c \<noteq> None"
    then obtain a where a: "c_active c = Some a" by blast
    show False
    proof (cases "next_call d (c_world c) (run_log a) (run_rest a)")
      case None
      then obtain err where "run_rest a = Return err" by (auto simp: next_call_None)
      with u_finish [OF a] assms show False by blast
    next
      case (Some x)
      with u_call [OF a] assms show False by (cases x) blast
    qed
  qed
  show "c_queue c = {}" using assms u_pick [OF act] by blast
qed

section \<open>A measure\<close>

text \<open>The world when the running reconcile has ended, and the events it will have caused until then.\<close>

definition final_world :: "('s, 'res, 'snap, 'cache) deps \<Rightarrow> ('s, 'snap, 'cache) controller \<Rightarrow> ('s, 'cache) world" where
  "final_world d c = (case c_active c of None \<Rightarrow> c_world c | Some a \<Rightarrow> snd (run_prog d (run_rest a) (c_world c)))"

definition pending :: "('s, 'res, 'snap, 'cache) deps \<Rightarrow> ('s, 'snap, 'cache) controller \<Rightarrow> client_object list" where
  "pending d c = (case c_active c of None \<Rightarrow> [] | Some a \<Rightarrow> run_events d (run_rest a) (c_world c))"

definition requested :: "('s, 'res, 'snap, 'cache) deps \<Rightarrow> ('s, 'snap, 'cache) controller \<Rightarrow> NamespacedName set" where
  "requested d c = c_queue c \<union> run_request ` set_option (c_active c) \<union>
     (\<Union>ev \<in> set (c_events c) \<union> set (pending d c). set (watchRequests d (c_api c) ev))"

text \<open>
  What is left to do, most significant first: whether the running reconcile will fail; the status
  updates that will still be written; the events and requests that wait; the calls of the
  running reconcile.
\<close>

definition failures :: "('s, 'res, 'snap, 'cache) deps \<Rightarrow> ('s, 'snap, 'cache) controller \<Rightarrow> nat" where
  "failures d c = (case c_active c of None \<Rightarrow> 0
     | Some a \<Rightarrow> if fst (run_prog d (run_rest a) (c_world c)) = None then 0 else 1)"

definition writes :: "('s, 'res, 'snap, 'cache) deps \<Rightarrow> ('s, 'snap, 'cache) controller \<Rightarrow> nat" where
  "writes d c = length (pending d c) + 2 * card {r \<in> requested d c. \<not> status_current d (final_world d c) r}"

definition waiting :: "('s, 'res, 'snap, 'cache) deps \<Rightarrow> ('s, 'snap, 'cache) controller \<Rightarrow> nat" where
  "waiting d c = sum_list (map (\<lambda>ev. Suc (card (set (watchRequests d (c_api c) ev)))) (c_events c)) + card (c_queue c)"

definition calls_to_make :: "('s, 'res, 'snap, 'cache) deps \<Rightarrow> ('s, 'snap, 'cache) controller \<Rightarrow> nat" where
  "calls_to_make d c = (case c_active c of None \<Rightarrow> 0 | Some a \<Rightarrow> Suc (calls_left d (run_rest a) (c_world c)))"

definition settling :: "('s, 'res, 'snap, 'cache) deps \<Rightarrow> (('s, 'snap, 'cache) controller \<times> ('s, 'snap, 'cache) controller) set" where
  "settling d = measures [failures d, writes d, waiting d, calls_to_make d]"

lemmas measure_defs = failures_def writes_def waiting_def calls_to_make_def

lemma finite_requested: "finite (c_queue c) \<Longrightarrow> finite (requested d c)"
  by (simp add: requested_def)

lemma writes_mono:
  assumes "finite (c_queue c)" and "length (pending d c') \<le> length (pending d c)" and "requested d c' \<subseteq> requested d c"
    and "final_world d c' = final_world d c"
  shows "writes d c' \<le> writes d c"
proof -
  have "card {r \<in> requested d c'. \<not> status_current d (final_world d c') r} \<le> card {r \<in> requested d c. \<not> status_current d (final_world d c) r}"
    using assms(3,4) finite_requested [OF assms(1), of d] by (intro card_mono) auto
  with assms(2) show ?thesis by (simp add: writes_def)
qed

lemma settling_handle:
  assumes "c_events c = xs @ obj # ys" and "finite (c_queue c)"
  shows "(c\<lparr>c_events := xs @ ys, c_queue := c_queue c \<union> set (watchRequests d (c_api c) obj)\<rparr>, c) \<in> settling d" (is "(?c, c) \<in> _")
proof -
  have "failures d ?c = failures d c" "calls_to_make d ?c = calls_to_make d c"
    by (simp_all add: measure_defs split: option.split)
  moreover have "writes d ?c \<le> writes d c"
    using assms by (intro writes_mono) (auto simp: pending_def requested_def final_world_def split: option.split)
  moreover have "card (c_queue c \<union> set (watchRequests d (c_api c) obj)) \<le> card (c_queue c) + card (set (watchRequests d (c_api c) obj))"
    by (rule card_Un_le)
  then have "waiting d ?c < waiting d c" by (simp add: waiting_def assms(1))
  ultimately show ?thesis by (auto simp: settling_def)
qed

lemma settling_finish:
  assumes "c_active c = Some a" and "run_rest a = Return err" and "finite (c_queue c)"
  shows "(c\<lparr>c_active := None, c_queue := (if err = None then c_queue c else insert (run_request a) (c_queue c))\<rparr>, c) \<in> settling d" (is "(?c, c) \<in> _")
proof (cases "err = None")
  case True
  have "failures d ?c = 0" "waiting d ?c = waiting d c" "calls_to_make d ?c < calls_to_make d c"
    using assms True by (simp_all add: measure_defs)
  moreover have "writes d ?c \<le> writes d c"
    using assms True by (intro writes_mono) (auto simp: pending_def requested_def final_world_def split: option.split)
  ultimately show ?thesis by (auto simp: settling_def)
next
  case False
  with assms show ?thesis by (auto simp: settling_def failures_def)
qed


lemma settling_call:
  assumes act: "c_active c = Some a" and step: "next_call d (c_world c) (run_log a) (run_rest a) = Some (evs, w', l', p')"
    and fin: "finite (c_queue c)" and env: "mesh_env d get"
  shows "(c\<lparr>c_world := w', c_events := c_events c @ evs,
    c_active := Some (a\<lparr>run_seen := insert (w_api w') (run_seen a), run_log := l', run_rest := p'\<rparr>)\<rparr>, c) \<in> settling d" (is "(?c, c) \<in> _")
proof -
  note run = next_call_run [OF step]
  have watch: "watchRequests d (w_api w') ev = watchRequests d (c_api c) ev" for ev
    using call_step_reads [OF mesh_envD(3) [OF env] next_call_step [OF step]]
    by (intro watchRequests_cong) (simp add: same_reads_def)
  have fail: "failures d ?c = failures d c" using act run by (simp add: failures_def)
  have pend: "pending d c = evs @ pending d ?c" using act run by (simp add: pending_def)
  have "requested d ?c \<subseteq> requested d c" using act pend by (auto simp: requested_def watch)
  moreover have world: "final_world d ?c = final_world d c" using act run by (simp add: final_world_def)
  ultimately have sub: "card {r \<in> requested d ?c. \<not> status_current d (final_world d ?c) r} \<le> card {r \<in> requested d c. \<not> status_current d (final_world d c) r}"
    using finite_requested [OF fin, of d] by (intro card_mono) auto
  show ?thesis
  proof (cases "evs = []")
    case True
    with sub pend have "writes d ?c \<le> writes d c" by (simp add: writes_def)
    moreover have "waiting d ?c = waiting d c" using True by (simp add: waiting_def watch)
    moreover have "calls_to_make d ?c < calls_to_make d c" using act run by (simp add: calls_to_make_def)
    ultimately show ?thesis using fail by (auto simp: settling_def)
  next
    case False
    then have "0 < length evs" by simp
    with sub have "writes d ?c < writes d c" unfolding writes_def pend length_append by linarith
    with fail show ?thesis by (simp add: settling_def)
  qed
qed

lemma Reconcile_few_events:
  assumes "fst (Reconcile d w r) = None"
  shows "length (run_events d (Reconcile_prog d r) w) \<le> 2"
proof (cases rule: Reconcile_cases [of d w r])
  case (missing err)
  then show ?thesis by (simp add: Reconcile_missing_events)
next
  case (ok ep version snap cache')
  then show ?thesis by (simp add: Reconcile_ok_events Let_def split_def status_events_def)
qed (use assms in \<open>simp_all add: Reconcile_rules\<close>)

lemma run_request_started: "run_request (started d r s) = r"
  by (simp add: started_def)

lemma settling_pick:
  assumes act: "c_active c = None" and r: "r \<in> c_queue c" and fin: "finite (c_queue c)"
    and env: "mesh_env d get" "status_write_law d" and rec: "reconcilable d (c_api c)"
  shows "(c\<lparr>c_queue := c_queue c - {r}, c_active := Some (started d r (c_api c)), c_lost := c_lost c - {r}\<rparr>, c) \<in> settling d" (is "(?c, c) \<in> _")
proof -
  note law = mesh_envD [OF env(1)]
  let ?w1 = "snd (Reconcile d (c_world c) r)" and ?evs = "run_events d (Reconcile_prog d r) (c_world c)"
  let ?stale = "\<lambda>c. {q \<in> requested d c. \<not> status_current d (final_world d c) q}"
  have ok: "fst (Reconcile d (c_world c) r) = None" by (rule reconcilable_ok [OF law(2) rec])
  then have first: "Reconcile d (c_world c) r = (None, ?w1)" by (simp add: prod_eq_iff)
  have world: "final_world d ?c = ?w1" "final_world d c = c_world c" and pend: "pending d ?c = ?evs" "pending d c = []"
    using act by (simp_all add: final_world_def pending_def started_def Reconcile_prog_run)
  have own: "set (watchRequests d s ev) = {r}" if "ev \<in> set ?evs" for ev s
    using Reconcile_own_events [OF env(2) law(2) ok that] by (auto simp: watchRequests_proxy)
  have req: "requested d ?c \<subseteq> requested d c"
    using act r unfolding requested_def pend by (auto simp: run_request_started own)
  have sub: "?stale ?c \<subseteq> ?stale c - {r}"
    using req Reconcile_status_current [OF env(2) law(2,3) first] status_current_other [OF env(2) law(2,3) first]
    by (auto simp: world)
  have finite: "finite (?stale c)" using finite_requested [OF fin, of d] by simp
  have writes: "writes d ?c \<le> writes d c"
  proof (cases "status_current d (c_world c) r")
    case True
    then have "?evs = []" using status_current_quiet [OF env(2) _ ok] by blast
    moreover have "card (?stale ?c) \<le> card (?stale c)" using sub finite by (intro card_mono) auto
    ultimately show ?thesis by (simp add: writes_def pend)
  next
    case False
    with r have "r \<in> ?stale c" by (simp add: world requested_def)
    then have "card (?stale c - {r}) = card (?stale c) - 1" "0 < card (?stale c)"
      using finite by (auto simp: card_gt_0_iff)
    moreover have "card (?stale ?c) \<le> card (?stale c - {r})" using sub finite by (intro card_mono) auto
    ultimately have "Suc (card (?stale ?c)) \<le> card (?stale c)" by linarith
    then show ?thesis using Reconcile_few_events [OF ok] by (simp add: writes_def pend)
  qed
  moreover have "failures d ?c = 0" using ok by (simp add: failures_def started_def Reconcile_prog_run)
  moreover have "waiting d ?c < waiting d c"
    using r fin card_Diff1_less [OF fin r] by (simp add: waiting_def)
  ultimately show ?thesis by (auto simp: settling_def)
qed

lemma undisturbed_settling:
  assumes "undisturbed_step d c c'" and "finite (c_queue c)" and "mesh_env d get" and "status_write_law d" and "reconcilable d (c_api c)"
  shows "(c', c) \<in> settling d"
  using assms(1)
proof cases
  case (u_handle xs obj ys)
  show ?thesis unfolding u_handle(1) by (rule settling_handle [OF u_handle(2) assms(2)])
next
  case (u_pick r)
  show ?thesis unfolding u_pick(1) by (rule settling_pick [OF u_pick(2,3) assms(2-5)])
next
  case (u_call a evs w' l' p')
  show ?thesis unfolding u_call(1) by (rule settling_call [OF u_call(2,3) assms(2,3)])
next
  case (u_finish a err)
  show ?thesis unfolding u_finish(1) by (rule settling_finish [OF u_finish(2,3) assms(2)])
qed

section \<open>Every undisturbed run ends\<close>

lemma undisturbed_reads: "mesh_env d get \<Longrightarrow> undisturbed_step d c c' \<Longrightarrow> same_reads d (c_api c) (c_api c')"
  by (erule undisturbed_step.cases) (auto intro: call_step_reads [OF mesh_envD(3)] next_call_step)

lemma undisturbed_keeps:
  assumes "mesh_env d get" and "(undisturbed_step d)\<^sup>*\<^sup>* c c'" and "finite (c_queue c)" and "reconcilable d (c_api c)"
  shows "(controller_step d)\<^sup>*\<^sup>* c c' \<and> same_reads d (c_api c) (c_api c') \<and> finite (c_queue c') \<and> reconcilable d (c_api c') \<and>
    c_lost c' \<subseteq> c_lost c"
  using assms(2)
proof induction
  case base
  with assms show ?case by simp
next
  case (step c1 c2)
  then have "controller_step d c1 c2" and reads: "same_reads d (c_api c1) (c_api c2)"
    using undisturbed_controller undisturbed_reads [OF assms(1)] by blast+
  moreover from step.hyps(2) step.IH have "finite (c_queue c2)" "c_lost c2 \<subseteq> c_lost c1" by (cases; auto)+
  moreover have "reconcilable d (c_api c2)" using step.IH reads by (blast intro: reconcilable_reads [OF mesh_envD(2) [OF assms(1)]])
  ultimately show ?case using step.IH by (auto intro: same_reads_trans)
qed

lemma no_infinite_run:
  assumes "mesh_env d get" and "status_write_law d" and "finite (c_queue c)" and "reconcilable d (c_api c)"
  shows "\<not> (\<exists>f. f 0 = c \<and> (\<forall>n. undisturbed_step d (f n) (f (Suc n))))"
proof
  assume "\<exists>f. f 0 = c \<and> (\<forall>n. undisturbed_step d (f n) (f (Suc n)))"
  then obtain f where f: "f 0 = c" "\<And>n. undisturbed_step d (f n) (f (Suc n))" by blast
  have reach: "(undisturbed_step d)\<^sup>*\<^sup>* c (f n)" for n
    by (induction n) (auto simp: f intro: rtranclp.rtrancl_into_rtrancl)
  have "(f (Suc n), f n) \<in> settling d" for n
    using undisturbed_keeps [OF assms(1) reach assms(3,4)] by (intro undisturbed_settling [OF f(2) _ assms(1,2)]) auto
  moreover have "wf (settling d)" by (simp add: settling_def)
  ultimately show False unfolding wf_iff_no_infinite_down_chain by blast
qed

lemma settles:
  assumes env: "mesh_env d get" "status_write_law d"
  shows "finite (c_queue c) \<Longrightarrow> reconcilable d (c_api c) \<Longrightarrow> \<exists>c'. (undisturbed_step d)\<^sup>*\<^sup>* c c' \<and> (\<nexists>c''. undisturbed_step d c' c'')"
proof -
  have "wf (settling d)" by (simp add: settling_def)
  then show "finite (c_queue c) \<Longrightarrow> reconcilable d (c_api c) \<Longrightarrow> ?thesis"
  proof (induction c rule: wf_induct_rule)
    case (less c)
    show ?case
    proof (cases "\<exists>c1. undisturbed_step d c c1")
      case True
      then obtain c1 where c1: "undisturbed_step d c c1" by blast
      have "finite (c_queue c1)" "reconcilable d (c_api c1)"
        using undisturbed_keeps [OF env(1) r_into_rtranclp [of "undisturbed_step d", OF c1] less.prems] by blast+
      then obtain c' where "(undisturbed_step d)\<^sup>*\<^sup>* c1 c'" "\<nexists>c''. undisturbed_step d c' c''"
        using less.IH [OF undisturbed_settling [OF c1 less.prems(1) env less.prems(2)]] by blast
      with c1 show ?thesis by (meson converse_rtranclp_into_rtranclp)
    qed blast
  qed
qed

text \<open>At rest nothing waits any more, and nothing but statuses was changed.\<close>

lemma rest_quiet:
  assumes "mesh_env d get" and "(undisturbed_step d)\<^sup>*\<^sup>* c c'" and "\<nexists>c''. undisturbed_step d c' c''"
    and "finite (c_queue c)" and "reconcilable d (c_api c)" and "c_lost c = {}"
  shows "(controller_step d)\<^sup>*\<^sup>* c c'" "quiet c'" "same_reads d (c_api c) (c_api c')"
  using undisturbed_keeps [OF assms(1,2,4,5)] undisturbed_stuck [OF assms(3)] assms(6) by (auto simp: quiet_def)

lemma settle:
  assumes "mesh_env d get" and "status_write_law d" and "controller_start d c0" and "(controller_step d)\<^sup>*\<^sup>* c0 c"
    and "c_lost c = {}" and "reconcilable d (c_api c)"
  shows "\<exists>c'. (controller_step d)\<^sup>*\<^sup>* c c' \<and> quiet c' \<and> same_reads d (c_api c) (c_api c')"
proof -
  have fin: "finite (c_queue c)" by (rule reachable_queue [OF assms(3,4)])
  then obtain c' where "(undisturbed_step d)\<^sup>*\<^sup>* c c'" "\<nexists>c''. undisturbed_step d c' c''"
    using settles [OF assms(1,2) _ assms(6)] by blast
  with rest_quiet [OF assms(1) _ _ fin assms(6,5)] show ?thesis by blast
qed

end
