(* ===== verification/Convergence.thy ===== *)
theory Convergence
  imports Settling
begin

text \<open>
  What the controller achieves and what it does not: it converges to the current configuration
  under every interleaving, and its reconciles have the outcomes of their specification; but
  deleted proxies stay in the cache, and connections are not reported. The examples run in the environment that stores statuses and listeners.
\<close>

section \<open>Properties\<close>

text \<open>
  C1. The controller converges under every interleaving. Changes of objects, the handling of their events, the single calls of
  a reconcile, failing reads, retries, status updates, stream callbacks and resyncs may come
  in any order. Whenever no request for an existing proxy is queued or running, no event
  that waits will request it, and no event for it was lost to a failed list of clusters,
  the cache holds exactly the snapshot of the current configuration for it.
\<close>

theorem controller_converges:
  assumes "mesh_env d get" and "controller_start d c0" and "(controller_step d)\<^sup>*\<^sup>* c0 c"
    and "r \<notin> c_queue c" and "r \<notin> c_lost c" and "\<forall>a. c_active c = Some a \<longrightarrow> run_request a \<noteq> r"
    and "\<forall>ev \<in> set (c_events c). r \<notin> set (watchRequests d (c_api c) ev)"
    and "GetEnvoyProxy d (c_api c) r = Inr ep"
  shows "\<exists>version snap. proxy_snapshot d (c_api c) ep = Inr (version, snap) \<and>
    get (Cache (w_xds (c_world c))) (nodeID ep) = Some snap"
  by (rule settled_snapshot [OF assms])

text \<open>
  A run in the environment that stores the status: the first event is handled, the reconcile reads
  its proxy, then a listener of a proxy in another namespace is added.
\<close>

definition example_controller :: "(EnvoyProxyStatus \<times> Listener list, example_snapshot, (string, example_snapshot) gomap) controller" where
  "example_controller = \<lparr>c_world = stored_world, c_events = [ObjEnvoyProxy (example_proxy ''edge'' ''default'')],
     c_queue = {}, c_active = None, c_lost = {}\<rparr>"

lemma example_start: "controller_start example_store example_controller"
  by (auto simp: controller_start_def example_controller_def example_store_def example_request_def proxy_name_def
      example_proxy_def split: if_splits)

lemma example_change:
  "object_changed example_store (ObjListener example_other_listener) (st, [example_listener]) (st, [example_other_listener, example_listener])"
proof -
  have "list_without (Some example_other_listener) (Inr [example_other_listener, example_listener]) (Inr [example_listener])"
    by (simp add: list_without_def) (metis append_Nil)
  then have "object_removed example_store (ObjListener example_other_listener) (st, [example_other_listener, example_listener]) (st, [example_listener])"
    by (simp add: object_removed_def example_store_def example_deps_def as_Listener_def as_Cluster_def as_RouteConfiguration_def
        as_ScopedRouteConfiguration_def as_ClusterLoadAssignment_def) (simp add: list_without_def)
  then show ?thesis by (simp add: object_changed_def) (simp add: example_store_def)
qed

lemma example_same_reads: "same_reads example_store s s' \<Longrightarrow> snd s' = snd s"
  by (simp add: same_reads_def example_store_def example_deps_def)

lemma example_interleaved:
  "\<exists>c a. (controller_step example_store)\<^sup>*\<^sup>* example_controller c \<and> c_active c = Some a \<and> run_rest a = collect_prog example_store (stored_proxy (fst (w_api stored_world))) \<and>
     c_lost c = {} \<and> snd (c_api c) = [example_other_listener, example_listener]"
proof -
  let ?s = "w_api stored_world"
  let ?s' = "(fst ?s, [example_other_listener, example_listener])"
  have s: "?s = (fst ?s, [example_listener])" by (simp add: stored_world_def)
  define a1 where "a1 = (started example_store example_request ?s)\<lparr>run_seen := {?s}, run_rest := collect_prog example_store (stored_proxy (fst ?s))\<rparr>"
  define c1 where "c1 = example_controller\<lparr>c_events := [], c_queue := {example_request}\<rparr>"
  define c2 where "c2 = c1\<lparr>c_queue := {}, c_active := Some (started example_store example_request ?s), c_lost := {}\<rparr>"
  define c3 where "c3 = c2\<lparr>c_active := Some a1\<rparr>"
  define c4 where "c4 = c3\<lparr>c_world := (c_world c3)\<lparr>w_api := ?s'\<rparr>, c_events := [ObjListener example_other_listener],
    c_active := Some (a1\<lparr>run_seen := {?s', ?s}\<rparr>)\<rparr>"
  have world: "c_world c1 = stored_world" "c_world c2 = stored_world" "c_world c3 = stored_world"
    by (simp_all add: c1_def c2_def c3_def example_controller_def)
  have s1: "controller_step example_store example_controller c1"
    using controller_step.handle [of example_controller "[]" _ "[]" example_store]
    by (simp add: c1_def example_controller_def watchRequests_def example_request_def example_proxy_def)
  have s2: "controller_step example_store c1 c2"
    using controller_step.pick [of c1 example_request example_store]
    by (simp add: c1_def c2_def example_controller_def)
  have "call_step example_store stored_world [] (Reconcile_prog example_store example_request) [] stored_world []
      (collect_prog example_store (stored_proxy (fst ?s)))"
    using call_step.do_get [of example_store stored_world example_request "Inr (stored_proxy (fst ?s))" "[]"
        "\<lambda>r. case r of Inl err \<Rightarrow> Return (IgnoreNotFound example_store err) | Inr ep \<Rightarrow> collect_prog example_store ep"]
    by (simp add: Reconcile_prog_def get_reply_def store_get)
  then have s3: "controller_step example_store c2 c3"
    using controller_step.call [of c2 "started example_store example_request ?s" example_store "[]" stored_world "[]"]
    by (simp add: c2_def c3_def a1_def started_def c1_def example_controller_def)
  have s4: "controller_step example_store c3 c4"
    using controller_step.api_change [of example_store "ObjListener example_other_listener" c3 ?s'] example_change [of "fst ?s", folded s]
    by (simp add: world c4_def) (simp add: c1_def c2_def c3_def a1_def example_controller_def insert_commute)
  from s1 s2 s3 s4 have "(controller_step example_store)\<^sup>*\<^sup>* example_controller c4"
    by (meson converse_rtranclp_into_rtranclp rtranclp.rtrancl_refl)
  then show ?thesis
    by (intro exI [of _ c4] exI [of _ "a1\<lparr>run_seen := {?s', ?s}\<rparr>"]) (simp add: c4_def c3_def c2_def a1_def)
qed

theorem controller_converges_witness:
  "\<exists>c version snap. (controller_step example_store)\<^sup>*\<^sup>* example_controller c \<and>
     snd (c_api c) = [example_other_listener, example_listener] \<and>
     proxy_snapshot example_store (c_api c) (stored_proxy (fst (c_api c))) = Inr (version, snap) \<and>
     gomap_get (Cache (w_xds (c_world c))) ''edge.default'' = Some snap"
proof -
  obtain c1 where c1: "(controller_step example_store)\<^sup>*\<^sup>* example_controller c1" "c_lost c1 = {}"
    "snd (c_api c1) = [example_other_listener, example_listener]"
    using example_interleaved by blast
  obtain c where c: "(controller_step example_store)\<^sup>*\<^sup>* c1 c" "quiet c" "same_reads example_store (c_api c1) (c_api c)"
    using settle [OF store_mesh_env store_status_write_law example_start c1(1,2) store_reconcilable] by blast
  have "nodeID (stored_proxy st) = ''edge.default''" for st by (simp add: nodeID_def stored_proxy_def example_proxy_def)
  with controller_converges [OF store_mesh_env example_start rtranclp_trans [OF c1(1) c(1)] _ _ _ _ store_get] c(2)
  obtain version snap where "proxy_snapshot example_store (c_api c) (stored_proxy (fst (c_api c))) = Inr (version, snap)"
    "gomap_get (Cache (w_xds (c_world c))) ''edge.default'' = Some snap"
    by (auto simp: quiet_def)
  with rtranclp_trans [OF c1(1) c(1)] example_same_reads [OF c(3)] c1(3) show ?thesis by auto
qed

text \<open>
  C5. Every reconcile does what its specification says, whatever happens between its calls: when it is about to publish, the snapshot is
  one that it collected and built from the replies to its reads, for the proxy it read; when
  it returns, its result and all its effects are one of the six outcomes, each with the
  states its reads saw while it ran.
\<close>

theorem interleaved_reconcile:
  assumes "c_active c0 = None" and "(controller_step d)\<^sup>*\<^sup>* c0 c" and "c_active c = Some a"
  shows "(\<forall>n snap k. run_rest a = CallSetSnapshot n snap k \<longrightarrow> publishable d (run_seen a) (run_request a) n snap) \<and>
    (\<forall>err. run_rest a = Return err \<longrightarrow> reconcile_outcome d (run_seen a) (run_request a) err (run_log a))"
  using running_publishes [OF running_ok_reachable [OF assms(1,2)] assms(3)]
    running_returns [OF running_ok_reachable [OF assms(1,2)] assms(3)] by blast

theorem interleaved_reconcile_witness:
  "\<exists>c a err. (controller_step example_store)\<^sup>*\<^sup>* example_controller c \<and> c_active c = Some a \<and> run_rest a = Return err \<and>
     snd (c_api c) = [example_other_listener, example_listener] \<and>
     reconcile_outcome example_store (run_seen a) (run_request a) err (run_log a)"
proof -
  obtain c a where c: "(controller_step example_store)\<^sup>*\<^sup>* example_controller c" "c_active c = Some a"
    "snd (c_api c) = [example_other_listener, example_listener]"
    using example_interleaved by blast
  define x where "x = run_prog example_store (run_rest a) (c_world c)"
  obtain l where "call_steps example_store (c_world c) (run_log a) (run_rest a) (run_events example_store (run_rest a) (c_world c))
      (snd x) l (Return (fst x))"
    using run_steps unfolding x_def by metis
  from calls [OF this refl c(2) refl refl] obtain T where
    steps: "(controller_step example_store)\<^sup>*\<^sup>* c (c\<lparr>c_world := snd x,
      c_events := c_events c @ run_events example_store (run_rest a) (c_world c),
      c_active := Some (a\<lparr>run_seen := T, run_log := l, run_rest := Return (fst x)\<rparr>)\<rparr>)" by blast
  let ?a = "a\<lparr>run_seen := T, run_log := l, run_rest := Return (fst x)\<rparr>"
  let ?c = "c\<lparr>c_world := snd x, c_events := c_events c @ run_events example_store (run_rest a) (c_world c), c_active := Some ?a\<rparr>"
  have start: "c_active example_controller = None" by (simp add: example_controller_def)
  have reach: "(controller_step example_store)\<^sup>*\<^sup>* example_controller ?c" using c(1) steps by (rule rtranclp_trans)
  moreover from interleaved_reconcile [OF start reach, of ?a]
  have "reconcile_outcome example_store (run_seen ?a) (run_request ?a) (fst x) (run_log ?a)" by simp
  moreover have "snd (c_api ?c) = [example_other_listener, example_listener]"
    using example_same_reads [OF run_prog_reads [OF mesh_envD(3) [OF store_mesh_env], of "c_world c" "run_rest a"]] c(3)
    by (simp add: x_def)
  ultimately show ?thesis by (intro exI [of _ ?c] exI [of _ ?a] exI [of _ "fst x"]) simp
qed

section \<open>Entries that do not change\<close>

text \<open>The steps of a controller through API states with a property.\<close>

definition step_through ::
  "('s \<Rightarrow> bool) \<Rightarrow> ('s, 'res, 'snap, 'cache) deps \<Rightarrow> ('s, 'snap, 'cache) controller \<Rightarrow> ('s, 'snap, 'cache) controller \<Rightarrow> bool" where
  "step_through P d c c' \<longleftrightarrow> controller_step d c c' \<and> P (c_api c')"

definition only_saw :: "('s \<Rightarrow> bool) \<Rightarrow> NamespacedName \<Rightarrow> ('s, 'snap, 'cache) controller \<Rightarrow> bool" where
  "only_saw P r c \<longleftrightarrow> P (c_api c) \<and> (\<forall>a. c_active c = Some a \<longrightarrow> run_request a = r \<longrightarrow> (\<forall>t \<in> run_seen a. P t))"

text \<open>
  A property of API states that keeps reconciles of a proxy from publishing, if it holds in all
  the states they see. Then the cache entry of the proxy stays as it is.
\<close>

locale publication_barrier =
  fixes d :: "('s, 'res, 'snap, 'cache) deps" and r :: NamespacedName and P :: "'s \<Rightarrow> bool"
  assumes barrier: "\<forall>t \<in> T. P t \<Longrightarrow> \<not> publishable d T r n snap"
begin

lemma only_saw_step: "step_through P d c c' \<Longrightarrow> only_saw P r c \<Longrightarrow> only_saw P r c'"
  unfolding step_through_def by (elim conjE, erule controller_step.cases) (auto simp: only_saw_def started_def)

lemma entry_step:
  assumes "controller_step d c c'" and "only_saw P r c" and "running_ok d c" and env: "mesh_env d get"
    and "CHR ''.'' \<notin> set (nn_Namespace r)"
  shows "get (Cache (w_xds (c_world c'))) (node_of r) = get (Cache (w_xds (c_world c))) (node_of r)"
  using assms(1)
proof (cases rule: controller_step.cases)
  case (call a evs w' l' p')
  from call(3) show ?thesis
  proof (cases rule: call_step_cases)
    case quiet
    with call(1) show ?thesis by simp
  next
    case (publish n snap k)
    from running_publishes [OF assms(3) call(2) publish(1)] have pub: "publishable d (run_seen a) (run_request a) n snap" .
    with assms(2) call(2) barrier have "run_request a \<noteq> r" unfolding only_saw_def by blast
    with publishable_node [OF pub env] assms(5) have "node_of r \<noteq> n" by (simp add: node_of_inj)
    with mesh_envD(1) [OF env] publish(3) call(1) show ?thesis by (simp add: cache_laws_def)
  qed
qed simp_all

lemma entry_kept:
  assumes env: "mesh_env d get" and start: "controller_start d c0" "(controller_step d)\<^sup>*\<^sup>* c0 c"
    and P: "P (c_api c)" "\<forall>a. c_active c = Some a \<longrightarrow> run_request a \<noteq> r" "CHR ''.'' \<notin> set (nn_Namespace r)"
    and run: "(step_through P d)\<^sup>*\<^sup>* c c'"
  shows "get (Cache (w_xds (c_world c'))) (node_of r) = get (Cache (w_xds (c_world c))) (node_of r)"
proof -
  have "running_ok d c" using start(1) by (intro running_ok_reachable [OF _ start(2)]) (simp add: controller_start_def)
  with run have "only_saw P r c' \<and> running_ok d c' \<and>
      get (Cache (w_xds (c_world c'))) (node_of r) = get (Cache (w_xds (c_world c))) (node_of r)"
  proof induction
    case base
    with P show ?case by (simp add: only_saw_def)
  next
    case (step c1 c2)
    then have "controller_step d c1 c2" by (simp add: step_through_def)
    with step only_saw_step [OF step.hyps(2)] entry_step [OF this _ _ env P(3)] show ?case
      by (auto intro: running_ok_step)
  qed
  then show ?thesis by blast
qed

end

definition proxy_missing :: "('s, 'res, 'snap, 'cache) deps \<Rightarrow> NamespacedName \<Rightarrow> 's \<Rightarrow> bool" where
  "proxy_missing d r s \<longleftrightarrow> (\<exists>err. GetEnvoyProxy d s r = Inl err)"

interpretation missing: publication_barrier d r "proxy_missing d r" for d r
  by unfold_locales (force simp: publishable_def proxy_missing_def)

text \<open>
  C9. A deleted proxy stays in the cache: once a proxy does not exist and is not being reconciled, nothing the controller
  does, its own reconciles included, changes what the cache holds under its node id. The
  snapshot is served to every node that connects with that id until a proxy of that name
  is created again.
\<close>

theorem deleted_proxy_still_served:
  assumes "mesh_env d get" and "controller_start d c0" and "(controller_step d)\<^sup>*\<^sup>* c0 c"
    and "proxy_missing d r (c_api c)" and "\<forall>a. c_active c = Some a \<longrightarrow> run_request a \<noteq> r"
    and "CHR ''.'' \<notin> set (nn_Namespace r)" and "(step_through (proxy_missing d r) d)\<^sup>*\<^sup>* c c'"
  shows "get (Cache (w_xds (c_world c'))) (node_of r) = get (Cache (w_xds (c_world c))) (node_of r)"
  by (rule missing.entry_kept [OF assms])

text \<open>A cache with the snapshot of a proxy that is gone, and a reconcile requested for it.\<close>

theorem deleted_proxy_still_served_witness:
  "\<exists>c c'. c_queue c = {\<lparr>nn_Name = ''gone'', nn_Namespace = ''default''\<rparr>} \<and> (controller_step example_store)\<^sup>*\<^sup>* c c' \<and> quiet c' \<and>
     gomap_get (Cache (w_xds (c_world c'))) ''gone.default'' = Some example_published"
proof -
  let ?r = "\<lparr>nn_Name = ''gone'', nn_Namespace = ''default''\<rparr>"
  define c0 where "c0 = example_controller\<lparr>c_world := stored_world\<lparr>w_xds := \<lparr>Cache = [(''gone.default'', example_published)], connected = []\<rparr>\<rparr>\<rparr>"
  define c where "c = c0\<lparr>c_queue := {?r}\<rparr>"
  have start: "controller_start example_store c0"
    using example_start by (simp add: c0_def controller_start_def example_controller_def)
  have c: "(controller_step example_store)\<^sup>*\<^sup>* c0 c"
    using controller_step.resync [of example_store c0 ?r] by (simp add: c_def c0_def example_controller_def r_into_rtranclp)
  have gone: "proxy_missing example_store ?r s" for s
    by (simp add: proxy_missing_def example_store_def example_request_def)
  then have steps: "step_through (proxy_missing example_store ?r) example_store = controller_step example_store"
    by (simp add: step_through_def fun_eq_iff)
  have "c_lost c = {}" and act: "c_active c = None" by (simp_all add: c_def c0_def example_controller_def)
  then obtain c' where c': "(controller_step example_store)\<^sup>*\<^sup>* c c'" "quiet c'"
    using settle [OF store_mesh_env store_status_write_law start c _ store_reconcilable] by blast
  have "gomap_get (Cache (w_xds (c_world c'))) (node_of ?r) = gomap_get (Cache (w_xds (c_world c))) (node_of ?r)"
    by (rule deleted_proxy_still_served [OF store_mesh_env start c gone]) (simp_all add: act steps c'(1))
  with c' show ?thesis
    by (intro exI [of _ c] exI [of _ c']) (simp add: c_def c0_def node_of_def example_controller_def)
qed

section \<open>Connections\<close>

text \<open>Stream callbacks one after the other, as steps of the controller.\<close>

lemma stream_steps:
  "(controller_step d)\<^sup>*\<^sup>* c (c\<lparr>c_world := (c_world c)\<lparr>w_xds := fold handle_event evs (w_xds (c_world c))\<rparr>\<rparr>)"
proof (induction evs arbitrary: c)
  case Nil
  show ?case by simp
next
  case (Cons ev evs)
  let ?c = "c\<lparr>c_world := (c_world c)\<lparr>w_xds := handle_event ev (w_xds (c_world c))\<rparr>\<rparr>"
  have "controller_step d c ?c" by (rule controller_step.stream)
  with Cons.IH [of ?c] show ?case by (auto intro: converse_rtranclp_into_rtranclp)
qed

text \<open>
  C26. The condition \<open>Connected\<close> is not kept up to date: proxies connect and disconnect without any event that
  requests a reconcile. From a quiet state, whatever the streams do, the controller can stay quiet with no
  further status update, while the server reports nodes as connected that the last update called
  not connected, and the other way round.
\<close>

theorem connections_not_reported:
  assumes "quiet c" and "n \<noteq> []"
  shows "\<exists>c1 c2. (controller_step d)\<^sup>*\<^sup>* c c1 \<and> (controller_step d)\<^sup>*\<^sup>* c1 c2 \<and> quiet c1 \<and> quiet c2 \<and>
    w_updates (c_world c1) = w_updates (c_world c) \<and> w_updates (c_world c2) = w_updates (c_world c) \<and>
    c_api c1 = c_api c \<and> c_api c2 = c_api c \<and>
    IsConnected (w_xds (c_world c1)) n \<and> \<not> IsConnected (w_xds (c_world c2)) n"
proof -
  let ?open = "StreamRequest 1 \<lparr>req_Node = Some \<lparr>node_Id = n\<rparr>\<rparr>" and ?close = "StreamClosed 1 (Some \<lparr>node_Id = n\<rparr>)"
  define c1 where "c1 = c\<lparr>c_world := (c_world c)\<lparr>w_xds := fold handle_event [?open] (w_xds (c_world c))\<rparr>\<rparr>"
  define c2 where "c2 = c1\<lparr>c_world := (c_world c1)\<lparr>w_xds := fold handle_event [?close] (w_xds (c_world c1))\<rparr>\<rparr>"
  have steps: "(controller_step d)\<^sup>*\<^sup>* c c1" "(controller_step d)\<^sup>*\<^sup>* c1 c2"
    unfolding c1_def c2_def by (rule stream_steps)+
  have conn: "IsConnected (w_xds (c_world c1)) n" "\<not> IsConnected (w_xds (c_world c2)) n"
    using assms(2) by (auto simp: c1_def c2_def IsConnected_def StreamRequestFunc_def StreamClosedFunc_def LoadOrStore_def
        table_Delete_def update_conv' delete_conv' split: option.split)
  have same: "quiet c1" "quiet c2" "w_updates (c_world c1) = w_updates (c_world c)" "w_updates (c_world c2) = w_updates (c_world c)"
      "c_api c1 = c_api c" "c_api c2 = c_api c"
    using assms(1) by (simp_all add: c1_def c2_def quiet_def)
  from steps conn same show ?thesis by blast
qed

theorem connections_not_reported_witness:
  "\<exists>c c1. (controller_step example_store)\<^sup>*\<^sup>* example_controller c \<and> quiet c \<and> (controller_step example_store)\<^sup>*\<^sup>* c c1 \<and> quiet c1 \<and>
     w_updates (c_world c1) = w_updates (c_world c) \<and> IsConnected (w_xds (c_world c1)) ''edge.default''"
proof -
  have lost: "c_lost example_controller = {}" by (simp add: example_controller_def)
  obtain c where "(controller_step example_store)\<^sup>*\<^sup>* example_controller c" "quiet c"
    using settle [OF store_mesh_env store_status_write_law example_start _ lost store_reconcilable] by blast
  with connections_not_reported [OF this(2), of "''edge.default''" example_store] show ?thesis by blast
qed

end
