(* ===== verification/Endpoint_Flow.thy ===== *)
theory Endpoint_Flow
  imports Convergence
begin

text \<open>
  From endpoint slices to the cache: what the proxies are told about the endpoints of Kubernetes
  services once the controller has nothing left to do for them. Here all parts of the control plane come
  together: the watches, the reconcile, the synthesis of assignments, their encoding and
  decoding, the snapshot and the cache.
\<close>

section \<open>Synthesised resources\<close>

text \<open>
  What encoding and decoding promise together: an encoded assignment is not empty, and decoding it
  gives the assignment, as a resource of the cache.
\<close>

definition protojson_law :: "('s, 'res, 'snap, 'cache) deps \<Rightarrow> (CLA_proto \<Rightarrow> 'res) \<Rightarrow> bool" where
  "protojson_law d resource \<longleftrightarrow> (\<forall>cla raw. MarshalCLA d cla = Inr raw \<longrightarrow>
     raw \<noteq> [] \<and> UnmarshalResource d unmarshaler EndpointType raw = Inr (resource cla))"

text \<open>The assignment of a cluster: what the slices of its service offer in an API state.\<close>

definition assigned :: "('s, 'res, 'snap, 'cache) deps \<Rightarrow> 's \<Rightarrow> Cluster \<Rightarrow> CLA_proto \<Rightarrow> bool" where
  "assigned d s cl cla \<longleftrightarrow> (\<exists>ref slices. Cluster_KubernetesServiceRef cl = Some ref \<and>
     ListEndpointSlices d s (serviceNamespace cl ref) [(''kubernetes.io/service-name'', ServiceRef_Name ref)] = Inr slices \<and>
     cla = offered_assignment (ClusterName (Cluster_Spec cl)) (served slices (ServiceRef_Port ref)))"

lemma synthesize_assigned:
  assumes "synthesize d s cl = Inr (raw, vers)"
  obtains cla where "assigned d s cl cla" and "MarshalCLA d cla = Inr raw"
  using assms
  by (auto simp: synthesize_def cluster_slices_def assigned_def SynthesizeCLA_offered result_bind_Inr_iff errorf_Inr_iff
      split: option.splits)

lemma synthesize_all_assigned:
  assumes "protojson_law d resource"
  shows "synthesize_all d s cls = Inr xs \<Longrightarrow>
    \<exists>clas. list_all2 (assigned d s) cls clas \<and>
      decoded (UnmarshalResource d unmarshaler EndpointType) (map fst xs) = map resource clas"
proof (induction cls arbitrary: xs)
  case Nil
  then show ?case by (simp add: decoded_def)
next
  case (Cons cl cls)
  then obtain x xs' where x: "synthesize d s cl = Inr x" "synthesize_all d s cls = Inr xs'" "xs = x # xs'"
    by (auto simp: result_bind_Inr_iff)
  from Cons.IH [OF x(2)] obtain clas where clas: "list_all2 (assigned d s) cls clas"
    "decoded (UnmarshalResource d unmarshaler EndpointType) (map fst xs') = map resource clas" by blast
  obtain cla where cla: "assigned d s cl cla" "MarshalCLA d cla = Inr (fst x)"
    using synthesize_assigned [of d s cl "fst x" "snd x"] x(1) by auto
  with assms have "fst x \<noteq> []" "UnmarshalResource d unmarshaler EndpointType (fst x) = Inr (resource cla)"
    by (auto simp: protojson_law_def)
  with x(3) clas cla(1) show ?case
    by (intro exI [of _ "cla # clas"]) (simp add: decoded_def)
qed

section \<open>The endpoints of a snapshot\<close>

definition proxy_clusters :: "NamespacedName \<Rightarrow> Cluster list \<Rightarrow> Cluster list" where
  "proxy_clusters r = filter (\<lambda>c. target_key (Cluster_TargetRef c) (meta_Namespace (Cluster_ObjectMeta c)) = r)"

text \<open>
  A snapshot that was built from resources of which the endpoints are these: the decoded manual
  assignments of the proxy, then one assignment for each of its eligible clusters.
\<close>

definition serves_endpoints ::
  "('s, 'res, 'snap, 'cache) deps \<Rightarrow> (CLA_proto \<Rightarrow> 'res) \<Rightarrow> 's \<Rightarrow> NamespacedName \<Rightarrow> 'snap \<Rightarrow> bool" where
  "serves_endpoints d resource s r snap \<longleftrightarrow> (\<exists>version res clusters manual clas.
     NewSnapshot d version res = Inr snap \<and> ListClusters d s = Inr clusters \<and> ListCLAs d s = Inr manual \<and>
     list_all2 (assigned d s)
       (filter (eligible (manual_names (nn_Namespace r) (nn_Name r) manual)) (proxy_clusters r clusters)) clas \<and>
     gomap_get res EndpointType = Some
       (decoded (UnmarshalResource d unmarshaler EndpointType)
          (map ClusterLoadAssignment_Spec (manual_items (nn_Namespace r) (nn_Name r) manual)) @ map resource clas))"

lemma proxy_snapshot_endpoints:
  assumes "protojson_law d resource" and "get_law d" and "GetEnvoyProxy d s r = Inr ep"
    and "proxy_snapshot d s ep = Inr (version, snap)"
  shows "serves_endpoints d resource s r snap"
proof -
  have key: "meta_Name (EnvoyProxy_ObjectMeta ep) = nn_Name r" "meta_Namespace (EnvoyProxy_ObjectMeta ep) = nn_Namespace r"
    using assms(2,3) by (simp_all add: get_law_def)
  from assms(4) obtain ls cs rs srs es vers where
    all: "collectAll d s (nn_Namespace r) (nn_Name r) = Inr (ls, cs, rs, srs, es, vers)" and
    build: "BuildSnapshot (UnmarshalResource d) (NewSnapshot d) (computeVersion vers) ls cs rs srs es = Inr snap"
    by (auto simp: proxy_snapshot_def key result_bind_Inr_iff errorf_Inr_iff)
  from all obtain clusters manual xs where lists: "ListClusters d s = Inr clusters" "ListCLAs d s = Inr manual"
    and syn: "synthesize_all d s (filter (eligible (manual_names (nn_Namespace r) (nn_Name r) manual)) (proxy_clusters r clusters)) = Inr xs"
    and es: "es = map ClusterLoadAssignment_Spec (manual_items (nn_Namespace r) (nn_Name r) manual) @ map fst xs"
    by (auto simp: collectAll_def collectClusters_def collectClusters_items_eq collectEndpoints_eq proxy_clusters_def
        targetMatches_request Let_def result_bind_Inr_iff errorf_Inr_iff)
  let ?unm = "UnmarshalResource d unmarshaler EndpointType"
  from build obtain res where res: "NewSnapshot d (computeVersion vers) res = Inr snap" "gomap_get res EndpointType = Some (decoded ?unm es)"
    by (auto simp: BuildSnapshot_success unmarshalAll_Inr_iff)
  obtain clas where clas: "list_all2 (assigned d s)
      (filter (eligible (manual_names (nn_Namespace r) (nn_Name r) manual)) (proxy_clusters r clusters)) clas"
    "decoded ?unm (map fst xs) = map resource clas"
    using synthesize_all_assigned [OF assms(1) syn] by blast
  have "decoded ?unm es = decoded ?unm (map ClusterLoadAssignment_Spec (manual_items (nn_Namespace r) (nn_Name r) manual)) @ map resource clas"
    by (simp add: es flip: clas(2)) (simp add: decoded_def)
  with res lists clas(1) show ?thesis unfolding serves_endpoints_def by metis
qed

section \<open>Properties\<close>

text \<open>
  C2. The proxies are told the endpoints as they are: under every interleaving, whenever nothing is on its way for an existing
  proxy, the cache holds under its node id a snapshot whose endpoint resources are the manual
  assignments that target the proxy, followed by one assignment for each of its clusters
  with a service reference and a name that is not taken. Each of these lists exactly the
  ready addresses that the current endpoint slices of the service offer on the port.
\<close>

theorem settled_endpoints:
  assumes "mesh_env d get" and "protojson_law d resource" and "controller_start d c0" and "(controller_step d)\<^sup>*\<^sup>* c0 c"
    and "r \<notin> c_queue c" and "r \<notin> c_lost c" and "\<forall>a. c_active c = Some a \<longrightarrow> run_request a \<noteq> r"
    and "\<forall>ev \<in> set (c_events c). r \<notin> set (watchRequests d (c_api c) ev)"
    and "GetEnvoyProxy d (c_api c) r = Inr ep"
  shows "\<exists>snap. get (Cache (w_xds (c_world c))) (nodeID ep) = Some snap \<and> serves_endpoints d resource (c_api c) r snap"
  using settled_snapshot [OF assms(1,3-9)] proxy_snapshot_endpoints [OF assms(2) mesh_envD(2) [OF assms(1)] assms(9)] by blast

lemma store_protojson: "protojson_law example_store (\<lambda>cla. projr (MarshalCLA example_store cla))"
  by (auto simp: protojson_law_def example_store_def example_deps_def)

lemma store_assigned:
  "assigned example_store s example_cluster (offered_assignment ''svc-alpha'' [(''10.0.0.1'', 9090)])"
proof -
  have ref: "Cluster_KubernetesServiceRef example_cluster =
      Some \<lparr>ServiceRef_Name = ''svc'', ServiceRef_Namespace = [], ServiceRef_Port = Some 9090\<rparr>"
    and ns: "meta_Namespace (Cluster_ObjectMeta example_cluster) = ''default''"
    by (simp_all add: example_cluster_def example_meta_def)
  have "ListEndpointSlices example_store s ''default'' [(''kubernetes.io/service-name'', ''svc'')] = Inr [example_slice]"
    by (simp add: example_store_def example_deps_def)
  then show ?thesis
    by (simp add: assigned_def ref ns serviceNamespace_def example_cluster_name served_example)
qed

theorem settled_endpoints_witness:
  "\<exists>c snap. (controller_step example_store)\<^sup>*\<^sup>* example_controller c \<and>
     gomap_get (Cache (w_xds (c_world c))) ''edge.default'' = Some snap \<and>
     serves_endpoints example_store (\<lambda>cla. projr (MarshalCLA example_store cla)) (c_api c) example_request snap \<and>
     assigned example_store (c_api c) example_cluster (offered_assignment ''svc-alpha'' [(''10.0.0.1'', 9090)])"
proof -
  have lost: "c_lost example_controller = {}" by (simp add: example_controller_def)
  obtain c where c: "(controller_step example_store)\<^sup>*\<^sup>* example_controller c" "quiet c"
    using settle [OF store_mesh_env store_status_write_law example_start _ lost store_reconcilable] by blast
  have "nodeID (stored_proxy st) = ''edge.default''" for st by (simp add: nodeID_def stored_proxy_def example_proxy_def)
  with settled_endpoints [OF store_mesh_env store_protojson example_start c(1) _ _ _ _ store_get] c(2)
  obtain snap where "gomap_get (Cache (w_xds (c_world c))) ''edge.default'' = Some snap"
    "serves_endpoints example_store (\<lambda>cla. projr (MarshalCLA example_store cla)) (c_api c) example_request snap"
    by (auto simp: quiet_def)
  with c(1) store_assigned show ?thesis by blast
qed

end
