(* ===== verification/List_Order.thy ===== *)
theory List_Order
  imports Convergence "HOL-Library.Multiset"
begin

text \<open>
  The order of lists. The client of the manager reads from a cache whose lists come in no particular
  order, and \<open>computeVersion\<close> hashes the resource versions in the order in which they come. So the same
  objects can have different versions, and the version is part of the status.

  Here every list call is answered in an order of its own. A second reconcile writes nothing exactly if
  its version is that of the first. The controller comes to rest if the orders
  that occur make no difference, and it may run without end if two of them give a proxy different versions.
\<close>

section \<open>Orders\<close>

text \<open>What the client does to the lists of the six kinds, and a client that does it.\<close>

record list_order =
  order_Listeners :: "Listener list \<Rightarrow> Listener list"
  order_Clusters :: "Cluster list \<Rightarrow> Cluster list"
  order_Routes :: "RouteConfiguration list \<Rightarrow> RouteConfiguration list"
  order_ScopedRoutes :: "ScopedRouteConfiguration list \<Rightarrow> ScopedRouteConfiguration list"
  order_CLAs :: "ClusterLoadAssignment list \<Rightarrow> ClusterLoadAssignment list"
  order_EndpointSlices :: "EndpointSlice list \<Rightarrow> EndpointSlice list"

definition reorders :: "list_order \<Rightarrow> bool" where
  "reorders ord \<longleftrightarrow> (\<forall>xs. mset (order_Listeners ord xs) = mset xs) \<and> (\<forall>xs. mset (order_Clusters ord xs) = mset xs) \<and>
     (\<forall>xs. mset (order_Routes ord xs) = mset xs) \<and> (\<forall>xs. mset (order_ScopedRoutes ord xs) = mset xs) \<and>
     (\<forall>xs. mset (order_CLAs ord xs) = mset xs) \<and> (\<forall>xs. mset (order_EndpointSlices ord xs) = mset xs)"

definition ordered :: "('s, 'res, 'snap, 'cache) deps \<Rightarrow> list_order \<Rightarrow> ('s, 'res, 'snap, 'cache) deps" where
  "ordered d ord = d\<lparr>
     ListListeners := \<lambda>s. map_sum id (order_Listeners ord) (ListListeners d s),
     ListClusters := \<lambda>s. map_sum id (order_Clusters ord) (ListClusters d s),
     ListRoutes := \<lambda>s. map_sum id (order_Routes ord) (ListRoutes d s),
     ListScopedRoutes := \<lambda>s. map_sum id (order_ScopedRoutes ord) (ListScopedRoutes d s),
     ListCLAs := \<lambda>s. map_sum id (order_CLAs ord) (ListCLAs d s),
     ListEndpointSlices := \<lambda>s ns labels. map_sum id (order_EndpointSlices ord) (ListEndpointSlices d s ns labels)\<rparr>"

text \<open>All but the lists is as before, so the promises of the environment hold for every order.\<close>

lemma ordered_simps [simp]:
  "GetEnvoyProxy (ordered d ord) = GetEnvoyProxy d" "IgnoreNotFound (ordered d ord) = IgnoreNotFound d"
  "MarshalCLA (ordered d ord) = MarshalCLA d" "UnmarshalResource (ordered d ord) = UnmarshalResource d"
  "NewSnapshot (ordered d ord) = NewSnapshot d" "SetSnapshot (ordered d ord) = SetSnapshot d"
  "SetStatusCondition (ordered d ord) = SetStatusCondition d" "StatusUpdate (ordered d ord) = StatusUpdate d"
  by (simp_all add: ordered_def)

lemma ordered_lists:
  "ListListeners (ordered d ord) s = map_sum id (order_Listeners ord) (ListListeners d s)"
  "ListClusters (ordered d ord) s = map_sum id (order_Clusters ord) (ListClusters d s)"
  "ListRoutes (ordered d ord) s = map_sum id (order_Routes ord) (ListRoutes d s)"
  "ListScopedRoutes (ordered d ord) s = map_sum id (order_ScopedRoutes ord) (ListScopedRoutes d s)"
  "ListCLAs (ordered d ord) s = map_sum id (order_CLAs ord) (ListCLAs d s)"
  "ListEndpointSlices (ordered d ord) s ns labels = map_sum id (order_EndpointSlices ord) (ListEndpointSlices d s ns labels)"
  by (simp_all add: ordered_def)

lemma with_condition_ordered [simp]: "with_condition (ordered d ord) = with_condition d"
  by (simp add: fun_eq_iff with_condition_def)

lemma same_reads_ordered: "same_reads d s s' \<Longrightarrow> same_reads (ordered d ord) s s'"
  by (simp add: same_reads_def ordered_def fun_eq_iff)

lemma mesh_env_ordered: "mesh_env d get \<Longrightarrow> mesh_env (ordered d ord) get"
  by (auto simp: mesh_env_def cache_laws_def get_law_def status_reads_law_def namespace_law_def intro: same_reads_ordered)

lemma status_write_law_ordered: "status_write_law d \<Longrightarrow> status_write_law (ordered d ord)"
  by (simp add: status_write_law_def condition_law_def)

lemma Reconcile_prog_ordered: "Reconcile_prog (ordered d ord) r = Reconcile_prog d r"
proof -
  have syn: "collectSynthesized_prog (ordered d ord) names specs vers cs = collectSynthesized_prog d names specs vers cs" for names specs vers cs
    by (induction cs arbitrary: specs vers) (simp_all only: collectSynthesized_prog.simps Let_def ordered_simps)
  show ?thesis
    unfolding Reconcile_prog_def collect_prog_def collectEndpoints_prog_def publish_prog_def setCondition_prog_def syn ordered_simps ..
qed

lemma run_ordered: "run_prog (ordered d ord) (Reconcile_prog d r) w = Reconcile (ordered d ord) w r"
  using Reconcile_prog_run [of "ordered d ord" r w] by (simp add: Reconcile_prog_ordered)

lemma started_ordered [simp]: "started (ordered d ord) r s = started d r s"
  by (simp add: started_def Reconcile_prog_ordered)

text \<open>A reconcile in any order changes nothing that is listed.\<close>

lemma Reconcile_reads_ordered:
  assumes "status_reads_law d"
  shows "same_reads d (w_api w) (w_api (snd (Reconcile (ordered d ord) w r)))"
proof (rule Reconcile_api [where R = "same_reads d"])
  show "same_reads d s (snd (snd (StatusUpdate (ordered d ord) s ep)))" for s ep
    using assms unfolding status_reads_law_def ordered_simps by blast
qed (simp, rule same_reads_trans)

section \<open>The version that is reported\<close>

definition reports :: "('s, 'res, 'snap, 'cache) deps \<Rightarrow> 's \<Rightarrow> NamespacedName \<Rightarrow> string \<Rightarrow> bool" where
  "reports d s r version \<longleftrightarrow>
     (\<exists>ep c. GetEnvoyProxy d s r = Inr ep \<and> condition_of ep ConditionReady = [c] \<and> cond_Message c = ''version='' @ version)"

lemma reports_unique: "reports d s r v \<Longrightarrow> reports d s r v' \<Longrightarrow> v = v'"
  by (auto simp: reports_def)

lemma reports_ordered [simp]: "reports (ordered d ord) = reports d"
  by (simp add: reports_def fun_eq_iff)

lemma Reconcile_reports:
  assumes law: "status_write_law d" and ep: "GetEnvoyProxy d (w_api w) r = Inr ep" and run: "Reconcile d w r = (None, w1)"
    and snap: "proxy_snapshot d (w_api w) ep = Inr (version, snap)"
  shows "reports d (w_api w1) r version"
proof (rule Reconcile_stored [OF law ep run])
  fix ep2 v snap' assume ep2: "GetEnvoyProxy d (w_api w1) r = Inr ep2" and "proxy_snapshot d (w_api w) ep = Inr (v, snap')"
    and keep: "with_condition d ep2 ConditionReady ConditionTrue ''SnapshotReady'' (''version='' @ v) = ep2"
  with snap have v: "v = version" by simp
  have "condition_law d" using law by (simp add: status_write_law_def)
  from condition_of_with_condition [OF this status_writeD(1) [OF law ep2], of ConditionReady ConditionTrue "''SnapshotReady''" "''version='' @ version" ConditionReady]
  show ?thesis using ep2 keep unfolding v reports_def by simp
qed

text \<open>A reconcile that causes no event has written nothing, so its version was reported before.\<close>

lemma Reconcile_silent:
  assumes law: "status_write_law d" and ep: "GetEnvoyProxy d (w_api w) r = Inr ep" and run: "Reconcile d w r = (None, w1)"
    and silent: "run_events d (Reconcile_prog d r) w = []"
  shows "w_api w1 = w_api w"
proof (cases rule: Reconcile_cases [of d w r])
  case (ok ep' version snap cache')
  with ep run have w1: "w1 = report_success d (w\<lparr>w_xds := (w_xds w)\<lparr>Cache := cache'\<rparr>\<rparr>) ep version" "ep' = ep"
    by (simp_all add: Reconcile_ok)
  from silent ok show ?thesis
    by (simp add: Reconcile_ok_events w1 report_success_def split_def setCondition_api setCondition_proxy IsConnected_def
        status_events_def Let_def split: if_splits)
qed (use ep run in \<open>simp_all add: Reconcile_rules\<close>)

lemma Reconcile_built:
  assumes "GetEnvoyProxy d (w_api w) r = Inr ep" and "Reconcile d w r = (None, w1)"
  obtains version snap where "proxy_snapshot d (w_api w) ep = Inr (version, snap)"
proof (cases rule: Reconcile_cases [of d w r])
  case (ok ep' version snap cache')
  with assms that show thesis by simp
qed (use assms in \<open>simp_all add: Reconcile_rules\<close>)

text \<open>
  C7. The status updates of a reconcile request the proxy again. After a reconcile that succeeded, let the next one
  of the same proxy succeed too, with nothing changed in between but the order in which lists come. It causes no
  event, and writes nothing, exactly if its version is that of the first reconcile; if the lists come in the
  same order the versions are the same. All events of a reconcile are events on its own proxy, so exactly in this case the proxy is not requested once more.
\<close>

theorem Reconcile_again_writes_iff:
  assumes law: "status_write_law d" "mesh_env d get" and ep: "GetEnvoyProxy d (w_api w) r = Inr ep"
    and first: "run_prog (ordered d ord1) (Reconcile_prog d r) w = (None, w1)"
    and second: "run_prog (ordered d ord2) (Reconcile_prog d r) w1 = (None, w2)"
  shows "\<exists>v1 snap1 ep1 v2 snap2. proxy_snapshot (ordered d ord1) (w_api w) ep = Inr (v1, snap1) \<and>
    GetEnvoyProxy d (w_api w1) r = Inr ep1 \<and> proxy_snapshot (ordered d ord2) (w_api w1) ep1 = Inr (v2, snap2) \<and>
    (run_events (ordered d ord2) (Reconcile_prog d r) w1 = [] \<longleftrightarrow> v1 = v2) \<and> (w_api w2 = w_api w1 \<longleftrightarrow> v1 = v2) \<and>
    (ord1 = ord2 \<longrightarrow> v1 = v2) \<and>
    (\<forall>ev \<in> set (run_events (ordered d ord2) (Reconcile_prog d r) w1). \<exists>u. ev = ObjEnvoyProxy u \<and> proxy_name u = r)"
proof -
  let ?d1 = "ordered d ord1" and ?d2 = "ordered d ord2"
  have law1: "status_write_law ?d1" "mesh_env ?d1 get" and law2: "status_write_law ?d2" "mesh_env ?d2 get"
    using law by (simp_all add: status_write_law_ordered mesh_env_ordered)
  have run1: "Reconcile ?d1 w r = (None, w1)" and run2: "Reconcile ?d2 w1 r = (None, w2)"
    using first second by (simp_all add: run_ordered)
  have get1: "GetEnvoyProxy ?d1 (w_api w) r = Inr ep" using ep by simp
  obtain v1 snap1 where s1: "proxy_snapshot ?d1 (w_api w) ep = Inr (v1, snap1)" by (rule Reconcile_built [OF get1 run1])
  have rep1: "reports d (w_api w1) r v1" using Reconcile_reports [OF law1(1) get1 run1 s1] by simp
  then obtain ep1 where ep1: "GetEnvoyProxy d (w_api w1) r = Inr ep1" by (auto simp: reports_def)
  then have get2: "GetEnvoyProxy ?d2 (w_api w1) r = Inr ep1" by simp
  obtain v2 snap2 where s2: "proxy_snapshot ?d2 (w_api w1) ep1 = Inr (v2, snap2)" by (rule Reconcile_built [OF get2 run2])
  have rep2: "reports d (w_api w2) r v2" using Reconcile_reports [OF law2(1) get2 run2 s2] by simp
  have silent: "w_api w2 = w_api w1" if "run_events ?d2 (Reconcile_prog d r) w1 = []"
    using Reconcile_silent [OF law2(1) get2 run2] that by (simp add: Reconcile_prog_ordered)
  have same: "v1 = v2" if "w_api w2 = w_api w1" using rep1 rep2 that by (simp add: reports_unique)
  have quiet: "run_events ?d2 (Reconcile_prog d r) w1 = []" if "v1 = v2"
  proof -
    obtain ep2 version snap where "GetEnvoyProxy ?d1 (w_api w1) r = Inr ep2" "proxy_snapshot ?d1 (w_api w) ep = Inr (version, snap)"
      "connected (w_xds w1) = connected (w_xds w)"
      "with_condition d ep2 ConditionConnected (if IsConnected (w_xds w) (nodeID ep) then ConditionTrue else ConditionFalse) ''StreamStatus'' [] = ep2"
      "with_condition d ep2 ConditionReady ConditionTrue ''SnapshotReady'' (''version='' @ version) = ep2"
      using Reconcile_stored [OF law1(1) get1 run1] by (metis with_condition_ordered)
    moreover have "nodeID ep1 = nodeID ep"
      using nodeID_node_of [OF mesh_envD(2) [OF law(2)]] ep ep1 by metis
    ultimately have "status_current ?d2 w1 r"
      using ep1 s1 s2 that by (simp add: status_current_def IsConnected_def)
    from status_current_quiet [OF law2(1) this] run2 show ?thesis by (simp add: Reconcile_prog_ordered)
  qed
  have own: "\<exists>u. ev = ObjEnvoyProxy u \<and> proxy_name u = r" if "ev \<in> set (run_events ?d2 (Reconcile_prog d r) w1)" for ev
    using Reconcile_own_events [OF law2(1) mesh_envD(2) [OF law2(2)], of w1 r ev] run2 that by (simp add: Reconcile_prog_ordered)
  have "v1 = v2" if "ord1 = ord2"
  proof -
    have "same_config ?d1 (w_api w) (w_api w1)"
      using same_reads_config [OF mesh_envD(2) [OF law1(2)] Reconcile_reads [OF mesh_envD(3) [OF law1(2)], of w r]] run1 by simp
    from key_snapshot_config [OF this, of r] s1 s2 that
      proxy_snapshot_key [OF mesh_envD(2) [OF law1(2)] get1] proxy_snapshot_key [OF mesh_envD(2) [OF law2(2)] get2]
    show ?thesis by simp
  qed
  with s1 ep1 s2 silent same quiet own show ?thesis by blast
qed

section \<open>Orders that make no difference\<close>

text \<open>
  A set of orders agrees in a state if all of them give every name the same collections: of the five kinds
  what is collected, of endpoint slices the lists themselves. One order alone can always be taken for that of
  the client. All orders agree if no two objects of a kind have the same target and no service has two slices.
\<close>

definition orders_agree :: "('s, 'res, 'snap, 'cache) deps \<Rightarrow> 's \<Rightarrow> list_order set \<Rightarrow> bool" where
  "orders_agree d s orders \<longleftrightarrow> (\<forall>ord \<in> orders.
     (\<forall>ns name. collectListeners (ordered d ord) s ns name = collectListeners d s ns name \<and>
        collectClusters (ordered d ord) s ns name = collectClusters d s ns name \<and>
        collectRoutes (ordered d ord) s ns name = collectRoutes d s ns name \<and>
        collectScopedRoutes (ordered d ord) s ns name = collectScopedRoutes d s ns name \<and>
        map_sum id (collectManual ns name) (ListCLAs (ordered d ord) s) = map_sum id (collectManual ns name) (ListCLAs d s)) \<and>
     (\<forall>ns labels. ListEndpointSlices (ordered d ord) s ns labels = ListEndpointSlices d s ns labels))"

definition lone :: "('a \<Rightarrow> TargetRef) \<Rightarrow> ('a \<Rightarrow> ObjectMeta) \<Rightarrow> 'a list result \<Rightarrow> bool" where
  "lone ref meta r \<longleftrightarrow> (\<forall>xs ns name. r = Inr xs \<longrightarrow>
     length (filter (\<lambda>x. targetMatches (ref x) (meta_Namespace (meta x)) ns name) xs) \<le> 1)"

definition lone_objects :: "('s, 'res, 'snap, 'cache) deps \<Rightarrow> 's \<Rightarrow> bool" where
  "lone_objects d s \<longleftrightarrow> lone Listener_TargetRef Listener_ObjectMeta (ListListeners d s) \<and>
     lone Cluster_TargetRef Cluster_ObjectMeta (ListClusters d s) \<and>
     lone RouteConfiguration_TargetRef RouteConfiguration_ObjectMeta (ListRoutes d s) \<and>
     lone ScopedRouteConfiguration_TargetRef ScopedRouteConfiguration_ObjectMeta (ListScopedRoutes d s) \<and>
     lone ClusterLoadAssignment_TargetRef ClusterLoadAssignment_ObjectMeta (ListCLAs d s) \<and>
     (\<forall>ns labels slices. ListEndpointSlices d s ns labels = Inr slices \<longrightarrow> length slices \<le> 1)"

lemma mset_short:
  assumes "mset ys = mset xs" and "length xs \<le> 1"
  shows "ys = xs"
proof -
  have "length ys = length xs" using assms(1) by (rule mset_eq_length)
  with assms show ?thesis by (cases xs; cases ys) auto
qed

lemma mset_filter_short:
  assumes "mset ys = mset xs" and "length (filter p xs) \<le> 1"
  shows "filter p ys = filter p xs"
proof (rule mset_short)
  show "mset (filter p ys) = mset (filter p xs)" using assms(1) by (metis mset_filter)
qed (rule assms(2))

lemma lone_reorder:
  assumes "lone ref meta (Inr xs)" and "\<forall>xs. mset (f xs) = mset xs"
  shows "filter (\<lambda>x. targetMatches (ref x) (meta_Namespace (meta x)) ns name) (f xs) =
    filter (\<lambda>x. targetMatches (ref x) (meta_Namespace (meta x)) ns name) xs"
  using assms by (intro mset_filter_short) (simp_all add: lone_def)

lemma lone_agree:
  assumes "lone_objects d s" and "\<forall>ord \<in> orders. reorders ord"
  shows "orders_agree d s orders"
  unfolding orders_agree_def
proof (intro ballI conjI allI)
  fix ord ns name assume "ord \<in> orders"
  with assms(2) have "reorders ord" by blast
  then have re: "\<forall>xs. mset (order_Listeners ord xs) = mset xs" "\<forall>xs. mset (order_Clusters ord xs) = mset xs"
    "\<forall>xs. mset (order_Routes ord xs) = mset xs" "\<forall>xs. mset (order_ScopedRoutes ord xs) = mset xs"
    "\<forall>xs. mset (order_CLAs ord xs) = mset xs"
    by (simp_all add: reorders_def)
  note lone = assms(1) [unfolded lone_objects_def]
  show "collectListeners (ordered d ord) s ns name = collectListeners d s ns name"
    using lone lone_reorder [OF _ re(1), of Listener_TargetRef Listener_ObjectMeta]
    by (cases "ListListeners d s") (simp_all add: collectListeners_def ordered_lists lst.collect_eq)
  show "collectClusters (ordered d ord) s ns name = collectClusters d s ns name"
    using lone lone_reorder [OF _ re(2), of Cluster_TargetRef Cluster_ObjectMeta]
    by (cases "ListClusters d s") (simp_all add: collectClusters_def ordered_lists collectClusters_items_eq)
  show "collectRoutes (ordered d ord) s ns name = collectRoutes d s ns name"
    using lone lone_reorder [OF _ re(3), of RouteConfiguration_TargetRef RouteConfiguration_ObjectMeta]
    by (cases "ListRoutes d s") (simp_all add: collectRoutes_def ordered_lists rts.collect_eq)
  show "collectScopedRoutes (ordered d ord) s ns name = collectScopedRoutes d s ns name"
    using lone lone_reorder [OF _ re(4), of ScopedRouteConfiguration_TargetRef ScopedRouteConfiguration_ObjectMeta]
    by (cases "ListScopedRoutes d s") (simp_all add: collectScopedRoutes_def ordered_lists srs.collect_eq)
  show "map_sum id (collectManual ns name) (ListCLAs (ordered d ord) s) = map_sum id (collectManual ns name) (ListCLAs d s)"
    using lone lone_reorder [OF _ re(5), of ClusterLoadAssignment_TargetRef ClusterLoadAssignment_ObjectMeta]
    by (cases "ListCLAs d s") (simp_all add: ordered_lists collectManual_eq manual_items_def)
next
  fix ord ns labels assume "ord \<in> orders"
  with assms show "ListEndpointSlices (ordered d ord) s ns labels = ListEndpointSlices d s ns labels"
    by (cases "ListEndpointSlices d s ns labels") (auto simp: ordered_lists lone_objects_def reorders_def intro: mset_short)
qed

lemma orders_agree_reads: "same_reads d s s' \<Longrightarrow> orders_agree d s orders \<Longrightarrow> orders_agree d s' orders"
  by (simp add: orders_agree_def same_reads_def ordered_lists collectListeners_def collectClusters_def collectRoutes_def collectScopedRoutes_def)

text \<open>The snapshot of a proxy is then the same in all of the orders.\<close>

lemma orders_agree_snapshot:
  assumes "orders_agree d s orders" and "ord \<in> orders"
  shows "proxy_snapshot (ordered d ord) s ep = proxy_snapshot d s ep"
proof -
  have syn: "collectSynthesized (ordered d ord) s names specs vers cs = collectSynthesized d s names specs vers cs" for names specs vers cs
    using assms by (induction cs arbitrary: specs vers) (simp_all only: collectSynthesized.simps Let_def ordered_simps orders_agree_def)
  have "collectEndpoints (ordered d ord) s ns name cs = collectEndpoints d s ns name cs" for ns name cs
  proof -
    have eq: "map_sum id (collectManual ns name) (ListCLAs (ordered d ord) s) = map_sum id (collectManual ns name) (ListCLAs d s)"
      using assms by (simp add: orders_agree_def)
    have "collectEndpoints d' s ns name cs = result_bind (map_sum id (collectManual ns name) (ListCLAs d' s))
        (\<lambda>(specs, vers, names). collectSynthesized d' s names specs vers cs)" for d' :: "('a, 'b, 'c, 'd) deps"
      by (cases "ListCLAs d' s") (simp_all add: collectEndpoints_def)
    from this [of "ordered d ord"] this [of d] show ?thesis by (simp add: eq syn)
  qed
  with assms have "collectAll (ordered d ord) s ns name = collectAll d s ns name" for ns name
    by (simp add: collectAll_def orders_agree_def)
  then show ?thesis by (simp add: proxy_snapshot_def)
qed

section \<open>Programs that do not depend on the order\<close>

text \<open>
  Every list call of a program goes on in the same way for the list in a given order as for the list of
  the client, however the calls before it were answered.
\<close>

primrec order_free :: "('s, 'res, 'snap, 'cache) deps \<Rightarrow> list_order \<Rightarrow> 's \<Rightarrow> ('snap, 'a) prog \<Rightarrow> bool" where
  "order_free d ord s (Return x) = True"
| "order_free d ord s (CallGet q k) = (\<forall>x. order_free d ord s (k x))"
| "order_free d ord s (CallListListeners k) = (k (ListListeners (ordered d ord) s) = k (ListListeners d s) \<and> (\<forall>x. order_free d ord s (k x)))"
| "order_free d ord s (CallListClusters k) = (k (ListClusters (ordered d ord) s) = k (ListClusters d s) \<and> (\<forall>x. order_free d ord s (k x)))"
| "order_free d ord s (CallListRoutes k) = (k (ListRoutes (ordered d ord) s) = k (ListRoutes d s) \<and> (\<forall>x. order_free d ord s (k x)))"
| "order_free d ord s (CallListScopedRoutes k) =
     (k (ListScopedRoutes (ordered d ord) s) = k (ListScopedRoutes d s) \<and> (\<forall>x. order_free d ord s (k x)))"
| "order_free d ord s (CallListCLAs k) = (k (ListCLAs (ordered d ord) s) = k (ListCLAs d s) \<and> (\<forall>x. order_free d ord s (k x)))"
| "order_free d ord s (CallListEndpointSlices ns labels k) =
     (k (ListEndpointSlices (ordered d ord) s ns labels) = k (ListEndpointSlices d s ns labels) \<and> (\<forall>x. order_free d ord s (k x)))"
| "order_free d ord s (CallSetSnapshot n snap k) = (\<forall>x. order_free d ord s (k x))"
| "order_free d ord s (CallIsConnected n k) = (\<forall>x. order_free d ord s (k x))"
| "order_free d ord s (CallStatusUpdate ep k) = (\<forall>x. order_free d ord s (k x))"
| "order_free d ord s (CallLogError t e p) = order_free d ord s p"

lemma order_free_bind: "order_free d ord s p \<Longrightarrow> (\<And>x. order_free d ord s (f x)) \<Longrightarrow> order_free d ord s (prog_bind p f)"
  by (induction p) simp_all

lemma order_free_try: "order_free d ord s p \<Longrightarrow> (\<And>x. order_free d ord s (f x)) \<Longrightarrow> order_free d ord s (prog_try prefix p f)"
  unfolding prog_try_def by (rule order_free_bind) (auto split: sum.split)

lemma order_free_setCondition: "order_free d ord s (setCondition_prog d ep ct st rs msg)"
  by (simp add: setCondition_prog_def Let_def split: option.split)

lemma order_free_publish: "order_free d ord s (publish_prog d ep version built)"
  by (auto simp: publish_prog_def split: sum.split option.split intro!: order_free_bind order_free_setCondition)

lemma order_free_collect:
  assumes "orders_agree d s orders" and "ord \<in> orders"
  shows "order_free d ord s (collectListeners_prog ns name)" "order_free d ord s (collectClusters_prog ns name)"
    "order_free d ord s (collectRoutes_prog ns name)" "order_free d ord s (collectScopedRoutes_prog ns name)"
  using assms by (simp_all add: orders_agree_def collectListeners_prog_def collectClusters_prog_def collectRoutes_prog_def
      collectScopedRoutes_prog_def collectListeners_def collectClusters_def collectRoutes_def collectScopedRoutes_def)

lemma order_free_endpoints:
  assumes agree: "orders_agree d s orders" "ord \<in> orders"
  shows "order_free d ord s (collectEndpoints_prog d ns name cs)"
proof -
  have syn: "order_free d ord s (collectSynthesized_prog d names specs vers cs)" for names specs vers
    using agree by (induction cs arbitrary: specs vers) (auto simp: orders_agree_def Let_def split: option.split sum.split)
  let ?k = "\<lambda>r. case r of Inl err \<Rightarrow> Return (Inl err)
    | Inr clas \<Rightarrow> (let (specs, versions, names) = collectManual ns name clas in collectSynthesized_prog d names specs versions cs)"
  have via: "?k r = (case map_sum id (collectManual ns name) r of Inl err \<Rightarrow> Return (Inl err)
      | Inr (specs, versions, names) \<Rightarrow> collectSynthesized_prog d names specs versions cs)" for r
    by (cases r) simp_all
  have "map_sum id (collectManual ns name) (ListCLAs (ordered d ord) s) = map_sum id (collectManual ns name) (ListCLAs d s)"
    using agree by (simp add: orders_agree_def)
  then have "?k (ListCLAs (ordered d ord) s) = ?k (ListCLAs d s)" unfolding via by simp
  moreover have "order_free d ord s (?k r)" for r using syn by (auto simp: split_def Let_def split: sum.split)
  ultimately show ?thesis by (simp add: collectEndpoints_prog_def)
qed

lemma order_free_Reconcile:
  assumes "orders_agree d s orders" and "ord \<in> orders"
  shows "order_free d ord s (Reconcile_prog d r)"
  using order_free_collect [OF assms] order_free_endpoints [OF assms] order_free_publish
  by (auto simp: Reconcile_prog_def collect_prog_def Let_def split: sum.split intro!: order_free_try)

lemma call_step_order_free: "call_step d w l p evs w' l' p' \<Longrightarrow> order_free d' ord s p \<Longrightarrow> order_free d' ord s p'"
  by (erule call_step.cases) auto

text \<open>The running reconcile of a reachable state is such a program.\<close>

lemma reachable_order_free:
  assumes "c_active c0 = None" and "(controller_step d)\<^sup>*\<^sup>* c0 c" and "orders_agree d s orders" and "ord \<in> orders" and "c_active c = Some a"
  shows "order_free d ord s (run_rest a)"
  using assms(2,5)
proof (induction arbitrary: a)
  case base
  with assms(1) show ?case by simp
next
  case (step c1 c2)
  from step.hyps(2) show ?case
  proof (cases rule: controller_step.cases)
    case (pick r)
    with step.prems order_free_Reconcile [OF assms(3,4)] show ?thesis by (simp add: started_def) auto
  next
    case (call b evs w' l' p')
    with step.prems step.IH [OF call(2)] show ?thesis by (auto intro: call_step_order_free)
  qed (use step in auto)
qed

section \<open>Lists in any order\<close>

text \<open>
  A step of the controller that nothing else disturbs, in which a list call is answered in one of the
  given orders, another one at each step.
\<close>

definition shuffled_step ::
  "('s, 'res, 'snap, 'cache) deps \<Rightarrow> list_order set \<Rightarrow> ('s, 'snap, 'cache) controller \<Rightarrow> ('s, 'snap, 'cache) controller \<Rightarrow> bool" where
  "shuffled_step d orders c c' \<longleftrightarrow> (\<exists>ord \<in> orders. undisturbed_step (ordered d ord) c c')"

lemma watchRequests_ordered:
  assumes "reorders ord"
  shows "set (watchRequests (ordered d ord) s obj) = set (watchRequests d s obj)"
proof (cases "\<exists>sl. obj = ObjEndpointSlice sl")
  case True
  then obtain sl where obj: "obj = ObjEndpointSlice sl" by blast
  have "set (order_Clusters ord xs) = set xs" for xs using assms by (metis reorders_def mset_eq_setD)
  then have "r \<in> set (mapEndpointSliceToProxies (ordered d ord) s obj) \<longleftrightarrow> r \<in> set (mapEndpointSliceToProxies d s obj)" for r
    by (cases "ListClusters d s") (auto simp: mapEndpointSliceToProxies_request ordered_lists)
  then show ?thesis by (simp add: watchRequests_def obj set_eq_iff)
next
  case False
  then show ?thesis by (cases obj) (simp_all add: watchRequests_def)
qed

lemma next_call_ordered: "order_free d ord (w_api w) p \<Longrightarrow> next_call (ordered d ord) w l p = next_call d w l p"
  by (cases p) simp_all

text \<open>Where the order does not matter to the running reconcile, the step is one of the client's order.\<close>

lemma undisturbed_ordered:
  assumes "reorders ord" and "\<forall>a. c_active c = Some a \<longrightarrow> order_free d ord (c_api c) (run_rest a)"
  shows "undisturbed_step (ordered d ord) c c' \<longleftrightarrow> undisturbed_step d c c'"
proof
  assume "undisturbed_step (ordered d ord) c c'"
  then show "undisturbed_step d c c'"
  proof cases
    case (u_handle xs obj ys)
    then show ?thesis using undisturbed_step.u_handle [OF u_handle(2), of d] by (simp add: watchRequests_ordered [OF assms(1)])
  next
    case (u_pick r)
    then show ?thesis using undisturbed_step.u_pick [OF u_pick(2,3), of d] by simp
  next
    case (u_call a evs w' l' p')
    then show ?thesis using undisturbed_step.u_call [OF u_call(2)] assms(2) by (simp add: next_call_ordered)
  next
    case (u_finish a err)
    then show ?thesis using undisturbed_step.u_finish [OF u_finish(2,3), of d] by simp
  qed
next
  assume "undisturbed_step d c c'"
  then show "undisturbed_step (ordered d ord) c c'"
  proof cases
    case (u_handle xs obj ys)
    then show ?thesis using undisturbed_step.u_handle [OF u_handle(2), of "ordered d ord"] by (simp add: watchRequests_ordered [OF assms(1)])
  next
    case (u_pick r)
    then show ?thesis using undisturbed_step.u_pick [OF u_pick(2,3), of "ordered d ord"] by simp
  next
    case (u_call a evs w' l' p')
    then show ?thesis using undisturbed_step.u_call [OF u_call(2), of "ordered d ord"] assms(2) by (simp add: next_call_ordered)
  next
    case (u_finish a err)
    then show ?thesis using undisturbed_step.u_finish [OF u_finish(2,3), of "ordered d ord"] by simp
  qed
qed

text \<open>A run in any of the orders is a run in the order of the client, as long as the orders agree.\<close>

lemma shuffled_iff:
  assumes "c_active c0 = None" and "(controller_step d)\<^sup>*\<^sup>* c0 c" and "orders_agree d (c_api c) orders" and "\<forall>ord \<in> orders. reorders ord"
    and "orders \<noteq> {}"
  shows "shuffled_step d orders c c' \<longleftrightarrow> undisturbed_step d c c'"
proof -
  have "undisturbed_step (ordered d ord) c c' \<longleftrightarrow> undisturbed_step d c c'" if "ord \<in> orders" for ord
    using assms(4) that reachable_order_free [OF assms(1,2,3) that] by (intro undisturbed_ordered) auto
  with assms(5) show ?thesis by (auto simp: shuffled_step_def)
qed

lemma shuffled_run:
  assumes env: "mesh_env d get" and start: "c_active c0 = None" "(controller_step d)\<^sup>*\<^sup>* c0 c"
    and orders: "orders_agree d (c_api c) orders" "\<forall>ord \<in> orders. reorders ord" "orders \<noteq> {}" and run: "(shuffled_step d orders)\<^sup>*\<^sup>* c c'"
  shows "(undisturbed_step d)\<^sup>*\<^sup>* c c'" "(controller_step d)\<^sup>*\<^sup>* c0 c'" "orders_agree d (c_api c') orders"
proof -
  from run have "(undisturbed_step d)\<^sup>*\<^sup>* c c' \<and> (controller_step d)\<^sup>*\<^sup>* c0 c' \<and> orders_agree d (c_api c') orders"
  proof induction
    case base
    with start orders show ?case by simp
  next
    case (step c1 c2)
    then have s: "undisturbed_step d c1 c2" using shuffled_iff [OF start(1) _ _ orders(2,3)] by blast
    with step.IH orders_agree_reads [OF undisturbed_reads [OF env s]] undisturbed_controller [OF s] show ?case
      by (auto intro: rtranclp.rtrancl_into_rtrancl)
  qed
  then show "(undisturbed_step d)\<^sup>*\<^sup>* c c'" "(controller_step d)\<^sup>*\<^sup>* c0 c'" "orders_agree d (c_api c') orders" by blast+
qed

text \<open>
  C3. A controller that is left alone comes to rest if the orders in which lists may come make no difference. Take a state that
  can be reached without losing an event and in which the snapshots can be built and stored. From then on nothing changes but
  the status, and every list call is answered in one of a set of orders, another one at each call. If these orders agree on what each proxy
  collects (there is only one order, or no two objects of a kind have the same target and no service has two slices), then there is no infinite run of event handlers and
  reconciles, although every status update requests its proxy again. Every run that cannot go on has ended in a quiet state, in which
  the cache has the snapshot of the current configuration for every existing proxy, the same in all the orders.
\<close>

theorem controller_settles:
  assumes env: "mesh_env d get" "status_write_law d" and start: "controller_start d c0" "(controller_step d)\<^sup>*\<^sup>* c0 c"
    and lost: "c_lost c = {}" and rec: "reconcilable d (c_api c)"
    and orders: "orders_agree d (c_api c) orders" "\<forall>ord \<in> orders. reorders ord" "orders \<noteq> {}"
  shows "\<not> (\<exists>f. f 0 = c \<and> (\<forall>n. shuffled_step d orders (f n) (f (Suc n)))) \<and>
    (\<forall>c'. (shuffled_step d orders)\<^sup>*\<^sup>* c c' \<and> (\<nexists>c''. shuffled_step d orders c' c'') \<longrightarrow>
       quiet c' \<and> same_reads d (c_api c) (c_api c') \<and>
       (\<forall>r ep. GetEnvoyProxy d (c_api c') r = Inr ep \<longrightarrow>
          (\<exists>version snap. get (Cache (w_xds (c_world c'))) (nodeID ep) = Some snap \<and>
             (\<forall>ord \<in> orders. proxy_snapshot (ordered d ord) (c_api c') ep = Inr (version, snap)))))"
proof (intro conjI allI impI)
  have act: "c_active c0 = None" using start(1) by (simp add: controller_start_def)
  have fin: "finite (c_queue c)" by (rule reachable_queue [OF start])
  note run = shuffled_run [OF env(1) act start(2) orders]
  show "\<not> (\<exists>f. f 0 = c \<and> (\<forall>n. shuffled_step d orders (f n) (f (Suc n))))"
  proof
    assume "\<exists>f. f 0 = c \<and> (\<forall>n. shuffled_step d orders (f n) (f (Suc n)))"
    then obtain f where f: "f 0 = c" "\<And>n. shuffled_step d orders (f n) (f (Suc n))" by blast
    have reach: "(shuffled_step d orders)\<^sup>*\<^sup>* c (f n)" for n
      by (induction n) (auto simp: f intro: rtranclp.rtrancl_into_rtrancl)
    have "undisturbed_step d (f n) (f (Suc n))" for n
      using shuffled_iff [OF act run(2,3) [OF reach] orders(2,3)] f(2) by blast
    with no_infinite_run [OF env fin rec] f(1) show False by blast
  qed
  fix c' assume "(shuffled_step d orders)\<^sup>*\<^sup>* c c' \<and> (\<nexists>c''. shuffled_step d orders c' c'')"
  then have c': "(shuffled_step d orders)\<^sup>*\<^sup>* c c'" and stuck: "\<nexists>c''. undisturbed_step d c' c''"
    using shuffled_iff [OF act run(2,3) orders(2,3)] by blast+
  note rest = rest_quiet [OF env(1) run(1) [OF c'] stuck fin rec lost]
  show "quiet c'" "same_reads d (c_api c) (c_api c')" by (rule rest)+
  fix r ep assume ep: "GetEnvoyProxy d (c_api c') r = Inr ep"
  from rest have "\<exists>version snap. proxy_snapshot d (c_api c') ep = Inr (version, snap) \<and> get (Cache (w_xds (c_world c'))) (nodeID ep) = Some snap"
    by (intro settled_snapshot [OF env(1) start(1) run(2) [OF c'] _ _ _ _ ep]) (simp_all add: quiet_def)
  then show "\<exists>version snap. get (Cache (w_xds (c_world c'))) (nodeID ep) = Some snap \<and>
      (\<forall>ord \<in> orders. proxy_snapshot (ordered d ord) (c_api c') ep = Inr (version, snap))"
    using orders_agree_snapshot [OF run(3) [OF c']] by auto
qed

section \<open>Orders that make a difference\<close>

text \<open>The calls of the running reconcile with nothing else in between.\<close>

lemma undisturbed_calls:
  assumes "c_active c = Some a"
  shows "\<exists>T l. (undisturbed_step d)\<^sup>*\<^sup>* c (c\<lparr>c_world := snd (run_prog d (run_rest a) (c_world c)),
    c_events := c_events c @ run_events d (run_rest a) (c_world c),
    c_active := Some (a\<lparr>run_seen := T, run_log := l, run_rest := Return (fst (run_prog d (run_rest a) (c_world c)))\<rparr>)\<rparr>)"
  using assms
proof (induction "calls_left d (run_rest a) (c_world c)" arbitrary: c a)
  case 0
  then have "next_call d (c_world c) (run_log a) (run_rest a) = None"
    using next_call_run(3) by (metis not_None_eq prod_cases4 nat.distinct(1))
  then obtain err where err: "run_rest a = Return err" by (auto simp: next_call_None)
  with "0.prems" have "c = c\<lparr>c_world := c_world c, c_events := c_events c @ [],
      c_active := Some (a\<lparr>run_seen := run_seen a, run_log := run_log a, run_rest := Return err\<rparr>)\<rparr>" by auto
  then have "(undisturbed_step d)\<^sup>*\<^sup>* c (c\<lparr>c_world := c_world c, c_events := c_events c @ [],
      c_active := Some (a\<lparr>run_seen := run_seen a, run_log := run_log a, run_rest := Return err\<rparr>)\<rparr>)"
    by (metis rtranclp.rtrancl_refl)
  with err show ?case by (intro exI [of _ "run_seen a"] exI [of _ "run_log a"]) simp
next
  case (Suc n)
  then have "\<nexists>x. run_rest a = Return x" by auto
  then obtain evs w' l' p' where call: "next_call d (c_world c) (run_log a) (run_rest a) = Some (evs, w', l', p')"
    by (metis next_call_None not_None_eq prod_cases4)
  note run = next_call_run [OF call]
  let ?a = "a\<lparr>run_seen := insert (w_api w') (run_seen a), run_log := l', run_rest := p'\<rparr>"
  let ?c = "c\<lparr>c_world := w', c_events := c_events c @ evs, c_active := Some ?a\<rparr>"
  have "n = calls_left d (run_rest ?a) (c_world ?c)" using Suc.hyps(2) run(3) by simp
  from Suc.hyps(1) [OF this] obtain T l where "(undisturbed_step d)\<^sup>*\<^sup>* ?c (c\<lparr>c_world := snd (run_prog d p' w'),
      c_events := c_events c @ evs @ run_events d p' w',
      c_active := Some (a\<lparr>run_seen := T, run_log := l, run_rest := Return (fst (run_prog d p' w'))\<rparr>)\<rparr>)" by auto
  moreover have "undisturbed_step d c ?c" by (rule u_call [OF Suc.prems call])
  ultimately show ?case unfolding run by (blast intro: converse_rtranclp_into_rtranclp)
qed

text \<open>
  One round: the requested proxy is reconciled in some order, its version was not reported before, and the event of
  its status update requests it again.
\<close>

lemma reconcile_round:
  assumes env: "mesh_env d get" "status_write_law d" and c: "c_active c = None" "r \<in> c_queue c" "GetEnvoyProxy d (c_api c) r = Inr ep"
    and snap: "proxy_snapshot (ordered d ord) (c_api c) ep = Inr (version, snap)" "\<not> reports d (c_api c) r version"
    and set: "\<forall>cache n snap. fst (SetSnapshot d cache n snap) = None" and ord: "ord \<in> orders"
  shows "\<exists>c'. (shuffled_step d orders)\<^sup>+\<^sup>+ c c' \<and> c_active c' = None \<and> r \<in> c_queue c' \<and> same_reads d (c_api c) (c_api c') \<and>
    reports d (c_api c') r version"
proof -
  let ?d = "ordered d ord"
  have law: "status_write_law ?d" "mesh_env ?d get" using env by (simp_all add: status_write_law_ordered mesh_env_ordered)
  have step: "shuffled_step d orders c1 c2" if "undisturbed_step ?d c1 c2" for c1 c2 using that ord by (auto simp: shuffled_step_def)
  define w1 where "w1 = snd (Reconcile ?d (c_world c) r)"
  define evs where "evs = run_events ?d (Reconcile_prog d r) (c_world c)"
  have get: "GetEnvoyProxy ?d (w_api (c_world c)) r = Inr ep" using c(3) by simp
  obtain cache' where "SetSnapshot ?d (Cache (w_xds (c_world c))) (nodeID ep) snap = (None, cache')"
    using set by (metis ordered_simps(6) prod.collapse)
  from Reconcile_ok [OF get snap(1) this] have run: "Reconcile ?d (c_world c) r = (None, w1)" by (simp add: w1_def)
  have rep: "reports d (w_api w1) r version" using Reconcile_reports [OF law(1) get run snap(1)] by simp
  have reads: "same_reads d (c_api c) (w_api w1)"
    unfolding w1_def by (rule Reconcile_reads_ordered [OF mesh_envD(3) [OF env(1)]])
  have "evs \<noteq> []"
    using Reconcile_silent [OF law(1) get run] rep snap(2) by (auto simp: evs_def Reconcile_prog_ordered)
  then obtain ev rest where evs: "evs = ev # rest" by (cases evs) auto
  then obtain u where u: "ev = ObjEnvoyProxy u" "proxy_name u = r"
    using Reconcile_own_events [OF law(1) mesh_envD(2) [OF law(2)], of "c_world c" r ev] run
    by (auto simp: evs_def Reconcile_prog_ordered)
  define c1 where "c1 = c\<lparr>c_queue := c_queue c - {r}, c_active := Some (started d r (c_api c)), c_lost := c_lost c - {r}\<rparr>"
  have s1: "undisturbed_step ?d c c1" using u_pick [OF c(1,2), of ?d] by (simp add: c1_def)
  have "run_prog ?d (Reconcile_prog d r) (c_world c) = (None, w1)" by (simp add: run_ordered run)
  with undisturbed_calls [of c1 "started d r (c_api c)" ?d] obtain T l where
    s2: "(undisturbed_step ?d)\<^sup>*\<^sup>* c1 (c1\<lparr>c_world := w1, c_events := c_events c @ evs,
      c_active := Some ((started d r (c_api c))\<lparr>run_seen := T, run_log := l, run_rest := Return None\<rparr>)\<rparr>)"
    by (auto simp: c1_def started_def evs_def)
  let ?c2 = "c1\<lparr>c_world := w1, c_events := c_events c @ evs,
    c_active := Some ((started d r (c_api c))\<lparr>run_seen := T, run_log := l, run_rest := Return None\<rparr>)\<rparr>"
  let ?c3 = "c1\<lparr>c_world := w1, c_events := c_events c @ evs, c_active := None\<rparr>"
  have s3: "undisturbed_step ?d ?c2 ?c3" using u_finish [of ?c2 _ None ?d] by simp
  let ?c4 = "?c3\<lparr>c_events := c_events c @ rest, c_queue := c_queue c1 \<union> {r}\<rparr>"
  have s4: "undisturbed_step ?d ?c3 ?c4"
    using u_handle [of ?c3 "c_events c" ev rest ?d] by (simp add: evs u watchRequests_proxy)
  from s2 have "(shuffled_step d orders)\<^sup>*\<^sup>* c1 ?c2" by (rule rtranclp_mono [THEN predicate2D, rotated]) (auto intro: step)
  with step [OF s1] step [OF s3] step [OF s4] have "(shuffled_step d orders)\<^sup>+\<^sup>+ c ?c4"
    by (meson rtranclp_into_tranclp2 tranclp.trancl_into_trancl tranclp_rtranclp_tranclp)
  with rep reads show ?thesis by (intro exI [of _ ?c4]) simp
qed

text \<open>A run that can always be continued to one of two kinds of states in turn visits both of them again and again.\<close>

lemma alternating_run:
  assumes rounds: "\<And>x b. Q x b \<Longrightarrow> \<exists>y. R\<^sup>+\<^sup>+ x y \<and> Q y (\<not> b)" and "R\<^sup>+\<^sup>+ x y" and "Q y b0"
  shows "\<exists>f. f 0 = x \<and> (\<forall>n. R (f n) (f (Suc n))) \<and> (\<forall>n b. \<exists>m \<ge> n. Q (f m) b)"
proof -
  have split: "\<exists>k x'. R x x' \<and> (R ^^ k) x' y" if "R\<^sup>+\<^sup>+ x y" for x y
    using that by (metis gr0_conv_Suc relpowp_Suc_D2 tranclp_power)
  obtain k where k: "(R ^^ k) x y" using assms(2) by (metis tranclp_power)
  let ?P = "\<lambda>n (x', k', b). (\<exists>y. (R ^^ k') x' y \<and> Q y b) \<and> (n = (0 :: nat) \<longrightarrow> x' = x)"
  let ?next = "\<lambda>(n :: nat) (x, k, b) (x', k', b'). R x x' \<and> (case k of 0 \<Rightarrow> b' = (\<not> b) | Suc m \<Rightarrow> k' = m \<and> b' = b)"
  have "\<exists>g. \<forall>n. ?P n (g n) \<and> ?next n (g n) (g (Suc n))"
  proof (rule dependent_nat_choice)
    show "\<exists>t. ?P 0 t" using k assms(3) by (intro exI [of _ "(x, k, b0)"]) auto
    fix t and n :: nat assume "?P n t"
    then obtain x1 k1 b1 y1 where t: "t = (x1, k1, b1)" "(R ^^ k1) x1 y1" "Q y1 b1" by (auto split: prod.splits)
    show "\<exists>t'. ?P (Suc n) t' \<and> ?next n t t'"
    proof (cases k1)
      case 0
      with t rounds obtain y' where y': "R\<^sup>+\<^sup>+ x1 y'" "Q y' (\<not> b1)" by auto
      with split obtain m x' where "R x1 x'" "(R ^^ m) x' y'" by blast
      with y'(2) t(1) 0 show ?thesis by (intro exI [of _ "(x', m, \<not> b1)"]) auto
    next
      case (Suc m)
      with t(2) obtain x' where "R x1 x'" "(R ^^ m) x' y1" by (metis relpowp_Suc_D2)
      with t Suc show ?thesis by (intro exI [of _ "(x', m, b1)"]) auto
    qed
  qed
  then obtain g where all: "\<forall>n. ?P n (g n) \<and> ?next n (g n) (g (Suc n))" by (rule exE)
  note g = conjunct1 [OF all [rule_format]] conjunct2 [OF all [rule_format]]
  define f where "f n = fst (g n)" for n
  define left where "left n = fst (snd (g n))" for n
  define flag where "flag n = snd (snd (g n))" for n
  have f: "f 0 = x" "R (f n) (f (Suc n))" "\<exists>y. (R ^^ left n) (f n) y \<and> Q y (flag n)"
    "left n = 0 \<Longrightarrow> flag (Suc n) = (\<not> flag n)" "left n = Suc m \<Longrightarrow> left (Suc n) = m \<and> flag (Suc n) = flag n" for n m
    using g(1) [of 0] g [of n] by (auto simp: f_def left_def flag_def split_def)
  have visit: "\<exists>m \<ge> n. left m = 0 \<and> flag m = flag n" for n
  proof (induction "left n" arbitrary: n)
    case (Suc j)
    then have after: "left (Suc n) = j" "flag (Suc n) = flag n" using f(5) [of n j] by auto
    from Suc.hyps(1) [of "Suc n"] after obtain m where "m \<ge> Suc n" "left m = 0" "flag m = flag n" by auto
    then show ?case using Suc_leD by blast
  qed auto
  have zero: "Q (f m) (flag m)" if "left m = 0" for m using f(3) [of m] that by simp
  have "\<exists>m \<ge> n. Q (f m) b" for n b
  proof -
    obtain m where m: "m \<ge> n" "left m = 0" "flag m = flag n" using visit by blast
    obtain m' where m': "m' \<ge> Suc m" "left m' = 0" "flag m' = flag (Suc m)" using visit by blast
    then have "m' \<ge> n" "flag m' = (\<not> flag m)" using m f(4) [OF m(2)] by auto
    with zero [OF m(2)] zero [OF m'(2)] m(1) show ?thesis by (cases "flag m = b") auto
  qed
  with f(1,2) show ?thesis by blast
qed

lemma shuffled_reads:
  assumes "mesh_env d get" and "shuffled_step d orders c c'"
  shows "same_reads d (c_api c) (c_api c')"
proof -
  obtain ord where "undisturbed_step (ordered d ord) c c'" using assms(2) by (auto simp: shuffled_step_def)
  then show ?thesis
  proof cases
    case (u_call a evs w' l' p')
    from call_step_api [OF next_call_step [OF u_call(3)]] mesh_envD(3) [OF assms(1)] show ?thesis
      by (auto simp: u_call(1) status_reads_law_def)
  qed simp_all
qed

lemma snapshot_reads:
  assumes "get_law d" and "same_reads d s s'" and "GetEnvoyProxy d s r = Inr ep" and "GetEnvoyProxy d s' r = Inr ep'"
  shows "proxy_snapshot (ordered d ord) s' ep' = proxy_snapshot (ordered d ord) s ep"
proof -
  have law: "get_law (ordered d ord)" using assms(1) by (simp add: get_law_def)
  from key_snapshot_config [OF same_reads_config [OF law same_reads_ordered [OF assms(2)]], of r] show ?thesis
    using proxy_snapshot_key [OF law, of s r ep] proxy_snapshot_key [OF law, of s' r ep'] assms(3,4) by simp
qed

text \<open>
  C6. The order of lists can keep the controller busy for ever. Take any state in which a proxy is requested, nothing runs and the cache accepts
  snapshots, and let two orders of the lists give the proxy different versions. Then, with nothing disturbing the controller and each list in one of the two
  orders, there is an infinite run in which no object changes but in its status, and the status of the proxy names the
  one and the other version again and again: each reconcile writes another version, and the event of that write requests the proxy again.
\<close>

theorem list_order_hot_loop:
  fixes c :: "('s, 'snap, 'cache) controller"
  assumes env: "mesh_env d get" "status_write_law d" and c: "c_active c = None" "r \<in> c_queue c" "GetEnvoyProxy d (c_api c) r = Inr ep"
    and snap: "proxy_snapshot (ordered d ord1) (c_api c) ep = Inr (v1, snap1)" "proxy_snapshot (ordered d ord2) (c_api c) ep = Inr (v2, snap2)"
    and differ: "v1 \<noteq> v2" and set: "\<forall>cache n snap. fst (SetSnapshot d cache n snap) = None"
  shows "\<exists>f. f 0 = c \<and> (\<forall>n. shuffled_step d {ord1, ord2} (f n) (f (Suc n))) \<and> (\<forall>n. same_reads d (c_api c) (c_api (f n))) \<and>
    (\<forall>n. (\<exists>m \<ge> n. reports d (c_api (f m)) r v1) \<and> (\<exists>m \<ge> n. reports d (c_api (f m)) r v2))"
proof -
  define v where "v b = (if b then v1 else v2)" for b
  define ready where "ready x \<longleftrightarrow> c_active x = None \<and> r \<in> c_queue x \<and> same_reads d (c_api c) (c_api x) \<and> (\<exists>ep. GetEnvoyProxy d (c_api x) r = Inr ep)"
    for x :: "('s, 'snap, 'cache) controller"
  let ?Q = "\<lambda>x b. ready x \<and> reports d (c_api x) r (v b)"
  have round: "\<exists>y. (shuffled_step d {ord1, ord2})\<^sup>+\<^sup>+ x y \<and> ?Q y b" if x: "ready x" "\<not> reports d (c_api x) r (v b)" for x b
  proof -
    from x(1) obtain ep' where ep': "c_active x = None" "r \<in> c_queue x" "GetEnvoyProxy d (c_api x) r = Inr ep'"
      and reads: "same_reads d (c_api c) (c_api x)" by (auto simp: ready_def)
    note same = snapshot_reads [OF mesh_envD(2) [OF env(1)] reads c(3) ep'(3)]
    have "\<exists>ord snap. ord \<in> {ord1, ord2} \<and> proxy_snapshot (ordered d ord) (c_api x) ep' = Inr (v b, snap)"
      using snap same by (cases b) (auto simp: v_def)
    then obtain ord snap where "ord \<in> {ord1, ord2}" "proxy_snapshot (ordered d ord) (c_api x) ep' = Inr (v b, snap)" by blast
    from reconcile_round [OF env ep' this(2) x(2) set this(1)] reads show ?thesis
      unfolding ready_def by (metis reports_def same_reads_trans)
  qed
  have other: "\<not> reports d (c_api x) r (v (\<not> b))" if "reports d (c_api x) r (v b)" for x b
    using that reports_unique [of d "c_api x" r "v b" "v (\<not> b)"] differ by (auto simp: v_def split: if_splits)
  have "ready c" using c by (simp add: ready_def)
  then obtain y b where "(shuffled_step d {ord1, ord2})\<^sup>+\<^sup>+ c y" "?Q y b"
    using round [of c True] round [of c False] other [of c True] by auto
  from alternating_run [of ?Q "shuffled_step d {ord1, ord2}", OF _ this] obtain f where
    f: "f 0 = c" "\<And>n. shuffled_step d {ord1, ord2} (f n) (f (Suc n))" "\<And>n b. \<exists>m \<ge> n. ?Q (f m) b"
    using round other by metis
  have "same_reads d (c_api c) (c_api (f n))" for n
    by (induction n) (auto simp: f(1) intro: same_reads_trans [OF _ shuffled_reads [OF env(1) f(2)]])
  moreover have "(\<exists>m \<ge> n. reports d (c_api (f m)) r v1) \<and> (\<exists>m \<ge> n. reports d (c_api (f m)) r v2)" for n
    using f(3) [of n True] f(3) [of n False] by (auto simp: v_def)
  ultimately show ?thesis using f(1,2) by blast
qed

section \<open>Examples\<close>

text \<open>The order of the client, and the lists the other way round.\<close>

definition client_order :: list_order where
  "client_order = \<lparr>order_Listeners = id, order_Clusters = id, order_Routes = id, order_ScopedRoutes = id, order_CLAs = id,
     order_EndpointSlices = id\<rparr>"

definition reverse_order :: list_order where
  "reverse_order = \<lparr>order_Listeners = rev, order_Clusters = rev, order_Routes = rev, order_ScopedRoutes = rev, order_CLAs = rev,
     order_EndpointSlices = rev\<rparr>"

lemma orders_reorder: "reorders client_order" "reorders reverse_order"
  by (simp_all add: reorders_def client_order_def reverse_order_def)

lemma ordered_client [simp]: "ordered d client_order = d"
  by (simp add: ordered_def client_order_def sum.map_id0)

lemma example_lone: "snd s = [example_other_listener, example_listener] \<Longrightarrow> lone_objects example_store s"
  by (auto simp: lone_objects_def lone_def example_store_def example_deps_def targetMatches_def example_other_listener_def example_listener_def
      example_meta_def example_target_def Let_def split: if_splits)

theorem controller_settles_witness:
  "\<exists>c1 c version snap. (controller_step example_store)\<^sup>*\<^sup>* example_controller c1 \<and> c_active c1 \<noteq> None \<and>
     \<not> (\<exists>f. f 0 = c1 \<and> (\<forall>n. shuffled_step example_store {ord. reorders ord} (f n) (f (Suc n)))) \<and>
     (shuffled_step example_store {ord. reorders ord})\<^sup>*\<^sup>* c1 c \<and> quiet c \<and> snd (c_api c) = [example_other_listener, example_listener] \<and>
     proxy_snapshot (ordered example_store reverse_order) (c_api c) (stored_proxy (fst (c_api c))) = Inr (version, snap) \<and>
     gomap_get (Cache (w_xds (c_world c))) ''edge.default'' = Some snap"
proof -
  let ?all = "{ord. reorders ord}"
  obtain c1 where c1: "(controller_step example_store)\<^sup>*\<^sup>* example_controller c1" "c_active c1 \<noteq> None" "c_lost c1 = {}"
    "snd (c_api c1) = [example_other_listener, example_listener]"
    using example_interleaved by blast
  have act: "c_active example_controller = None" by (simp add: example_controller_def)
  have all: "\<forall>ord \<in> ?all. reorders ord" "?all \<noteq> {}" using orders_reorder by auto
  have agree: "orders_agree example_store (c_api c1) ?all" by (rule lone_agree [OF example_lone [OF c1(4)] all(1)])
  note settled = controller_settles [OF store_mesh_env store_status_write_law example_start c1(1,3) store_reconcilable agree all]
  obtain c where c: "(undisturbed_step example_store)\<^sup>*\<^sup>* c1 c" "\<nexists>c'. undisturbed_step example_store c c'"
    using settles [OF store_mesh_env store_status_write_law reachable_queue [OF example_start c1(1)] store_reconcilable] by blast
  have "undisturbed_step example_store x y \<Longrightarrow> shuffled_step example_store ?all x y" for x y
    using orders_reorder(1) by (auto simp: shuffled_step_def intro: bexI [of _ client_order])
  then have run: "(shuffled_step example_store ?all)\<^sup>*\<^sup>* c1 c"
    using c(1) by (metis (no_types, lifting) mono_rtranclp)
  have rest: "\<nexists>c'. shuffled_step example_store ?all c c'"
    using shuffled_iff [OF act shuffled_run(2,3) [OF store_mesh_env act c1(1) agree all run] all] c(2) by blast
  have "nodeID (stored_proxy st) = ''edge.default''" for st by (simp add: nodeID_def stored_proxy_def example_proxy_def)
  moreover have "reverse_order \<in> ?all" using orders_reorder(2) by simp
  ultimately obtain version snap where "quiet c" "same_reads example_store (c_api c1) (c_api c)"
    "proxy_snapshot (ordered example_store reverse_order) (c_api c) (stored_proxy (fst (c_api c))) = Inr (version, snap)"
    "gomap_get (Cache (w_xds (c_world c))) ''edge.default'' = Some snap"
    using conjunct2 [OF settled, rule_format, OF conjI [OF run rest]] store_get [of "c_api c"] by metis
  with conjunct1 [OF settled] run c1 example_same_reads [of "c_api c1" "c_api c"] show ?thesis by metis
qed

text \<open>
  A second listener of the proxy. The version in the order of the client is not that of the other order: the digests of the resource
  versions are evaluated.
\<close>

definition example_second_listener :: Listener where
  "example_second_listener = example_listener\<lparr>Listener_ObjectMeta := example_meta ''m'' ''20''\<rparr>"

lemma one_block_version:
  assumes "concat (concat groups) = s" and "length s < 56"
    and "sha_block sha256_init (map be_word (chunks 4 (sha_pad (map of_char s)))) = st"
  shows "computeVersion groups = take 16 (hex_EncodeToString (concat (map (\<lambda>w. be_bytes 4 (uint w)) (sha_words st))))"
  using assms by (simp only: computeVersion_concat sha256_def sha256_one_block)

lemma example_digest_client:
  "sha_block sha256_init (map be_word (chunks 4 (sha_pad (map of_char ''102011127'')))) =
     (0xd8ef06c2, 0x45480b0a, 0xc59c7217, 0xd55e7b06, 0x26d79274, 0x3d3565a9, 0x984c625c, 0xad39169e)"
  by code_simp

lemma example_digest_reverse:
  "sha_block sha256_init (map be_word (chunks 4 (sha_pad (map of_char ''201011127'')))) =
     (0xe8f202d4, 0x9832691b, 0x16380f22, 0x9b334728, 0x61c1035e, 0x917879d5, 0x308ed595, 0x29762a19)"
  by code_simp

lemma example_versions:
  "computeVersion [[''10'', ''20''], [''11''], [], [], [''12'', ''7'']] = ''d8ef06c245480b0a''"
  "computeVersion [[''20'', ''10''], [''11''], [], [], [''12'', ''7'']] = ''e8f202d49832691b''"
  by (subst one_block_version [OF _ _ example_digest_client], simp, simp, code_simp)
    (subst one_block_version [OF _ _ example_digest_reverse], simp, simp, code_simp)

definition two_listeners :: "EnvoyProxyStatus \<Rightarrow> EnvoyProxyStatus \<times> Listener list" where
  "two_listeners st = (st, [example_listener, example_second_listener])"

lemma reverse_collectAll: "collectAll (ordered example_store reverse_order) s ns name = collectAll example_deps (rev (snd s)) ns name"
proof -
  have "ListEndpointSlices (ordered example_store reverse_order) s = ListEndpointSlices example_deps (rev (snd s))"
      "MarshalCLA (ordered example_store reverse_order) = MarshalCLA example_deps"
    by (simp_all add: fun_eq_iff ordered_lists reverse_order_def) (simp_all add: example_store_def example_deps_def)
  then have "collectSynthesized (ordered example_store reverse_order) s names specs vers cs =
      collectSynthesized example_deps (rev (snd s)) names specs vers cs" for names specs vers cs
    by (induction cs arbitrary: specs vers) (simp_all only: collectSynthesized.simps Let_def)
  then show ?thesis
    by (simp add: collectAll_def collectListeners_def collectClusters_def collectRoutes_def collectScopedRoutes_def collectEndpoints_def
        ordered_lists reverse_order_def) (simp add: example_store_def example_deps_def)
qed

lemma two_listeners_specs:
  defines "es \<equiv> [''{'' @ quoted ''cluster_name'' @ '':'' @ quoted ''svc-alpha'' @ ''}'', ''{'' @ quoted ''clusterName'' @ '':'' @ quoted ''svc-alpha'' @ ''}'']"
  shows "collectAll example_deps [example_listener, example_second_listener] ''default'' ''edge'' =
     Inr ([''{}'', ''{}''], [Cluster_Spec example_cluster], [], [], es, [[''10'', ''20''], [''11''], [], [], [''12'', ''7'']])"
  "collectAll example_deps [example_second_listener, example_listener] ''default'' ''edge'' =
     Inr ([''{}'', ''{}''], [Cluster_Spec example_cluster], [], [], es, [[''20'', ''10''], [''11''], [], [], [''12'', ''7'']])"
  unfolding es_def by code_simp+

lemma two_listeners_snapshot:
  "\<exists>snap. proxy_snapshot (ordered example_store client_order) (two_listeners st) (stored_proxy st') = Inr (''d8ef06c245480b0a'', snap)"
  "\<exists>snap. proxy_snapshot (ordered example_store reverse_order) (two_listeners st) (stored_proxy st') = Inr (''e8f202d49832691b'', snap)"
proof -
  have built: "\<exists>snap. BuildSnapshot (UnmarshalResource example_store) (NewSnapshot example_store) v ls cs rs srs es = Inr snap" for v ls cs rs srs es
    using example_builds [of v ls cs rs srs es] by (simp add: example_store_def)
  have name: "meta_Namespace (EnvoyProxy_ObjectMeta (stored_proxy st')) = ''default''" "meta_Name (EnvoyProxy_ObjectMeta (stored_proxy st')) = ''edge''"
    by (simp_all add: stored_proxy_def example_proxy_def)
  show "\<exists>snap. proxy_snapshot (ordered example_store client_order) (two_listeners st) (stored_proxy st') = Inr (''d8ef06c245480b0a'', snap)"
    using two_listeners_specs(1) built
    by (auto simp: proxy_snapshot_def name store_collectAll two_listeners_def example_versions result_bind_Inr_iff)
  show "\<exists>snap. proxy_snapshot (ordered example_store reverse_order) (two_listeners st) (stored_proxy st') = Inr (''e8f202d49832691b'', snap)"
    using two_listeners_specs(2) built
    by (auto simp: proxy_snapshot_def name reverse_collectAll two_listeners_def example_versions result_bind_Inr_iff)
qed

lemma two_listeners_runs:
  assumes "ord \<in> {client_order, reverse_order}" and "w_api w = two_listeners st"
  shows "\<exists>w1 st'. run_prog (ordered example_store ord) (Reconcile_prog example_store example_request) w = (None, w1) \<and> w_api w1 = two_listeners st'"
proof -
  let ?d = "ordered example_store ord"
  have get: "GetEnvoyProxy ?d (w_api w) example_request = Inr (stored_proxy st)"
    using store_get [of "w_api w"] by (simp add: assms(2) two_listeners_def)
  obtain version snap where snap: "proxy_snapshot ?d (w_api w) (stored_proxy st) = Inr (version, snap)"
    using two_listeners_snapshot [of st st] assms by auto
  obtain cache' where "SetSnapshot ?d (Cache (w_xds w)) (nodeID (stored_proxy st)) snap = (None, cache')"
    by (simp add: example_store_def example_deps_def)
  from Reconcile_ok [OF get snap this] obtain w1 where w1: "Reconcile ?d w example_request = (None, w1)" by blast
  have "same_reads example_store (w_api w) (w_api (snd (Reconcile ?d w example_request)))"
    by (rule Reconcile_reads_ordered [OF mesh_envD(3) [OF store_mesh_env]])
  then have "snd (w_api w1) = snd (w_api w)" using example_same_reads w1 by fastforce
  then have "w_api w1 = two_listeners (fst (w_api w1))" by (simp add: assms(2) two_listeners_def prod_eq_iff)
  with w1 show ?thesis by (auto simp: run_ordered)
qed

text \<open>After a reconcile in the order of the client, one more in this order is silent, one in the other order is not.\<close>

theorem Reconcile_again_writes_iff_witness:
  "\<exists>w1. run_prog example_store (Reconcile_prog example_store example_request) (stored_world\<lparr>w_api := two_listeners (EnvoyProxy_Status (example_proxy ''edge'' ''default''))\<rparr>) = (None, w1) \<and>
     run_events example_store (Reconcile_prog example_store example_request) w1 = [] \<and>
     run_events (ordered example_store reverse_order) (Reconcile_prog example_store example_request) w1 \<noteq> []"
proof -
  define st0 where "st0 = EnvoyProxy_Status (example_proxy ''edge'' ''default'')"
  let ?w = "stored_world\<lparr>w_api := two_listeners st0\<rparr>" and ?p = "Reconcile_prog example_store example_request"
  obtain w1 st1 where w1: "run_prog (ordered example_store client_order) ?p ?w = (None, w1)" "w_api w1 = two_listeners st1"
    using two_listeners_runs [of client_order ?w st0] by auto
  obtain w2 st2 where w2: "run_prog (ordered example_store client_order) ?p w1 = (None, w2)" "w_api w2 = two_listeners st2"
    using two_listeners_runs [of client_order w1 st1] w1(2) by auto
  obtain w3 st3 where w3: "run_prog (ordered example_store reverse_order) ?p w1 = (None, w3)" "w_api w3 = two_listeners st3"
    using two_listeners_runs [of reverse_order w1 st1] w1(2) by auto
  have get: "GetEnvoyProxy example_store (w_api ?w) example_request = Inr (stored_proxy st0)"
    "GetEnvoyProxy example_store (w_api w1) example_request = Inr (stored_proxy st1)"
    using store_get by (simp_all add: w1(2) two_listeners_def)
  note again = Reconcile_again_writes_iff [OF store_status_write_law store_mesh_env get(1) w1(1)]
  from again [OF w2(1)] have "run_events example_store ?p w1 = []" by auto
  moreover from again [OF w3(1)] get(2) two_listeners_snapshot(1) [of st0 st0] two_listeners_snapshot(2) [of st1 st1]
  have "run_events (ordered example_store reverse_order) ?p w1 \<noteq> []" by (auto simp: w1(2))
  ultimately show ?thesis using w1(1) by (auto simp: st0_def)
qed

text \<open>The controller with the two listeners, and the request of the proxy.\<close>

theorem list_order_hot_loop_witness:
  "reorders client_order \<and> reorders reverse_order \<and>
   (\<exists>f. c_queue (f 0) = {example_request} \<and> c_events (f 0) = [] \<and>
      (\<forall>n. shuffled_step example_store {client_order, reverse_order} (f n) (f (Suc n))) \<and>
      (\<forall>n. snd (c_api (f n)) = [example_listener, example_second_listener]) \<and>
      (\<forall>n. (\<exists>m \<ge> n. reports example_store (c_api (f m)) example_request ''d8ef06c245480b0a'') \<and>
         (\<exists>m \<ge> n. reports example_store (c_api (f m)) example_request ''e8f202d49832691b'')))"
proof -
  define st where "st = EnvoyProxy_Status (example_proxy ''edge'' ''default'')"
  define c where "c = example_controller\<lparr>c_world := stored_world\<lparr>w_api := two_listeners st\<rparr>, c_events := [], c_queue := {example_request}\<rparr>"
  have c: "c_active c = None" "example_request \<in> c_queue c" "c_api c = two_listeners st" "c_events c = []" "c_queue c = {example_request}"
    by (simp_all add: c_def example_controller_def)
  have get: "GetEnvoyProxy example_store (c_api c) example_request = Inr (stored_proxy st)"
    using store_get [of "c_api c"] by (simp add: c(3) two_listeners_def)
  have set: "\<forall>cache n snap. fst (SetSnapshot example_store cache n snap) = None" by (simp add: example_store_def example_deps_def)
  obtain snap1 snap2 where snap: "proxy_snapshot (ordered example_store client_order) (c_api c) (stored_proxy st) = Inr (''d8ef06c245480b0a'', snap1)"
    "proxy_snapshot (ordered example_store reverse_order) (c_api c) (stored_proxy st) = Inr (''e8f202d49832691b'', snap2)"
    using two_listeners_snapshot [of st st] unfolding c(3) by blast
  from list_order_hot_loop [OF store_mesh_env store_status_write_law c(1,2) get snap _ set] obtain f where
    f: "f 0 = c" "\<And>n. shuffled_step example_store {client_order, reverse_order} (f n) (f (Suc n))"
      "\<And>n. same_reads example_store (c_api c) (c_api (f n))"
      "\<And>n. (\<exists>m \<ge> n. reports example_store (c_api (f m)) example_request ''d8ef06c245480b0a'') \<and>
         (\<exists>m \<ge> n. reports example_store (c_api (f m)) example_request ''e8f202d49832691b'')" by auto
  have "snd (c_api (f n)) = [example_listener, example_second_listener]" for n
    using example_same_reads [OF f(3) [of n]] by (simp add: c(3) two_listeners_def)
  with f c(4,5) orders_reorder show ?thesis by (intro conjI exI [of _ f]) auto
qed

end
