(* ===== verification/Extensions.thy ===== *)
theory Extensions
  imports Convergence
begin

text \<open>
  \<open>control-plane/internal/xds/extensions.go\<close>: the blank imports that register extension types, and what
  happens to a proxy with a listener that uses a type which is not registered.
\<close>

section \<open>Registered types\<close>

definition extension_imports :: "string list" where
  "extension_imports =
    [''github.com/envoyproxy/go-control-plane/envoy/extensions/filters/http/router/v3'',
     ''github.com/envoyproxy/go-control-plane/envoy/extensions/filters/http/stateful_session/v3'',
     ''github.com/envoyproxy/go-control-plane/envoy/extensions/filters/network/http_connection_manager/v3'',
     ''github.com/envoyproxy/go-control-plane/envoy/extensions/http/stateful_session/cookie/v3'']"

text \<open>
  The message types in the global registry of the program: those that the imported packages
  register, and those of the packages that are linked anyway.
\<close>

definition registered_types :: "(string \<Rightarrow> string set) \<Rightarrow> string set \<Rightarrow> string set" where
  "registered_types package_types linked = linked \<union> (\<Union>pkg \<in> set extension_imports. package_types pkg)"

text \<open>
  What \<open>protojson\<close> documents: a message with an \<open>Any\<close> field, at any depth, is decoded only if the type
  the field names can be resolved. \<open>any_types t raw\<close> are the names in the \<open>Any\<close> fields of a spec.
\<close>

definition any_law :: "('s, 'res, 'snap, 'cache) deps \<Rightarrow> string set \<Rightarrow> (ResourceType \<Rightarrow> bytes \<Rightarrow> string set) \<Rightarrow> bool" where
  "any_law d registry any_types \<longleftrightarrow> (\<forall>t raw x. UnmarshalResource d unmarshaler t raw = Inr x \<longrightarrow> any_types t raw \<subseteq> registry)"

section \<open>Proxies with a listener that cannot be decoded\<close>

text \<open>A listener that targets the proxy and whose spec, not empty, satisfies a property.\<close>

definition has_listener :: "('s, 'res, 'snap, 'cache) deps \<Rightarrow> (bytes \<Rightarrow> bool) \<Rightarrow> NamespacedName \<Rightarrow> 's \<Rightarrow> bool" where
  "has_listener d bad r s \<longleftrightarrow> (\<exists>items. ListListeners d s = Inr items \<and>
     (\<exists>i \<in> set items. target_key (Listener_TargetRef i) (meta_Namespace (Listener_ObjectMeta i)) = r \<and>
        Listener_Spec i \<noteq> [] \<and> bad (Listener_Spec i)))"

definition undecodable :: "('s, 'res, 'snap, 'cache) deps \<Rightarrow> bytes \<Rightarrow> bool" where
  "undecodable d raw \<longleftrightarrow> (\<exists>err. UnmarshalResource d unmarshaler ListenerType raw = Inl err)"

lemma has_listener_collected:
  assumes "has_listener d bad r s" and "collectListeners d s (nn_Namespace r) (nn_Name r) = Inr (ls, lv)"
  shows "\<exists>raw \<in> set ls. raw \<noteq> [] \<and> bad raw"
proof -
  from assms(1) obtain items i where i: "ListListeners d s = Inr items" "i \<in> set items"
    "target_key (Listener_TargetRef i) (meta_Namespace (Listener_ObjectMeta i)) = r" "Listener_Spec i \<noteq> []" "bad (Listener_Spec i)"
    unfolding has_listener_def by blast
  with assms(2) have "ls = fst (collectListeners_items (nn_Namespace r) (nn_Name r) items)"
    by (simp add: collectListeners_def prod_eq_iff)
  with i have "Listener_Spec i \<in> set ls" by (auto simp: lst.collected_iff)
  with i(4,5) show ?thesis by blast
qed

lemma undecodable_fails:
  assumes "raw \<in> set ls" and "raw \<noteq> []" and "undecodable d raw"
  shows "BuildSnapshot (UnmarshalResource d) (NewSnapshot d) version ls cs rs srs es \<noteq> Inr snap"
proof -
  from assms have "\<not> list_all (decodes (UnmarshalResource d unmarshaler ListenerType)) ls"
    by (auto simp: list_all_iff decodes_def undecodable_def)
  then show ?thesis by (auto simp: BuildSnapshot_success unmarshalAll_Inr_iff)
qed

text \<open>Such a listener keeps every reconcile of its proxy from publishing.\<close>

lemma undecodable_barrier:
  assumes "get_law d" and "\<forall>t \<in> T. has_listener d (undecodable d) r t"
  shows "\<not> publishable d T r n snap"
proof
  assume "publishable d T r n snap"
  then obtain t ep version where ep: "t \<in> T" "GetEnvoyProxy d t r = Inr ep" "torn_snapshot d T ep version snap"
    unfolding publishable_def by blast
  with assms(1) have "meta_Namespace (EnvoyProxy_ObjectMeta ep) = nn_Namespace r" "meta_Name (EnvoyProxy_ObjectMeta ep) = nn_Name r"
    by (auto simp: get_law_def)
  with ep(3) obtain ls cs rs srs es vers lv u where "u \<in> T" "collectListeners d u (nn_Namespace r) (nn_Name r) = Inr (ls, lv)"
    "BuildSnapshot (UnmarshalResource d) (NewSnapshot d) (computeVersion vers) ls cs rs srs es = Inr snap"
    unfolding torn_snapshot_def torn_collected_def by auto
  with assms(2) has_listener_collected [of d "undecodable d" r u ls lv] show False by (auto dest: undecodable_fails)
qed

definition listener_blocks :: "('s, 'res, 'snap, 'cache) deps \<Rightarrow> NamespacedName \<Rightarrow> 's \<Rightarrow> bool" where
  "listener_blocks d r s \<longleftrightarrow> get_law d \<and> has_listener d (undecodable d) r s"

interpretation blocking: publication_barrier d r "listener_blocks d r" for d r
proof
  show "\<not> publishable d T r n snap" if "\<forall>t \<in> T. listener_blocks d r t" for T n snap
  proof (cases "T = {}")
    case True
    then show ?thesis by (simp add: publishable_def)
  next
    case False
    with that show ?thesis by (intro undecodable_barrier) (auto simp: listener_blocks_def)
  qed
qed

lemma blocked_reconcile_fails:
  assumes "listener_blocks d r (w_api w)" and "GetEnvoyProxy d (w_api w) r = Inr ep"
  shows "fst (Reconcile d w r) \<noteq> None"
proof
  assume "fst (Reconcile d w r) = None"
  then obtain version snap where "proxy_snapshot d (w_api w) ep = Inr (version, snap)"
    using assms(2) by (cases rule: Reconcile_cases [of d w r]) (auto simp: Reconcile_rules)
  then obtain ls lv cs rs srs es vers where "collectListeners d (w_api w) (nn_Namespace r) (nn_Name r) = Inr (ls, lv)"
    "BuildSnapshot (UnmarshalResource d) (NewSnapshot d) (computeVersion vers) ls cs rs srs es = Inr snap"
    using assms by (auto simp: proxy_snapshot_def collectAll_def result_bind_Inr_iff listener_blocks_def get_law_def)
  with assms(1) has_listener_collected [of d "undecodable d" r "w_api w" ls lv] show False
    by (auto simp: listener_blocks_def dest: undecodable_fails)
qed

section \<open>Properties\<close>

text \<open>
  C10. One listener that uses an extension type which is neither among the imports of \<open>extensions.go\<close> nor linked otherwise blocks its proxy:
  as long as such a listener targets it, no interleaving of steps changes the cache entry of
  the proxy, whatever else is changed, and every reconcile of it fails and is tried again.
\<close>

theorem unregistered_extension_blocks:
  assumes env: "mesh_env d get" "any_law d (registered_types package_types linked) any_types"
    and start: "controller_start d c0" "(controller_step d)\<^sup>*\<^sup>* c0 c"
    and bad: "has_listener d (\<lambda>raw. \<not> any_types ListenerType raw \<subseteq> registered_types package_types linked) r (c_api c)"
    and "\<forall>a. c_active c = Some a \<longrightarrow> run_request a \<noteq> r" and "CHR ''.'' \<notin> set (nn_Namespace r)"
    and run: "(step_through (has_listener d (\<lambda>raw. \<not> any_types ListenerType raw \<subseteq> registered_types package_types linked) r) d)\<^sup>*\<^sup>* c c'"
  shows "get (Cache (w_xds (c_world c'))) (node_of r) = get (Cache (w_xds (c_world c))) (node_of r) \<and>
    (\<forall>ep. GetEnvoyProxy d (c_api c') r = Inr ep \<longrightarrow> fst (Reconcile d (c_world c') r) \<noteq> None)"
proof -
  let ?bad = "has_listener d (\<lambda>raw. \<not> any_types ListenerType raw \<subseteq> registered_types package_types linked) r"
  have "undecodable d raw" if "\<not> any_types ListenerType raw \<subseteq> registered_types package_types linked" for raw
    using env(2) that unfolding any_law_def undecodable_def by (cases "UnmarshalResource d unmarshaler ListenerType raw") blast+
  then have blocks: "listener_blocks d r s" if "?bad s" for s
    using that mesh_envD(2) [OF env(1)] unfolding listener_blocks_def has_listener_def by blast
  have "step_through ?bad d \<le> step_through (listener_blocks d r) d"
    by (auto simp: step_through_def intro: blocks)
  then have "(step_through (listener_blocks d r) d)\<^sup>*\<^sup>* c c'" using rtranclp_mono run by blast
  from blocking.entry_kept [OF env(1) start blocks [OF bad] assms(6,7) this]
  have "get (Cache (w_xds (c_world c'))) (node_of r) = get (Cache (w_xds (c_world c))) (node_of r)" .
  moreover from run bad have "?bad (c_api c')" by (induction) (simp_all add: step_through_def)
  ultimately show ?thesis using blocked_reconcile_fails [OF blocks] by blast
qed

text \<open>
  A listener with a filter of a type that nothing registers, and a cache that holds an older
  snapshot of its proxy.
\<close>

definition acme_listener :: Listener where
  "acme_listener = \<lparr>Listener_ObjectMeta = example_meta ''x'' ''20'', Listener_TargetRef = example_target, Listener_Spec = ''acme''\<rparr>"

definition acme_types :: "ResourceType \<Rightarrow> bytes \<Rightarrow> string set" where
  "acme_types t raw = (if raw = ''acme'' then {''acme.v1.Filter''} else {})"

definition router_only :: "string \<Rightarrow> string set" where
  "router_only pkg = (if pkg = hd extension_imports then {''envoy.extensions.filters.http.router.v3.Router''} else {})"

definition acme_store ::
  "(EnvoyProxyStatus \<times> Listener list, bytes, example_snapshot, (string, example_snapshot) gomap) deps" where
  "acme_store = example_store\<lparr>ListListeners := \<lambda>s. Inr (acme_listener # snd s),
     UnmarshalResource := \<lambda>opts t raw. if raw = ''acme'' then Inl (GoError ''unable to resolve acme.v1.Filter'') else Inr raw\<rparr>"

definition acme_controller :: "(EnvoyProxyStatus \<times> Listener list, example_snapshot, (string, example_snapshot) gomap) controller" where
  "acme_controller = example_controller\<lparr>c_world := stored_world\<lparr>w_xds := \<lparr>Cache = [(''edge.default'', example_published)], connected = []\<rparr>\<rparr>\<rparr>"

lemma acme_mesh_env: "mesh_env acme_store gomap_get"
  using store_mesh_env
  by (simp add: mesh_env_def cache_laws_def get_law_def status_reads_law_def same_reads_def namespace_law_def acme_store_def)
    (simp add: example_store_def)

lemma acme_listed:
  "has_listener acme_store (\<lambda>raw. \<not> acme_types ListenerType raw \<subseteq> registered_types router_only {}) example_request s"
proof -
  have "''acme.v1.Filter'' \<notin> registered_types router_only {}"
    by (simp add: registered_types_def router_only_def extension_imports_def)
  then show ?thesis
    by (simp add: has_listener_def acme_store_def acme_listener_def acme_types_def target_key_def example_target_def
        example_meta_def example_request_def)
qed

theorem unregistered_extension_blocks_witness:
  "\<exists>c c'. (controller_step acme_store)\<^sup>*\<^sup>* acme_controller c \<and> (controller_step acme_store)\<^sup>*\<^sup>* c c' \<and> c_active c' = None \<and>
     c_queue c = {example_request} \<and> c_queue c' = {example_request} \<and>
     gomap_get (Cache (w_xds (c_world c'))) ''edge.default'' = Some example_published"
proof -
  define c where "c = acme_controller\<lparr>c_events := [], c_queue := {example_request}\<rparr>"
  define c1 where "c1 = c\<lparr>c_queue := {}, c_active := Some (started acme_store example_request (c_api c)), c_lost := {}\<rparr>"
  define x where "x = run_prog acme_store (Reconcile_prog acme_store example_request) (c_world c)"
  have law: "any_law acme_store (registered_types router_only {}) acme_types"
    by (auto simp: any_law_def acme_store_def acme_types_def split: if_splits)
  have start: "controller_start acme_store acme_controller"
    using example_start by (simp add: controller_start_def acme_controller_def acme_store_def example_controller_def)
  have "controller_step acme_store acme_controller c"
    using controller_step.handle [of acme_controller "[]" _ "[]" acme_store]
    by (simp add: c_def acme_controller_def example_controller_def watchRequests_def example_request_def example_proxy_def)
  then have c: "(controller_step acme_store)\<^sup>*\<^sup>* acme_controller c" by simp
  have idle: "\<forall>a. c_active c = Some a \<longrightarrow> run_request a \<noteq> example_request" "CHR ''.'' \<notin> set (nn_Namespace example_request)"
    by (simp_all add: c_def acme_controller_def example_controller_def example_request_def)
  have steps: "step_through (has_listener acme_store (\<lambda>raw. \<not> acme_types ListenerType raw \<subseteq> registered_types router_only {}) example_request)
      acme_store = controller_step acme_store"
    by (simp add: step_through_def fun_eq_iff acme_listed)
  note blocked = unregistered_extension_blocks [OF acme_mesh_env law start c acme_listed idle, unfolded steps]
  have "GetEnvoyProxy acme_store (c_api c) example_request = Inr (stored_proxy (fst (c_api c)))"
    by (simp add: acme_store_def store_get)
  with blocked [OF rtranclp.rtrancl_refl] have err: "fst x \<noteq> None" by (simp add: x_def Reconcile_prog_run)
  define c' where "c' = c1\<lparr>c_world := snd x, c_events := c_events c1 @ run_events acme_store (Reconcile_prog acme_store example_request) (c_world c),
    c_active := None, c_queue := {example_request}\<rparr>"
  have "controller_step acme_store c c1"
    using controller_step.pick [of c example_request acme_store]
    by (simp add: c_def c1_def acme_controller_def example_controller_def)
  moreover have "c_active c1 = Some (started acme_store example_request (c_api c))" "c_world c1 = c_world c" "c_queue c1 = {}"
    by (simp_all add: c1_def)
  with finish_active [OF this(1), of acme_store] err have "(controller_step acme_store)\<^sup>*\<^sup>* c1 c'"
    by (auto simp: c'_def started_def x_def)
  ultimately have run: "(controller_step acme_store)\<^sup>*\<^sup>* c c'" by (rule converse_rtranclp_into_rtranclp)
  from blocked [OF run] have "gomap_get (Cache (w_xds (c_world c'))) ''edge.default'' = Some example_published"
    by (simp add: node_of_def example_request_def) (simp add: c_def acme_controller_def)
  with c run show ?thesis
    by (intro exI [of _ c] exI [of _ c']) (simp add: c_def c'_def)
qed

end
