(* ===== verification/Go_Heap.thy ===== *)
theory Go_Heap
  imports Go_Prelude "HOL-Library.Monad_Syntax"
begin

text \<open>
  Memory of a Go program, for code whose meaning is which memory it shares: cells by address,
  one whole variable, struct or array element per cell, and \<open>new\<close>, \<open>make\<close>, dereference and
  assignment. A nil pointer is \<open>None\<close>, a slice is \<open>None\<close> for nil or the address of its first element with
  its length; the elements of an array are consecutive cells. A dereference of an address
  that holds no value of the type is \<open>None\<close>, a panic.

  The locale \<open>deep_copier\<close> is the contract of a \<open>DeepCopyInto\<close> method: it writes a value with the same
  meaning, made of new memory only. The generated \<open>DeepCopy\<close> methods and the copy of a
  slice, element by element, are proved correct from it.
\<close>

section \<open>Memory\<close>

type_synonym addr = nat
type_synonym go_slice = "(addr \<times> nat) option"

record 'c mem =
  cells :: "addr \<Rightarrow> 'c option"
  lim :: addr

text \<open>A type of variables: how its values are stored in a cell and read back.\<close>

record ('c, 'a) kind =
  wrap :: "'a \<Rightarrow> 'c"
  unwrap :: "'c \<Rightarrow> 'a option"

definition kind_ok :: "('c, 'a) kind \<Rightarrow> bool" where
  "kind_ok k \<longleftrightarrow> (\<forall>v. unwrap k (wrap k v) = Some v)"

definition load :: "('c, 'a) kind \<Rightarrow> 'c mem \<Rightarrow> addr \<Rightarrow> 'a option" where
  "load k m a = Option.bind (cells m a) (unwrap k)"

definition store :: "('c, 'a) kind \<Rightarrow> 'c mem \<Rightarrow> addr \<Rightarrow> 'a \<Rightarrow> 'c mem option" where
  "store k m a v =
     (case load k m a of None \<Rightarrow> None | Some _ \<Rightarrow> Some (m\<lparr>cells := (cells m)(a \<mapsto> wrap k v)\<rparr>))"

text \<open>Assignment to a field of the struct at an address.\<close>

definition modify :: "('c, 'a) kind \<Rightarrow> 'c mem \<Rightarrow> addr \<Rightarrow> ('a \<Rightarrow> 'a) \<Rightarrow> 'c mem option" where
  "modify k m a f = do { v \<leftarrow> load k m a; store k m a (f v) }"

definition new :: "('c, 'a) kind \<Rightarrow> 'a \<Rightarrow> 'c mem \<Rightarrow> addr \<times> 'c mem" where
  "new k zero m = (lim m, m\<lparr>cells := (cells m)(lim m \<mapsto> wrap k zero), lim := Suc (lim m)\<rparr>)"

definition make :: "('c, 'a) kind \<Rightarrow> 'a \<Rightarrow> nat \<Rightarrow> 'c mem \<Rightarrow> go_slice \<times> 'c mem" where
  "make k zero n m = (Some (lim m, n),
     m\<lparr>cells := (\<lambda>a. if lim m \<le> a \<and> a < lim m + n then Some (wrap k zero) else cells m a), lim := lim m + n\<rparr>)"

definition allocated :: "'c mem \<Rightarrow> addr set" where
  "allocated m = dom (cells m)"

definition mem_wf :: "'c mem \<Rightarrow> bool" where
  "mem_wf m \<longleftrightarrow> allocated m = {..<lim m}"

text \<open>
  The memory \<open>m'\<close> came from \<open>m\<close> by allocations and by writes to the addresses in \<open>W\<close> and to new
  memory.
\<close>

definition grows :: "addr set \<Rightarrow> 'c mem \<Rightarrow> 'c mem \<Rightarrow> bool" where
  "grows W m m' \<longleftrightarrow> mem_wf m' \<and> allocated m \<subseteq> allocated m' \<and>
     (\<forall>a \<in> allocated m - W. cells m' a = cells m a)"

lemma grows_refl: "mem_wf m \<Longrightarrow> grows W m m"
  by (simp add: grows_def)

lemma grows_mono: "grows V m m' \<Longrightarrow> V \<subseteq> W \<Longrightarrow> grows W m m'"
  unfolding grows_def by blast

text \<open>Writes to memory that is new for \<open>m\<close> do not count for \<open>m\<close>.\<close>

lemma grows_trans:
  assumes "grows W m m1" and "grows V m1 m2" and "V \<inter> allocated m \<subseteq> W"
  shows "grows W m m2"
  unfolding grows_def
proof (intro conjI ballI)
  show "mem_wf m2" "allocated m \<subseteq> allocated m2" using assms(1,2) by (auto simp: grows_def)
  fix a assume "a \<in> allocated m - W"
  with assms show "cells m2 a = cells m a" unfolding grows_def by (metis DiffD1 DiffD2 DiffI IntI subset_iff)
qed

lemma grows_wf: "grows W m m' \<Longrightarrow> mem_wf m'"
  by (simp add: grows_def)

lemma grows_dom: "grows W m m' \<Longrightarrow> allocated m \<subseteq> allocated m'"
  by (simp add: grows_def)

lemma load_grows: "grows W m m' \<Longrightarrow> load k m a = Some v \<Longrightarrow> a \<notin> W \<Longrightarrow> load k m' a = Some v"
  unfolding grows_def load_def bind_eq_Some_conv allocated_def by (metis DiffI domI)

lemma load_dom: "load k m a = Some v \<Longrightarrow> a \<in> allocated m"
  by (auto simp: load_def bind_eq_Some_conv allocated_def)

lemma load_store:
  assumes "kind_ok k" and "mem_wf m" and "load k m a = Some v0"
  obtains m' where "store k m a v = Some m'" "load k m' a = Some v" "grows {a} m m'" "allocated m' = allocated m"
proof
  let ?m = "m\<lparr>cells := (cells m)(a \<mapsto> wrap k v)\<rparr>"
  from load_dom [OF assms(3)] have "a \<in> allocated m" .
  then show dom: "allocated ?m = allocated m" by (auto simp: allocated_def)
  show "store k m a v = Some ?m" using assms(3) by (simp add: store_def)
  show "load k ?m a = Some v" using assms(1) by (simp add: load_def kind_ok_def)
  show "grows {a} m ?m" using assms(2) dom by (simp add: grows_def mem_wf_def)
qed

lemma load_modify:
  assumes "kind_ok k" and "mem_wf m" and "load k m a = Some v0"
  obtains m' where "modify k m a f = Some m'" "load k m' a = Some (f v0)" "grows {a} m m'" "allocated m' = allocated m"
  using load_store [OF assms, of "f v0"] assms(3) by (auto simp: modify_def)

lemma new_spec:
  assumes "kind_ok k" and "mem_wf m"
  obtains m' where "new k zero m = (lim m, m')" "load k m' (lim m) = Some zero" "grows {} m m'" "lim m \<notin> allocated m"
proof
  let ?m = "m\<lparr>cells := (cells m)(lim m \<mapsto> wrap k zero), lim := Suc (lim m)\<rparr>"
  show "new k zero m = (lim m, ?m)" by (simp add: new_def)
  show "load k ?m (lim m) = Some zero" using assms(1) by (simp add: load_def kind_ok_def)
  show "lim m \<notin> allocated m" using assms(2) by (simp add: mem_wf_def)
  have "allocated ?m = insert (lim m) (allocated m)" by (auto simp: allocated_def)
  with assms(2) show "grows {} m ?m" by (auto simp: grows_def mem_wf_def)
qed

lemma make_spec:
  assumes "kind_ok k" and "mem_wf m"
  obtains m' where "make k zero n m = (Some (lim m, n), m')" "\<forall>i<n. load k m' (lim m + i) = Some zero" "grows {} m m'"
    "{lim m..<lim m + n} \<inter> allocated m = {}"
proof
  let ?m = "m\<lparr>cells := (\<lambda>a. if lim m \<le> a \<and> a < lim m + n then Some (wrap k zero) else cells m a), lim := lim m + n\<rparr>"
  show "make k zero n m = (Some (lim m, n), ?m)" by (simp add: make_def)
  show "\<forall>i<n. load k ?m (lim m + i) = Some zero" using assms(1) by (simp add: load_def kind_ok_def)
  show "{lim m..<lim m + n} \<inter> allocated m = {}" using assms(2) unfolding mem_wf_def by (metis Int_commute ivl_disj_int_one(2))
  have "allocated ?m = {lim m..<lim m + n} \<union> allocated m" by (auto simp: allocated_def split: if_splits)
  with assms(2) show "grows {} m ?m" by (auto simp: grows_def mem_wf_def)
qed

section \<open>Values and what they are made of\<close>

text \<open>
  A value that may contain pointers: its meaning in a memory, if all of it can be read, and the
  addresses it reaches. The meaning depends on the memory at these addresses only.
\<close>

locale deep_value =
  fixes view :: "'c mem \<Rightarrow> 'a \<Rightarrow> 'v option" and foot :: "'c mem \<Rightarrow> 'a \<Rightarrow> addr set"
  assumes view_local: "(\<forall>a \<in> foot m v. cells m' a = cells m a) \<Longrightarrow> view m' v = view m v \<and> foot m' v = foot m v"
    and foot_bounded: "view m v = Some w \<Longrightarrow> foot m v \<subseteq> allocated m"
begin

lemma view_grows:
  assumes "grows W m m'" and "view m v = Some w" and "foot m v \<inter> W = {}"
  shows "view m' v = Some w \<and> foot m' v = foot m v"
proof -
  have "\<forall>a \<in> foot m v. cells m' a = cells m a"
    using assms(1,3) foot_bounded [OF assms(2)] unfolding grows_def by blast
  from view_local [OF this] assms(2) show ?thesis by simp
qed

end

text \<open>A pointer to a variable of the kind \<open>k\<close>, and a slice of such variables.\<close>

definition ptr_view :: "('c, 'a) kind \<Rightarrow> ('c mem \<Rightarrow> 'a \<Rightarrow> 'v option) \<Rightarrow> 'c mem \<Rightarrow> addr option \<Rightarrow> 'v option option" where
  "ptr_view k view m p = (case p of
     None \<Rightarrow> Some None
   | Some a \<Rightarrow> do { v \<leftarrow> load k m a; w \<leftarrow> view m v; Some (Some w) })"

definition cell_foot :: "('c, 'a) kind \<Rightarrow> ('c mem \<Rightarrow> 'a \<Rightarrow> addr set) \<Rightarrow> 'c mem \<Rightarrow> addr \<Rightarrow> addr set" where
  "cell_foot k foot m a = insert a (case load k m a of None \<Rightarrow> {} | Some v \<Rightarrow> foot m v)"

definition ptr_foot :: "('c, 'a) kind \<Rightarrow> ('c mem \<Rightarrow> 'a \<Rightarrow> addr set) \<Rightarrow> 'c mem \<Rightarrow> addr option \<Rightarrow> addr set" where
  "ptr_foot k foot m p = (case p of None \<Rightarrow> {} | Some a \<Rightarrow> cell_foot k foot m a)"

definition slice_view :: "('c, 'a) kind \<Rightarrow> ('c mem \<Rightarrow> 'a \<Rightarrow> 'v option) \<Rightarrow> 'c mem \<Rightarrow> go_slice \<Rightarrow> 'v list option option" where
  "slice_view k view m sl = (case sl of
     None \<Rightarrow> Some None
   | Some (b, n) \<Rightarrow>
       map_option Some (those (map (\<lambda>i. do { v \<leftarrow> load k m (b + i); view m v }) [0..<n])))"

definition slice_foot :: "('c, 'a) kind \<Rightarrow> ('c mem \<Rightarrow> 'a \<Rightarrow> addr set) \<Rightarrow> 'c mem \<Rightarrow> go_slice \<Rightarrow> addr set" where
  "slice_foot k foot m sl = (case sl of None \<Rightarrow> {} | Some (b, n) \<Rightarrow> (\<Union>i<n. cell_foot k foot m (b + i)))"

lemma those_eq_Some: "those xs = Some ys \<longleftrightarrow> xs = map Some ys"
proof (induction xs arbitrary: ys)
  case (Cons x xs)
  then show ?case by (cases x; cases ys) auto
qed auto

lemma slice_view_Some:
  "slice_view k view m (Some (b, n)) = Some w \<longleftrightarrow>
     (\<exists>ws. w = Some ws \<and> length ws = n \<and> (\<forall>i<n. \<exists>v. load k m (b + i) = Some v \<and> view m v = Some (ws ! i)))"
proof -
  have "map (\<lambda>i. do { v \<leftarrow> load k m (b + i); view m v }) [0..<n] = map Some ws \<longleftrightarrow>
      length ws = n \<and> (\<forall>i<n. \<exists>v. load k m (b + i) = Some v \<and> view m v = Some (ws ! i))" for ws
    by (auto simp: list_eq_iff_nth_eq bind_eq_Some_conv)
  then show ?thesis by (auto simp: slice_view_def those_eq_Some)
qed

context deep_value
begin

lemma cell_foot_local:
  assumes "\<forall>x \<in> cell_foot k foot m a. cells m' x = cells m x"
  shows "load k m' a = load k m a" and "cell_foot k foot m' a = cell_foot k foot m a"
    and "load k m a = Some v \<Longrightarrow> view m' v = view m v"
proof -
  from assms show l: "load k m' a = load k m a" by (simp add: load_def cell_foot_def)
  have "foot m' v = foot m v \<and> view m' v = view m v" if "load k m a = Some v" for v
    using assms that view_local [of m v m'] by (simp add: cell_foot_def)
  with l show "cell_foot k foot m' a = cell_foot k foot m a" "load k m a = Some v \<Longrightarrow> view m' v = view m v"
    by (auto simp: cell_foot_def split: option.split)
qed

lemma cell_foot_bounded: "load k m a = Some v \<Longrightarrow> view m v = Some w \<Longrightarrow> cell_foot k foot m a \<subseteq> allocated m"
  using foot_bounded load_dom by (force simp: cell_foot_def)

lemma cell_grows:
  assumes "grows W m m'" and "load k m a = Some v" and "view m v = Some w" and "cell_foot k foot m a \<inter> W = {}"
  shows "load k m' a = Some v \<and> view m' v = Some w \<and> cell_foot k foot m' a = cell_foot k foot m a"
proof -
  have "\<forall>x \<in> cell_foot k foot m a. cells m' x = cells m x"
    using assms(1,4) cell_foot_bounded [OF assms(2,3)] unfolding grows_def by blast
  from cell_foot_local [OF this] assms(2,3) show ?thesis by simp
qed

lemma ptr_deep_value: "deep_value (ptr_view k view) (ptr_foot k foot)"
proof
  fix m m' :: "'c mem" and p
  assume "\<forall>a \<in> ptr_foot k foot m p. cells m' a = cells m a"
  then show "ptr_view k view m' p = ptr_view k view m p \<and> ptr_foot k foot m' p = ptr_foot k foot m p"
    using cell_foot_local [of k m _ m'] by (cases p) (auto simp: ptr_view_def ptr_foot_def intro: Option.bind_cong)
next
  fix m :: "'c mem" and p w
  assume "ptr_view k view m p = Some w"
  then show "ptr_foot k foot m p \<subseteq> allocated m"
    by (cases p) (auto simp: ptr_view_def ptr_foot_def bind_eq_Some_conv dest!: cell_foot_bounded)
qed

lemma slice_deep_value: "deep_value (slice_view k view) (slice_foot k foot)"
proof
  fix m m' :: "'c mem" and sl
  assume h: "\<forall>a \<in> slice_foot k foot m sl. cells m' a = cells m a"
  show "slice_view k view m' sl = slice_view k view m sl \<and> slice_foot k foot m' sl = slice_foot k foot m sl"
  proof (cases sl)
    case (Some bn)
    obtain b n where bn: "bn = (b, n)" by fastforce
    have "\<forall>x \<in> cell_foot k foot m (b + i). cells m' x = cells m x" if "i < n" for i
      using h that Some bn by (auto simp: slice_foot_def)
    note c = cell_foot_local [OF this]
    have "map (\<lambda>i. do { v \<leftarrow> load k m' (b + i); view m' v }) [0..<n] = map (\<lambda>i. do { v \<leftarrow> load k m (b + i); view m v }) [0..<n]"
      using c by (auto intro: Option.bind_cong)
    moreover from c have "(\<Union>i<n. cell_foot k foot m' (b + i)) = (\<Union>i<n. cell_foot k foot m (b + i))" by simp
    ultimately show ?thesis using Some bn by (simp only: slice_view_def slice_foot_def option.case prod.case simp_thms)
  qed (simp add: slice_view_def slice_foot_def)
next
  fix m :: "'c mem" and sl w
  assume "slice_view k view m sl = Some w"
  then show "slice_foot k foot m sl \<subseteq> allocated m"
    using cell_foot_bounded by (cases sl) (fastforce simp: slice_foot_def slice_view_Some)+
qed

end

section \<open>The shapes of generated copy code\<close>

text \<open>\<open>*out = *in\<close>\<close>

definition assign :: "('c, 'a) kind \<Rightarrow> addr \<Rightarrow> addr \<Rightarrow> 'c mem \<Rightarrow> 'c mem option" where
  "assign k inp out m = do { v \<leftarrow> load k m inp; store k m out v }"

text \<open>\<open>in.F.DeepCopyInto(&out.F)\<close>, where the method makes a new value, and possibly new memory\<close>

definition copy_field ::
  "('c, 's) kind \<Rightarrow> ('s \<Rightarrow> 'f) \<Rightarrow> ('f \<Rightarrow> 's \<Rightarrow> 's) \<Rightarrow> ('c mem \<Rightarrow> 'f \<Rightarrow> 'f \<times> 'c mem) \<Rightarrow>
   addr \<Rightarrow> addr \<Rightarrow> 'c mem \<Rightarrow> 'c mem option" where
  "copy_field ks getf setf copy inp out m =
     do { v \<leftarrow> load ks m inp; let (f, m1) = copy m (getf v); modify ks m1 out (setf f) }"

text \<open>\<open>out.F = in.F\<close>\<close>

definition assign_field ::
  "('c, 's) kind \<Rightarrow> ('s \<Rightarrow> 'f) \<Rightarrow> ('f \<Rightarrow> 's \<Rightarrow> 's) \<Rightarrow> addr \<Rightarrow> addr \<Rightarrow> 'c mem \<Rightarrow> 'c mem option" where
  "assign_field ks getf setf inp out m = do { v \<leftarrow> load ks m inp; modify ks m out (setf (getf v)) }"

text \<open>\<open>if in.F != nil { in, out := &in.F, &out.F; *out = new(T); (*in).DeepCopyInto(*out) }\<close>\<close>

definition copy_ptr ::
  "('c, 's) kind \<Rightarrow> ('s \<Rightarrow> addr option) \<Rightarrow> (addr option \<Rightarrow> 's \<Rightarrow> 's) \<Rightarrow> ('c, 'a) kind \<Rightarrow> 'a \<Rightarrow>
   (addr \<Rightarrow> addr \<Rightarrow> 'c mem \<Rightarrow> 'c mem option) \<Rightarrow> addr \<Rightarrow> addr \<Rightarrow> 'c mem \<Rightarrow> 'c mem option" where
  "copy_ptr ks getf setf k zero into inp out m = do {
     v \<leftarrow> load ks m inp;
     case getf v of
       None \<Rightarrow> Some m
     | Some _ \<Rightarrow> do {
         let (q, m1) = new k zero m;
         m2 \<leftarrow> modify ks m1 out (setf (Some q));
         v2 \<leftarrow> load ks m2 inp;
         p \<leftarrow> getf v2;
         into p q m2 } }"

text \<open>\<open>for i := range *in { (*in)[i].DeepCopyInto(&(*out)[i]) }\<close>\<close>

primrec range_copy ::
  "(addr \<Rightarrow> addr \<Rightarrow> 'c mem \<Rightarrow> 'c mem option) \<Rightarrow> addr \<Rightarrow> addr \<Rightarrow> nat list \<Rightarrow> 'c mem \<Rightarrow> 'c mem option" where
  "range_copy into src dst [] m = Some m"
| "range_copy into src dst (i # is) m = do { m1 \<leftarrow> into (src + i) (dst + i) m; range_copy into src dst is m1 }"

text \<open>\<open>if in.F != nil { in, out := &in.F, &out.F; *out = make([]T, len(*in)); for i := range *in { \<dots> } }\<close>\<close>

definition copy_slice ::
  "('c, 's) kind \<Rightarrow> ('s \<Rightarrow> go_slice) \<Rightarrow> (go_slice \<Rightarrow> 's \<Rightarrow> 's) \<Rightarrow> ('c, 'a) kind \<Rightarrow> 'a \<Rightarrow>
   (addr \<Rightarrow> addr \<Rightarrow> 'c mem \<Rightarrow> 'c mem option) \<Rightarrow> addr \<Rightarrow> addr \<Rightarrow> 'c mem \<Rightarrow> 'c mem option" where
  "copy_slice ks getf setf k zero into inp out m = do {
     v \<leftarrow> load ks m inp;
     case getf v of
       None \<Rightarrow> Some m
     | Some (b, n) \<Rightarrow> do {
         let (sl, m1) = make k zero n m;
         m2 \<leftarrow> modify ks m1 out (setf sl);
         v2 \<leftarrow> load ks m2 inp;
         (src, n2) \<leftarrow> getf v2;
         o2 \<leftarrow> load ks m2 out;
         (dst, _) \<leftarrow> getf o2;
         range_copy into src dst [0..<n2] m2 } }"

text \<open>\<open>if in == nil { return nil }; out := new(T); in.DeepCopyInto(out); return out\<close>\<close>

definition DeepCopy_with ::
  "('c, 'a) kind \<Rightarrow> 'a \<Rightarrow> (addr \<Rightarrow> addr \<Rightarrow> 'c mem \<Rightarrow> 'c mem option) \<Rightarrow> addr option \<Rightarrow> 'c mem \<Rightarrow>
   (addr option \<times> 'c mem) option" where
  "DeepCopy_with k zero into inp m = (case inp of
     None \<Rightarrow> Some (None, m)
   | Some a \<Rightarrow> do { let (out, m1) = new k zero m; m2 \<leftarrow> into a out m1; Some (Some out, m2) })"

section \<open>Contracts of copies\<close>

text \<open>The read and write access to a field of a struct.\<close>

definition lens :: "('s \<Rightarrow> 'f) \<Rightarrow> ('f \<Rightarrow> 's \<Rightarrow> 's) \<Rightarrow> bool" where
  "lens getf setf \<longleftrightarrow> (\<forall>f s. getf (setf f s) = f) \<and> (\<forall>s. setf (getf s) s = s) \<and> (\<forall>f g s. setf f (setf g s) = setf f s)"

text \<open>A method that makes a value with the same meaning out of new memory, without a change of the old one.\<close>

locale value_copier = deep_value view foot
  for view :: "'c mem \<Rightarrow> 'f \<Rightarrow> 'v option" and foot :: "'c mem \<Rightarrow> 'f \<Rightarrow> addr set" +
  fixes copy :: "'c mem \<Rightarrow> 'f \<Rightarrow> 'f \<times> 'c mem"
  assumes copy_fresh: "mem_wf m \<Longrightarrow> view m f = Some w \<Longrightarrow>
    \<exists>f' m'. copy m f = (f', m') \<and> grows {} m m' \<and> view m' f' = Some w \<and> foot m' f' \<inter> allocated m = {}"

text \<open>
  Code that copies one field of a struct, from the struct at \<open>inp\<close> to the one at \<open>out\<close>, which already
  holds the same field by assignment.
\<close>

locale field_copier = deep_value view foot
  for view :: "'c mem \<Rightarrow> 'f \<Rightarrow> 'v option" and foot :: "'c mem \<Rightarrow> 'f \<Rightarrow> addr set" +
  fixes ks :: "('c, 's) kind" and getf :: "'s \<Rightarrow> 'f" and setf :: "'f \<Rightarrow> 's \<Rightarrow> 's"
    and op :: "addr \<Rightarrow> addr \<Rightarrow> 'c mem \<Rightarrow> 'c mem option"
  assumes lens: "lens getf setf"
    and op_copies: "mem_wf m \<Longrightarrow> load ks m inp = Some v \<Longrightarrow> load ks m out = Some o1 \<Longrightarrow> inp \<noteq> out \<Longrightarrow> getf o1 = getf v \<Longrightarrow>
      view m (getf v) = Some w \<Longrightarrow> out \<notin> foot m (getf v) \<Longrightarrow>
      \<exists>m' f'. op inp out m = Some m' \<and> grows {out} m m' \<and> load ks m' out = Some (setf f' o1) \<and>
        view m' f' = Some w \<and> foot m' f' \<inter> allocated m = {}"

text \<open>A \<open>DeepCopyInto\<close> method.\<close>

locale deep_copier = deep_value view foot
  for view :: "'c mem \<Rightarrow> 'a \<Rightarrow> 'v option" and foot :: "'c mem \<Rightarrow> 'a \<Rightarrow> addr set" +
  fixes k :: "('c, 'a) kind" and into :: "addr \<Rightarrow> addr \<Rightarrow> 'c mem \<Rightarrow> 'c mem option"
  assumes kind: "kind_ok k"
    and into_copies: "mem_wf m \<Longrightarrow> load k m inp = Some v \<Longrightarrow> load k m out = Some v0 \<Longrightarrow> inp \<noteq> out \<Longrightarrow>
      view m v = Some w \<Longrightarrow> out \<notin> foot m v \<Longrightarrow>
      \<exists>m' v'. into inp out m = Some m' \<and> grows {out} m m' \<and> load k m' out = Some v' \<and>
        view m' v' = Some w \<and> foot m' v' \<inter> allocated m = {}"

section \<open>Fields\<close>

context value_copier
begin

lemma copy_field_copies:
  assumes "kind_ok ks" and h: "mem_wf m" "load ks m inp = Some v" "load ks m out = Some o1" "view m (getf v) = Some w"
  shows "\<exists>m' f'. copy_field ks getf setf copy inp out m = Some m' \<and> grows {out} m m' \<and>
    load ks m' out = Some (setf f' o1) \<and> view m' f' = Some w \<and> foot m' f' \<inter> allocated m = {}"
proof -
  obtain f' m1 where c: "copy m (getf v) = (f', m1)" "grows {} m m1" "view m1 f' = Some w" "foot m1 f' \<inter> allocated m = {}"
    using copy_fresh [OF h(1,4)] by blast
  have "load ks m1 out = Some o1" using load_grows [OF c(2) h(3)] by simp
  then obtain m2 where m2: "modify ks m1 out (setf f') = Some m2" "load ks m2 out = Some (setf f' o1)" "grows {out} m1 m2"
    using load_modify [OF assms(1) grows_wf [OF c(2)], of out o1 "setf f'"] by blast
  have g: "grows {out} m m2" by (rule grows_trans [OF grows_mono [OF c(2)] m2(3)]) auto
  have "out \<notin> foot m1 f'" using c(4) load_dom [OF h(3)] by blast
  then have "view m2 f' = Some w \<and> foot m2 f' = foot m1 f'"
    using view_grows [OF m2(3) c(3)] by simp
  with m2 g c h(2) show ?thesis by (auto simp: copy_field_def)
qed

lemma copy_field_copier:
  assumes "kind_ok ks" and "lens getf setf"
  shows "field_copier view foot ks getf setf (copy_field ks getf setf copy)"
  by unfold_locales (use assms copy_field_copies in auto)

text \<open>A method on a pointer to a whole variable.\<close>

lemma whole_copier:
  assumes "kind_ok k"
  shows "deep_copier view foot k (copy_field k (\<lambda>v. v) (\<lambda>f v. f) copy)"
  by unfold_locales (use assms copy_field_copies [of k _ _ _ _ _ "\<lambda>v. v" _ "\<lambda>f v. f"] in auto)

end

text \<open>Values without pointers are copied by assignment.\<close>

definition plain_view :: "'c mem \<Rightarrow> 'f \<Rightarrow> 'f option" where
  "plain_view m f = Some f"

definition plain_foot :: "'c mem \<Rightarrow> 'f \<Rightarrow> addr set" where
  "plain_foot m f = {}"

interpretation plain: value_copier plain_view plain_foot "\<lambda>m f. (f, m)"
  by unfold_locales (auto simp: plain_view_def plain_foot_def grows_refl)

lemma assign_field_copier:
  assumes "kind_ok ks" and "lens getf setf"
  shows "field_copier plain_view plain_foot ks getf setf (assign_field ks getf setf)"
proof -
  have "assign_field ks getf setf = copy_field ks getf setf (\<lambda>m f. (f, m))"
    by (simp add: fun_eq_iff assign_field_def copy_field_def)
  with plain.copy_field_copier [OF assms] show ?thesis by simp
qed

lemma assign_copier:
  assumes "kind_ok k"
  shows "deep_copier plain_view plain_foot k (assign k)"
proof -
  have "assign k = copy_field k (\<lambda>v. v) (\<lambda>f v. f) (\<lambda>m f. (f, m))"
    by (auto simp: fun_eq_iff assign_def copy_field_def modify_def store_def split: option.splits intro!: Option.bind_cong)
  with plain.whole_copier [OF assms] show ?thesis by simp
qed

text \<open>Fields that the assignment of the whole struct has copied already need no code.\<close>

definition skip_field :: "addr \<Rightarrow> addr \<Rightarrow> 'c mem \<Rightarrow> 'c mem option" where
  "skip_field inp out m = Some m"

lemma skip_copier: "lens getf setf \<Longrightarrow> field_copier plain_view plain_foot ks getf setf skip_field"
  by (intro field_copier.intro plain.deep_value_axioms field_copier_axioms.intro)
    (auto simp: skip_field_def plain_view_def plain_foot_def grows_refl lens_def dest: sym intro: exI [of _ "getf _"])

text \<open>Two fields, one after the other.\<close>

definition pair_get :: "('s \<Rightarrow> 'f) \<Rightarrow> ('s \<Rightarrow> 'g) \<Rightarrow> 's \<Rightarrow> 'f \<times> 'g" where
  "pair_get g1 g2 s = (g1 s, g2 s)"

definition pair_set :: "('f \<Rightarrow> 's \<Rightarrow> 's) \<Rightarrow> ('g \<Rightarrow> 's \<Rightarrow> 's) \<Rightarrow> 'f \<times> 'g \<Rightarrow> 's \<Rightarrow> 's" where
  "pair_set s1 s2 = (\<lambda>(f, g) s. s2 g (s1 f s))"

definition pair_view :: "('c mem \<Rightarrow> 'f \<Rightarrow> 'v option) \<Rightarrow> ('c mem \<Rightarrow> 'g \<Rightarrow> 'w option) \<Rightarrow> 'c mem \<Rightarrow> 'f \<times> 'g \<Rightarrow> ('v \<times> 'w) option" where
  "pair_view v1 v2 m = (\<lambda>(f, g). do { x \<leftarrow> v1 m f; y \<leftarrow> v2 m g; Some (x, y) })"

definition pair_foot :: "('c mem \<Rightarrow> 'f \<Rightarrow> addr set) \<Rightarrow> ('c mem \<Rightarrow> 'g \<Rightarrow> addr set) \<Rightarrow> 'c mem \<Rightarrow> 'f \<times> 'g \<Rightarrow> addr set" where
  "pair_foot t1 t2 m = (\<lambda>(f, g). t1 m f \<union> t2 m g)"

definition seq_op ::
  "(addr \<Rightarrow> addr \<Rightarrow> 'c mem \<Rightarrow> 'c mem option) \<Rightarrow> (addr \<Rightarrow> addr \<Rightarrow> 'c mem \<Rightarrow> 'c mem option) \<Rightarrow>
   addr \<Rightarrow> addr \<Rightarrow> 'c mem \<Rightarrow> 'c mem option" where
  "seq_op op1 op2 inp out m = do { m1 \<leftarrow> op1 inp out m; op2 inp out m1 }"

definition separate :: "('s \<Rightarrow> 'f) \<Rightarrow> ('f \<Rightarrow> 's \<Rightarrow> 's) \<Rightarrow> ('s \<Rightarrow> 'g) \<Rightarrow> ('g \<Rightarrow> 's \<Rightarrow> 's) \<Rightarrow> bool" where
  "separate g1 s1 g2 s2 \<longleftrightarrow> (\<forall>f s. g2 (s1 f s) = g2 s) \<and> (\<forall>g s. g1 (s2 g s) = g1 s) \<and>
     (\<forall>f g s. s1 f (s2 g s) = s2 g (s1 f s))"

lemma pair_deep_value:
  assumes "deep_value v1 t1" and "deep_value v2 t2"
  shows "deep_value (pair_view v1 v2) (pair_foot t1 t2)"
proof
  fix m m' :: "'a mem" and p
  assume "\<forall>a \<in> pair_foot t1 t2 m p. cells m' a = cells m a"
  then show "pair_view v1 v2 m' p = pair_view v1 v2 m p \<and> pair_foot t1 t2 m' p = pair_foot t1 t2 m p"
    using deep_value.view_local [OF assms(1), of m "fst p" m'] deep_value.view_local [OF assms(2), of m "snd p" m']
    by (simp add: pair_view_def pair_foot_def split_def)
next
  fix m :: "'a mem" and p w
  assume "pair_view v1 v2 m p = Some w"
  then obtain x y where "v1 m (fst p) = Some x" "v2 m (snd p) = Some y"
    by (auto simp: pair_view_def split_def bind_eq_Some_conv)
  then have "t1 m (fst p) \<subseteq> allocated m" "t2 m (snd p) \<subseteq> allocated m"
    by (auto dest: deep_value.foot_bounded [OF assms(1)] deep_value.foot_bounded [OF assms(2)])
  then show "pair_foot t1 t2 m p \<subseteq> allocated m" by (simp add: pair_foot_def split_def)
qed

lemma pair_lens:
  "lens g1 s1 \<Longrightarrow> lens g2 s2 \<Longrightarrow> separate g1 s1 g2 s2 \<Longrightarrow> lens (pair_get g1 g2) (pair_set s1 s2)"
  by (simp add: lens_def separate_def pair_get_def pair_set_def split_def)

lemma pair_copier:
  assumes c1: "field_copier v1 t1 ks g1 s1 op1" and c2: "field_copier v2 t2 ks g2 s2 op2" and "separate g1 s1 g2 s2"
  shows "field_copier (pair_view v1 v2) (pair_foot t1 t2) ks (pair_get g1 g2) (pair_set s1 s2) (seq_op op1 op2)"
proof -
  have d1: "deep_value v1 t1" and d2: "deep_value v2 t2"
    using field_copier.axioms(1) [OF c1] field_copier.axioms(1) [OF c2] .
  have l: "lens (pair_get g1 g2) (pair_set s1 s2)"
    by (rule pair_lens [OF field_copier.lens [OF c1] field_copier.lens [OF c2] assms(3)])
  show ?thesis
  proof (intro field_copier.intro field_copier_axioms.intro pair_deep_value [OF d1 d2] l)
    fix m inp v out o1 w
    assume h: "mem_wf m" "load ks m inp = Some v" "load ks m out = Some o1" "inp \<noteq> out"
      "pair_get g1 g2 o1 = pair_get g1 g2 v" "pair_view v1 v2 m (pair_get g1 g2 v) = Some w"
      "out \<notin> pair_foot t1 t2 m (pair_get g1 g2 v)"
    then have out: "out \<notin> t1 m (g1 v)" "out \<notin> t2 m (g2 v)" and eq: "g1 o1 = g1 v" "g2 o1 = g2 v"
      by (auto simp: pair_get_def pair_foot_def)
    from h(6) obtain w1 w2 where w: "v1 m (g1 v) = Some w1" "v2 m (g2 v) = Some w2" "w = (w1, w2)"
      by (auto simp: pair_get_def pair_view_def bind_eq_Some_conv)
    obtain m1 f1 where m1: "op1 inp out m = Some m1" "grows {out} m m1" "load ks m1 out = Some (s1 f1 o1)"
        "v1 m1 f1 = Some w1" "t1 m1 f1 \<inter> allocated m = {}"
      using field_copier.op_copies [OF c1 h(1-4) eq(1) w(1) out(1)] by blast
    have in1: "load ks m1 inp = Some v" using load_grows [OF m1(2) h(2)] h(4) by simp
    have f2: "v2 m1 (g2 v) = Some w2 \<and> t2 m1 (g2 v) = t2 m (g2 v)"
      using deep_value.view_grows [OF d2 m1(2) w(2)] out(2) by simp
    have "g2 (s1 f1 o1) = g2 v" using assms(3) eq(2) by (simp add: separate_def)
    then obtain m2 f2 where m2: "op2 inp out m1 = Some m2" "grows {out} m1 m2" "load ks m2 out = Some (s2 f2 (s1 f1 o1))"
        "v2 m2 f2 = Some w2" "t2 m2 f2 \<inter> allocated m1 = {}"
      using field_copier.op_copies [OF c2 grows_wf [OF m1(2)] in1 m1(3) h(4)] f2 out(2) by metis
    have "t1 m1 f1 \<inter> {out} = {}" using m1(5) load_dom [OF h(3)] by blast
    then have f1: "v1 m2 f1 = Some w1 \<and> t1 m2 f1 = t1 m1 f1" by (rule deep_value.view_grows [OF d1 m2(2) m1(4)])
    have "grows {out} m m2" by (rule grows_trans [OF m1(2) m2(2)]) simp
    moreover have "t2 m2 f2 \<inter> allocated m = {}" using m2(5) grows_dom [OF m1(2)] by blast
    ultimately show "\<exists>m' f'. seq_op op1 op2 inp out m = Some m' \<and> grows {out} m m' \<and>
        load ks m' out = Some (pair_set s1 s2 f' o1) \<and> pair_view v1 v2 m' f' = Some w \<and>
        pair_foot t1 t2 m' f' \<inter> allocated m = {}"
      using m1(1,5) m2(1,3,4) f1 w(3)
      by (intro exI [of _ m2] exI [of _ "(f1, f2)"]) (auto simp: seq_op_def pair_set_def pair_view_def pair_foot_def)
  qed
qed

section \<open>Structs, pointers and slices\<close>

text \<open>
  An assignment of the whole struct followed by copies of all its fields is a \<open>DeepCopyInto\<close>: a
  struct means what its fields mean.
\<close>

definition struct_into ::
  "('c, 's) kind \<Rightarrow> (addr \<Rightarrow> addr \<Rightarrow> 'c mem \<Rightarrow> 'c mem option) \<Rightarrow> addr \<Rightarrow> addr \<Rightarrow> 'c mem \<Rightarrow> 'c mem option" where
  "struct_into ks op inp out m = do { m1 \<leftarrow> assign ks inp out m; op inp out m1 }"

definition struct_view :: "('s \<Rightarrow> 'f) \<Rightarrow> ('c mem \<Rightarrow> 'f \<Rightarrow> 'v option) \<Rightarrow> 'c mem \<Rightarrow> 's \<Rightarrow> 'v option" where
  "struct_view getf view m s = view m (getf s)"

definition struct_foot :: "('s \<Rightarrow> 'f) \<Rightarrow> ('c mem \<Rightarrow> 'f \<Rightarrow> addr set) \<Rightarrow> 'c mem \<Rightarrow> 's \<Rightarrow> addr set" where
  "struct_foot getf foot m s = foot m (getf s)"

lemma struct_deep_value: "deep_value view foot \<Longrightarrow> deep_value (struct_view getf view) (struct_foot getf foot)"
  unfolding deep_value_def struct_view_def struct_foot_def by blast

lemma seq_skip [simp]: "seq_op skip_field op = op"
  by (simp add: fun_eq_iff seq_op_def skip_field_def)

text \<open>A field that is a struct itself, when the code copies the fields of that struct.\<close>

lemma inner_copier:
  assumes c: "field_copier view foot ks (\<lambda>s. parts (getf s)) (\<lambda>f s. setf (build f) s) op"
    and "lens getf setf"
  shows "field_copier (struct_view parts view) (struct_foot parts foot) ks getf setf op"
proof (intro field_copier.intro field_copier_axioms.intro struct_deep_value field_copier.axioms(1) [OF c] assms(2))
  fix m inp v out o1 w
  assume h: "mem_wf m" "load ks m inp = Some v" "load ks m out = Some o1" "inp \<noteq> out" "getf o1 = getf v"
    "struct_view parts view m (getf v) = Some w" "out \<notin> struct_foot parts foot m (getf v)"
  have lens: "parts (getf (setf (build f) s)) = f" for f s
    using field_copier.lens [OF c] by (simp add: lens_def)
  then have eq: "parts (build f) = f" for f using assms(2) by (simp add: lens_def)
  from h(5) have "parts (getf o1) = parts (getf v)" by simp
  from field_copier.op_copies [OF c h(1-4) this] h(6,7)
  obtain m' f' where "op inp out m = Some m'" "grows {out} m m'" "load ks m' out = Some (setf (build f') o1)"
      "view m' f' = Some w" "foot m' f' \<inter> allocated m = {}"
    by (auto simp: struct_view_def struct_foot_def)
  then show "\<exists>m' f'. op inp out m = Some m' \<and> grows {out} m m' \<and> load ks m' out = Some (setf f' o1) \<and>
      struct_view parts view m' f' = Some w \<and> struct_foot parts foot m' f' \<inter> allocated m = {}"
    by (intro exI [of _ m'] exI [of _ "build f'"]) (simp add: struct_view_def struct_foot_def eq)
qed

context field_copier
begin

text \<open>The assignment that opens the \<open>DeepCopyInto\<close> of a struct inside another.\<close>

lemma assign_first_copier:
  assumes "kind_ok ks"
  shows "field_copier view foot ks getf setf (seq_op (assign_field ks getf setf) op)"
proof (intro field_copier.intro field_copier_axioms.intro deep_value_axioms lens)
  fix m inp v out o1 w
  assume h: "mem_wf m" "load ks m inp = Some v" "load ks m out = Some o1" "inp \<noteq> out" "getf o1 = getf v"
    "view m (getf v) = Some w" "out \<notin> foot m (getf v)"
  have same: "setf (getf v) o1 = o1" using lens h(5) by (metis lens_def)
  obtain m1 where m1: "modify ks m out (setf (getf v)) = Some m1" "load ks m1 out = Some o1" "grows {out} m m1" "allocated m1 = allocated m"
    using load_modify [OF assms h(1,3), of "setf (getf v)"] same by metis
  have "load ks m1 inp = Some v" using load_grows [OF m1(3) h(2)] h(4) by simp
  moreover have f: "view m1 (getf v) = Some w \<and> foot m1 (getf v) = foot m (getf v)"
    using view_grows [OF m1(3) h(6)] h(7) by simp
  ultimately obtain m2 f' where m2: "op inp out m1 = Some m2" "grows {out} m1 m2" "load ks m2 out = Some (setf f' o1)"
      "view m2 f' = Some w" "foot m2 f' \<inter> allocated m1 = {}"
    using op_copies [OF grows_wf [OF m1(3)] _ m1(2) h(4,5)] h(7) by metis
  have "grows {out} m m2" by (rule grows_trans [OF m1(3) m2(2)]) simp
  with m1(1,4) m2 h(2) show "\<exists>m' f'. seq_op (assign_field ks getf setf) op inp out m = Some m' \<and> grows {out} m m' \<and>
      load ks m' out = Some (setf f' o1) \<and> view m' f' = Some w \<and> foot m' f' \<inter> allocated m = {}"
    by (auto simp: seq_op_def assign_field_def)
qed

lemma struct_copier:
  assumes "kind_ok ks"
  shows "deep_copier (struct_view getf view) (struct_foot getf foot) ks (struct_into ks op)"
proof (intro deep_copier.intro deep_copier_axioms.intro struct_deep_value deep_value_axioms assms)
  fix m inp v out v0 w
  assume h: "mem_wf m" "load ks m inp = Some v" "load ks m out = Some v0" "inp \<noteq> out"
    "struct_view getf view m v = Some w" "out \<notin> struct_foot getf foot m v"
  obtain m1 where m1: "store ks m out v = Some m1" "load ks m1 out = Some v" "grows {out} m m1" "allocated m1 = allocated m"
    using load_store [OF assms h(1,3)] by blast
  have "load ks m1 inp = Some v" using load_grows [OF m1(3) h(2)] h(4) by simp
  moreover have "view m1 (getf v) = Some w \<and> foot m1 (getf v) = foot m (getf v)"
    using view_grows [OF m1(3)] h(5,6) by (simp add: struct_view_def struct_foot_def)
  ultimately obtain m2 f where m2: "op inp out m1 = Some m2" "grows {out} m1 m2" "load ks m2 out = Some (setf f v)"
      "view m2 f = Some w" "foot m2 f \<inter> allocated m1 = {}"
    using op_copies [OF grows_wf [OF m1(3)] _ m1(2) h(4) refl] h(6) by (metis struct_foot_def)
  have "grows {out} m m2" by (rule grows_trans [OF m1(3) m2(2)]) simp
  moreover have "getf (setf f v) = f" using lens by (simp add: lens_def)
  ultimately show "\<exists>m' v'. struct_into ks op inp out m = Some m' \<and> grows {out} m m' \<and> load ks m' out = Some v' \<and>
      struct_view getf view m' v' = Some w \<and> struct_foot getf foot m' v' \<inter> allocated m = {}"
    using m1(1,4) m2 h(2) by (auto simp: struct_into_def assign_def struct_view_def struct_foot_def)
qed

end

context deep_copier
begin

lemma DeepCopy_ptr:
  assumes "mem_wf m" and "ptr_view k view m p = Some w"
  shows "\<exists>q m'. DeepCopy_with k zero into p m = Some (q, m') \<and> grows {} m m' \<and> ptr_view k view m' q = Some w \<and>
    ptr_foot k foot m' q \<inter> allocated m = {}"
proof (cases p)
  case None
  with assms show ?thesis by (simp add: DeepCopy_with_def ptr_view_def ptr_foot_def grows_refl)
next
  case (Some a)
  with assms(2) obtain v w' where v: "load k m a = Some v" "view m v = Some w'" "w = Some w'"
    by (auto simp: ptr_view_def bind_eq_Some_conv)
  obtain m1 where m1: "new k zero m = (lim m, m1)" "load k m1 (lim m) = Some zero" "grows {} m m1" "lim m \<notin> allocated m"
    using new_spec [OF kind assms(1)] by blast
  have a: "a \<noteq> lim m" using load_dom [OF v(1)] m1(4) by blast
  have "load k m1 a = Some v" using load_grows [OF m1(3) v(1)] by simp
  moreover have f: "view m1 v = Some w' \<and> foot m1 v = foot m v" using view_grows [OF m1(3) v(2)] by simp
  moreover have "lim m \<notin> foot m1 v" using f foot_bounded [OF v(2)] m1(4) by blast
  ultimately obtain m2 v' where m2: "into a (lim m) m1 = Some m2" "grows {lim m} m1 m2" "load k m2 (lim m) = Some v'"
      "view m2 v' = Some w'" "foot m2 v' \<inter> allocated m1 = {}"
    using into_copies [OF grows_wf [OF m1(3)] _ m1(2) a] by blast
  have "grows {} m m2" by (rule grows_trans [OF m1(3) m2(2)]) (use m1(4) in simp)
  moreover have "foot m2 v' \<inter> allocated m = {}" using m2(5) grows_dom [OF m1(3)] by blast
  ultimately show ?thesis
    using Some m1(1,4) m2(1,3,4) v(3)
    by (simp add: DeepCopy_with_def ptr_view_def ptr_foot_def cell_foot_def)
qed

lemma copy_ptr_copier:
  assumes "kind_ok ks" and "lens getf setf"
  shows "field_copier (ptr_view k view) (ptr_foot k foot) ks getf setf (copy_ptr ks getf setf k zero into)"
proof (intro field_copier.intro field_copier_axioms.intro ptr_deep_value assms(2))
  fix m inp v out o1 w
  assume h: "mem_wf m" "load ks m inp = Some v" "load ks m out = Some o1" "inp \<noteq> out" "getf o1 = getf v"
    "ptr_view k view m (getf v) = Some w" "out \<notin> ptr_foot k foot m (getf v)"
  show "\<exists>m' f'. copy_ptr ks getf setf k zero into inp out m = Some m' \<and> grows {out} m m' \<and>
      load ks m' out = Some (setf f' o1) \<and> ptr_view k view m' f' = Some w \<and> ptr_foot k foot m' f' \<inter> allocated m = {}"
  proof (cases "getf v")
    case None
    then have "setf None o1 = o1" using assms(2) h(5) by (metis lens_def)
    with None h show ?thesis
      by (intro exI [of _ m] exI [of _ None]) (simp add: copy_ptr_def grows_refl ptr_foot_def)
  next
    case (Some p)
    then obtain x w' where x: "load k m p = Some x" "view m x = Some w'" "w = Some w'" and p: "out \<noteq> p" "out \<notin> foot m x"
      using h(6,7) by (auto simp: ptr_view_def ptr_foot_def cell_foot_def bind_eq_Some_conv)
    let ?q = "lim m"
    obtain m1 where m1: "new k zero m = (?q, m1)" "load k m1 ?q = Some zero" "grows {} m m1" "?q \<notin> allocated m"
      using new_spec [OF kind h(1)] by blast
    have "load ks m1 out = Some o1" using load_grows [OF m1(3) h(3)] by simp
    then obtain m2 where m2: "modify ks m1 out (setf (Some ?q)) = Some m2" "load ks m2 out = Some (setf (Some ?q) o1)"
        "grows {out} m1 m2" "allocated m2 = allocated m1"
      using load_modify [OF assms(1) grows_wf [OF m1(3)]] by blast
    have g2: "grows {out} m m2" by (rule grows_trans [OF grows_mono [OF m1(3)] m2(3)]) auto
    have q: "?q \<noteq> out" "p \<noteq> ?q" "?q \<notin> foot m x"
      using m1(4) load_dom [OF h(3)] load_dom [OF x(1)] foot_bounded [OF x(2)] by blast+
    have "load k m2 ?q = Some zero" using load_grows [OF m2(3) m1(2)] q(1) by simp
    moreover have "load k m2 p = Some x" using load_grows [OF g2 x(1)] p(1) by simp
    moreover have "view m2 x = Some w' \<and> foot m2 x = foot m x" using view_grows [OF g2 x(2)] p(2) by simp
    ultimately obtain m3 v' where m3: "into p ?q m2 = Some m3" "grows {?q} m2 m3" "load k m3 ?q = Some v'"
        "view m3 v' = Some w'" "foot m3 v' \<inter> allocated m2 = {}"
      using into_copies [OF grows_wf [OF m2(3)] _ _ q(2)] q(3) by metis
    have "load ks m2 inp = Some v" using load_grows [OF g2 h(2)] h(4) by simp
    moreover have "load ks m3 out = Some (setf (Some ?q) o1)" using load_grows [OF m3(2) m2(2)] q(1) by simp
    moreover have "grows {out} m m3" by (rule grows_trans [OF g2 m3(2)]) (use m1(4) in simp)
    moreover have "foot m3 v' \<inter> allocated m = {}" using m3(5) grows_dom [OF g2] by blast
    ultimately show ?thesis
      using Some h(2) m1(1,4) m2(1) m3(1,3,4) x(3)
      by (intro exI [of _ m3] exI [of _ "Some ?q"]) (simp add: copy_ptr_def ptr_view_def ptr_foot_def cell_foot_def)
  qed
qed

text \<open>The loop over the elements: each is copied to its own place, no other old memory changes.\<close>

lemma range_copy_copies:
  assumes "mem_wf m" and "distinct is"
    and "\<forall>i \<in> set is. \<exists>v. load k m (src + i) = Some v \<and> view m v = Some (ws i)"
    and "\<forall>i \<in> set is. load k m (dst + i) \<noteq> None"
    and "\<forall>i \<in> set is. cell_foot k foot m (src + i) \<inter> (+) dst ` set is = {}"
  shows "\<exists>m'. range_copy into src dst is m = Some m' \<and> grows ((+) dst ` set is) m m' \<and>
    (\<forall>i \<in> set is. \<exists>v. load k m' (dst + i) = Some v \<and> view m' v = Some (ws i) \<and> foot m' v \<inter> allocated m = {})"
  using assms
proof (induction "is" arbitrary: m)
  case Nil
  then show ?case by (simp add: grows_refl)
next
  case (Cons i "is")
  let ?D = "(+) dst ` set is"
  have D: "?D \<subseteq> allocated m" "dst + i \<in> allocated m" using Cons.prems(4) load_dom by fastforce+
  have i: "dst + i \<notin> ?D" using Cons.prems(2) by auto
  from Cons.prems(3,4) obtain v v0 where v: "load k m (src + i) = Some v" "view m v = Some (ws i)" "load k m (dst + i) = Some v0"
    by fastforce
  have "src + i \<noteq> dst + i" "dst + i \<notin> foot m v" using Cons.prems(5) v(1) by (auto simp: cell_foot_def)
  then obtain m1 v1 where m1: "into (src + i) (dst + i) m = Some m1" "grows {dst + i} m m1" "load k m1 (dst + i) = Some v1"
      "view m1 v1 = Some (ws i)" "foot m1 v1 \<inter> allocated m = {}"
    using into_copies [OF Cons.prems(1) v(1,3) _ v(2)] by blast
  have elem: "\<exists>x. load k m1 (src + j) = Some x \<and> view m1 x = Some (ws j)"
      "cell_foot k foot m1 (src + j) = cell_foot k foot m (src + j)" if j: "j \<in> set is" for j
  proof -
    obtain x where x: "load k m (src + j) = Some x" "view m x = Some (ws j)" using Cons.prems(3) j by auto
    have "cell_foot k foot m (src + j) \<inter> {dst + i} = {}" using Cons.prems(5) j by auto
    from cell_grows [OF m1(2) x this] show "\<exists>x. load k m1 (src + j) = Some x \<and> view m1 x = Some (ws j)"
      "cell_foot k foot m1 (src + j) = cell_foot k foot m (src + j)" by blast+
  qed
  have dst: "load k m1 (dst + j) \<noteq> None" if "j \<in> set is" for j
    using Cons.prems(2,4) that load_grows [OF m1(2), of k "dst + j"] by fastforce
  have "\<exists>m'. range_copy into src dst is m1 = Some m' \<and> grows ?D m1 m' \<and>
    (\<forall>i \<in> set is. \<exists>v. load k m' (dst + i) = Some v \<and> view m' v = Some (ws i) \<and> foot m' v \<inter> allocated m1 = {})"
    using Cons.prems elem dst by (intro Cons.IH grows_wf [OF m1(2)]) auto
  then obtain m' where m': "range_copy into src dst is m1 = Some m'" "grows ?D m1 m'"
      "\<forall>i \<in> set is. \<exists>v. load k m' (dst + i) = Some v \<and> view m' v = Some (ws i) \<and> foot m' v \<inter> allocated m1 = {}"
    by blast
  have "grows ((+) dst ` set (i # is)) m m'"
    by (rule grows_trans [OF grows_mono [OF m1(2)] m'(2)]) auto
  moreover have "load k m' (dst + i) = Some v1" using load_grows [OF m'(2) m1(3)] i by simp
  moreover have "view m' v1 = Some (ws i) \<and> foot m' v1 = foot m1 v1"
    using view_grows [OF m'(2) m1(4)] m1(5) D(1) by blast
  moreover have "foot m' x \<inter> allocated m = {}" if "foot m' x \<inter> allocated m1 = {}" for x
    using that grows_dom [OF m1(2)] by blast
  ultimately show ?case using m1(1,5) m'(1,3) by fastforce
qed

text \<open>The copy of all elements of a slice to a new array.\<close>

lemma range_copy_slice:
  assumes "mem_wf m" and "slice_view k view m (Some (b, n)) = Some w" and "\<forall>i<n. load k m (q + i) \<noteq> None"
    and "slice_foot k foot m (Some (b, n)) \<inter> {q..<q + n} = {}"
  shows "\<exists>m'. range_copy into b q [0..<n] m = Some m' \<and> grows {q..<q + n} m m' \<and>
    slice_view k view m' (Some (q, n)) = Some w \<and> slice_foot k foot m' (Some (q, n)) \<inter> allocated m \<subseteq> {q..<q + n}"
proof -
  from assms(2) obtain ws where ws: "w = Some ws" "length ws = n"
      "\<forall>i<n. \<exists>x. load k m (b + i) = Some x \<and> view m x = Some (ws ! i)"
    by (auto simp: slice_view_Some)
  have D: "(+) q ` set [0..<n] = {q..<q + n}" by (simp add: add.commute)
  have "cell_foot k foot m (b + i) \<inter> {q..<q + n} = {}" if "i < n" for i
    using assms(4) that by (auto simp: slice_foot_def)
  with range_copy_copies [OF assms(1), of "[0..<n]" b "\<lambda>i. ws ! i" q] ws(3) assms(3)
  obtain m' where m': "range_copy into b q [0..<n] m = Some m'" "grows {q..<q + n} m m'"
      "\<forall>i<n. \<exists>x. load k m' (q + i) = Some x \<and> view m' x = Some (ws ! i) \<and> foot m' x \<inter> allocated m = {}"
    unfolding D by auto
  have "cell_foot k foot m' (q + i) \<inter> allocated m \<subseteq> {q..<q + n}" if i: "i < n" for i
  proof -
    obtain x where "load k m' (q + i) = Some x" "foot m' x \<inter> allocated m = {}" using m'(3) i by blast
    with i show ?thesis by (auto simp: cell_foot_def)
  qed
  then have "slice_foot k foot m' (Some (q, n)) \<inter> allocated m \<subseteq> {q..<q + n}" by (auto simp: slice_foot_def)
  moreover have "slice_view k view m' (Some (q, n)) = Some w" using m'(3) ws(1,2) by (auto simp: slice_view_Some)
  ultimately show ?thesis using m'(1,2) by blast
qed

lemma copy_slice_copier:
  assumes "kind_ok ks" and "lens getf setf"
  shows "field_copier (slice_view k view) (slice_foot k foot) ks getf setf (copy_slice ks getf setf k zero into)"
proof (intro field_copier.intro field_copier_axioms.intro slice_deep_value assms(2))
  fix m inp v out o1 w
  assume h: "mem_wf m" "load ks m inp = Some v" "load ks m out = Some o1" "inp \<noteq> out" "getf o1 = getf v"
    "slice_view k view m (getf v) = Some w" "out \<notin> slice_foot k foot m (getf v)"
  show "\<exists>m' f'. copy_slice ks getf setf k zero into inp out m = Some m' \<and> grows {out} m m' \<and>
      load ks m' out = Some (setf f' o1) \<and> slice_view k view m' f' = Some w \<and> slice_foot k foot m' f' \<inter> allocated m = {}"
  proof (cases "getf v")
    case None
    then have "setf None o1 = o1" using assms(2) h(5) by (metis lens_def)
    with None h show ?thesis
      by (intro exI [of _ m] exI [of _ None]) (simp add: copy_slice_def grows_refl slice_foot_def)
  next
    case (Some bn)
    then obtain b n where bn: "getf v = Some (b, n)" by (cases bn) auto
    let ?q = "lim m" and ?sl = "Some (lim m, n)"
    obtain m1 where m1: "make k zero n m = (?sl, m1)" "\<forall>i<n. load k m1 (?q + i) = Some zero" "grows {} m m1"
        "{?q..<?q + n} \<inter> allocated m = {}"
      using make_spec [OF kind h(1)] by blast
    have "load ks m1 out = Some o1" using load_grows [OF m1(3) h(3)] by simp
    then obtain m2 where m2: "modify ks m1 out (setf ?sl) = Some m2" "load ks m2 out = Some (setf ?sl o1)" "grows {out} m1 m2"
      using load_modify [OF assms(1) grows_wf [OF m1(3)]] by blast
    have g2: "grows {out} m m2" by (rule grows_trans [OF grows_mono [OF m1(3)] m2(3)]) auto
    have out: "out \<notin> {?q..<?q + n}" using m1(4) load_dom [OF h(3)] by blast
    have "load k m2 (?q + i) \<noteq> None" if "i < n" for i
      using load_grows [OF m2(3) m1(2) [rule_format, OF that]] out that by force
    moreover have s: "slice_view k view m2 (Some (b, n)) = Some w \<and> slice_foot k foot m2 (Some (b, n)) = slice_foot k foot m (Some (b, n))"
      using deep_value.view_grows [OF slice_deep_value g2 h(6)] h(7) bn by simp
    moreover have "slice_foot k foot m2 (Some (b, n)) \<inter> {?q..<?q + n} = {}"
      using s deep_value.foot_bounded [OF slice_deep_value h(6)] m1(4) bn by auto
    ultimately obtain m3 where m3: "range_copy into b ?q [0..<n] m2 = Some m3" "grows {?q..<?q + n} m2 m3"
        "slice_view k view m3 ?sl = Some w" "slice_foot k foot m3 ?sl \<inter> allocated m2 \<subseteq> {?q..<?q + n}"
      using range_copy_slice [OF grows_wf [OF m2(3)], of b n w ?q] by blast
    have "load ks m2 inp = Some v" using load_grows [OF g2 h(2)] h(4) by simp
    moreover have "getf (setf ?sl o1) = ?sl" using assms(2) by (simp add: lens_def)
    ultimately have "copy_slice ks getf setf k zero into inp out m = Some m3"
      using h(2) bn m1(1) m2(1,2) m3(1) by (simp add: copy_slice_def)
    moreover have "load ks m3 out = Some (setf ?sl o1)" using load_grows [OF m3(2) m2(2)] out by simp
    moreover have "grows {out} m m3" by (rule grows_trans [OF g2 m3(2)]) (use m1(4) in blast)
    moreover have "slice_foot k foot m3 ?sl \<inter> allocated m = {}" using m3(4) m1(4) grows_dom [OF g2] by blast
    ultimately show ?thesis using m3(3) by blast
  qed
qed

text \<open>
  A deep copy and its original are independent: writes that stay outside the memory of one do not
  change its meaning, and their memories are disjoint.
\<close>

lemma DeepCopy_independent:
  assumes "mem_wf m" and "ptr_view k view m p = Some w" and "DeepCopy_with k zero into p m = Some (q, m')"
  shows "ptr_foot k foot m' q \<inter> ptr_foot k foot m' p = {}"
    and "(\<forall>a. a \<notin> ptr_foot k foot m' p \<longrightarrow> cells m2 a = cells m' a) \<Longrightarrow> ptr_view k view m2 q = Some w"
    and "(\<forall>a. a \<notin> ptr_foot k foot m' q \<longrightarrow> cells m2 a = cells m' a) \<Longrightarrow> ptr_view k view m2 p = Some w"
proof -
  have c: "grows {} m m'" "ptr_view k view m' q = Some w" "ptr_foot k foot m' q \<inter> allocated m = {}"
    using DeepCopy_ptr [OF assms(1,2), of zero] assms(3) by simp_all
  note val = ptr_deep_value [of k]
  have p: "ptr_view k view m' p = Some w \<and> ptr_foot k foot m' p = ptr_foot k foot m p"
    using deep_value.view_grows [OF val c(1) assms(2)] by simp
  moreover have "ptr_foot k foot m p \<subseteq> allocated m" by (rule deep_value.foot_bounded [OF val assms(2)])
  ultimately show dis: "ptr_foot k foot m' q \<inter> ptr_foot k foot m' p = {}" using c(3) by blast
  show "ptr_view k view m2 q = Some w" if "\<forall>a. a \<notin> ptr_foot k foot m' p \<longrightarrow> cells m2 a = cells m' a"
    using deep_value.view_local [OF val, of m' q m2] that dis c(2) by (metis disjoint_iff)
  show "ptr_view k view m2 p = Some w" if "\<forall>a. a \<notin> ptr_foot k foot m' q \<longrightarrow> cells m2 a = cells m' a"
    using deep_value.view_local [OF val, of m' p m2] that dis p by (metis disjoint_iff)
qed

end

end
