(* ===== verification/Deep_Copy.thy ===== *)
theory Deep_Copy
  imports Go_Heap Api_Types
begin

text \<open>
  \<open>control-plane/api/v1alpha1/zz_generated.deepcopy.go\<close>: the generated copy methods of the API types, on
  the memory of \<open>Go_Heap\<close>. The structs are as in the type declarations, with their pointers
  and slices as addresses, unlike the records of \<open>Api_Types\<close>, which are their meanings.

  Values of structs from the Kubernetes libraries (\<open>ObjectMeta\<close>, \<open>ListMeta\<close>, \<open>Condition\<close>, \<open>RawExtension\<close>)
  and the memory they point to are of a type \<open>'x\<close>. Their zero values and their \<open>DeepCopyInto\<close> are
  the record \<open>machinery\<close>; \<open>machinery_ok\<close> is what the generated code relies on in them.

  Shown for every kind: a copy has the same meaning as the original, is made of new memory, and
  neither it nor the original changes when the other is written to.
\<close>

section \<open>The structs in memory\<close>

record TypeMeta =
  tm_Kind :: string
  tm_APIVersion :: string

text \<open>
  \<open>Listener\<close>, \<open>RouteConfiguration\<close>, \<open>ScopedRouteConfiguration\<close> and \<open>ClusterLoadAssignment\<close> have the same
  fields, and so have the six list types.
\<close>

record 'x Resource_struct =
  res_TypeMeta :: TypeMeta
  res_ObjectMeta :: 'x
  res_TargetRef :: TargetRef
  res_Spec :: 'x

record ServiceRef_struct =
  sref_Name :: string
  sref_Namespace :: string
  sref_Port :: "addr option"

record 'x Cluster_struct =
  cl_TypeMeta :: TypeMeta
  cl_ObjectMeta :: 'x
  cl_TargetRef :: TargetRef
  cl_KubernetesServiceRef :: "addr option"
  cl_Spec :: 'x

record Status_struct =
  st_ObservedGeneration :: int64
  st_Conditions :: go_slice

record 'x EnvoyProxy_struct =
  px_TypeMeta :: TypeMeta
  px_ObjectMeta :: 'x
  px_Spec :: EnvoyProxySpec
  px_Status :: Status_struct

record 'x List_struct =
  li_TypeMeta :: TypeMeta
  li_ListMeta :: 'x
  li_Items :: go_slice

type_synonym 'x ClusterList = "'x List_struct"
type_synonym 'x ClusterLoadAssignmentList = "'x List_struct"
type_synonym 'x EnvoyProxyList = "'x List_struct"
type_synonym 'x ListenerList = "'x List_struct"
type_synonym 'x RouteConfigurationList = "'x List_struct"
type_synonym 'x ScopedRouteConfigurationList = "'x List_struct"

text \<open>A memory cell: a variable of one of these types, or memory of the libraries.\<close>

datatype 'x cell =
    CInt32 int32
  | CTargetRef TargetRef
  | CServiceRef ServiceRef_struct
  | CSpec unit
  | CStatus Status_struct
  | CCondition 'x
  | CListener "'x Resource_struct"
  | CCluster "'x Cluster_struct"
  | CRoute "'x Resource_struct"
  | CScopedRoute "'x Resource_struct"
  | CCLA "'x Resource_struct"
  | CEnvoyProxy "'x EnvoyProxy_struct"
  | CListenerList "'x ListenerList"
  | CClusterList "'x ClusterList"
  | CRouteList "'x RouteConfigurationList"
  | CScopedRouteList "'x ScopedRouteConfigurationList"
  | CCLAList "'x ClusterLoadAssignmentList"
  | CEnvoyProxyList "'x EnvoyProxyList"
  | CLibrary 'x

definition k_int32 :: "('x cell, int32) kind" where
  "k_int32 = \<lparr>wrap = CInt32, unwrap = (\<lambda>c. case c of CInt32 v \<Rightarrow> Some v | _ \<Rightarrow> None)\<rparr>"

definition k_TargetRef :: "('x cell, TargetRef) kind" where
  "k_TargetRef = \<lparr>wrap = CTargetRef, unwrap = (\<lambda>c. case c of CTargetRef v \<Rightarrow> Some v | _ \<Rightarrow> None)\<rparr>"

definition k_ServiceRef :: "('x cell, ServiceRef_struct) kind" where
  "k_ServiceRef = \<lparr>wrap = CServiceRef, unwrap = (\<lambda>c. case c of CServiceRef v \<Rightarrow> Some v | _ \<Rightarrow> None)\<rparr>"

definition k_Spec :: "('x cell, unit) kind" where
  "k_Spec = \<lparr>wrap = CSpec, unwrap = (\<lambda>c. case c of CSpec v \<Rightarrow> Some v | _ \<Rightarrow> None)\<rparr>"

definition k_Status :: "('x cell, Status_struct) kind" where
  "k_Status = \<lparr>wrap = CStatus, unwrap = (\<lambda>c. case c of CStatus v \<Rightarrow> Some v | _ \<Rightarrow> None)\<rparr>"

definition k_Condition :: "('x cell, 'x) kind" where
  "k_Condition = \<lparr>wrap = CCondition, unwrap = (\<lambda>c. case c of CCondition v \<Rightarrow> Some v | _ \<Rightarrow> None)\<rparr>"

definition k_Listener :: "('x cell, 'x Resource_struct) kind" where
  "k_Listener = \<lparr>wrap = CListener, unwrap = (\<lambda>c. case c of CListener v \<Rightarrow> Some v | _ \<Rightarrow> None)\<rparr>"

definition k_Cluster :: "('x cell, 'x Cluster_struct) kind" where
  "k_Cluster = \<lparr>wrap = CCluster, unwrap = (\<lambda>c. case c of CCluster v \<Rightarrow> Some v | _ \<Rightarrow> None)\<rparr>"

definition k_Route :: "('x cell, 'x Resource_struct) kind" where
  "k_Route = \<lparr>wrap = CRoute, unwrap = (\<lambda>c. case c of CRoute v \<Rightarrow> Some v | _ \<Rightarrow> None)\<rparr>"

definition k_ScopedRoute :: "('x cell, 'x Resource_struct) kind" where
  "k_ScopedRoute = \<lparr>wrap = CScopedRoute, unwrap = (\<lambda>c. case c of CScopedRoute v \<Rightarrow> Some v | _ \<Rightarrow> None)\<rparr>"

definition k_CLA :: "('x cell, 'x Resource_struct) kind" where
  "k_CLA = \<lparr>wrap = CCLA, unwrap = (\<lambda>c. case c of CCLA v \<Rightarrow> Some v | _ \<Rightarrow> None)\<rparr>"

definition k_EnvoyProxy :: "('x cell, 'x EnvoyProxy_struct) kind" where
  "k_EnvoyProxy = \<lparr>wrap = CEnvoyProxy, unwrap = (\<lambda>c. case c of CEnvoyProxy v \<Rightarrow> Some v | _ \<Rightarrow> None)\<rparr>"

definition k_ListenerList :: "('x cell, 'x ListenerList) kind" where
  "k_ListenerList = \<lparr>wrap = CListenerList, unwrap = (\<lambda>c. case c of CListenerList v \<Rightarrow> Some v | _ \<Rightarrow> None)\<rparr>"

definition k_ClusterList :: "('x cell, 'x ClusterList) kind" where
  "k_ClusterList = \<lparr>wrap = CClusterList, unwrap = (\<lambda>c. case c of CClusterList v \<Rightarrow> Some v | _ \<Rightarrow> None)\<rparr>"

definition k_RouteList :: "('x cell, 'x RouteConfigurationList) kind" where
  "k_RouteList = \<lparr>wrap = CRouteList, unwrap = (\<lambda>c. case c of CRouteList v \<Rightarrow> Some v | _ \<Rightarrow> None)\<rparr>"

definition k_ScopedRouteList :: "('x cell, 'x ScopedRouteConfigurationList) kind" where
  "k_ScopedRouteList = \<lparr>wrap = CScopedRouteList, unwrap = (\<lambda>c. case c of CScopedRouteList v \<Rightarrow> Some v | _ \<Rightarrow> None)\<rparr>"

definition k_CLAList :: "('x cell, 'x ClusterLoadAssignmentList) kind" where
  "k_CLAList = \<lparr>wrap = CCLAList, unwrap = (\<lambda>c. case c of CCLAList v \<Rightarrow> Some v | _ \<Rightarrow> None)\<rparr>"

definition k_EnvoyProxyList :: "('x cell, 'x EnvoyProxyList) kind" where
  "k_EnvoyProxyList = \<lparr>wrap = CEnvoyProxyList, unwrap = (\<lambda>c. case c of CEnvoyProxyList v \<Rightarrow> Some v | _ \<Rightarrow> None)\<rparr>"

lemmas kind_defs =
  k_int32_def k_TargetRef_def k_ServiceRef_def k_Spec_def k_Status_def k_Condition_def
  k_Listener_def k_Cluster_def k_Route_def k_ScopedRoute_def k_CLA_def k_EnvoyProxy_def
  k_ListenerList_def k_ClusterList_def k_RouteList_def k_ScopedRouteList_def k_CLAList_def k_EnvoyProxyList_def

lemma kinds_ok [simp]:
  "kind_ok k_int32" "kind_ok k_TargetRef" "kind_ok k_ServiceRef" "kind_ok k_Spec"
  "kind_ok k_Status" "kind_ok k_Condition" "kind_ok k_Listener" "kind_ok k_Cluster"
  "kind_ok k_Route" "kind_ok k_ScopedRoute" "kind_ok k_CLA" "kind_ok k_EnvoyProxy"
  "kind_ok k_ListenerList" "kind_ok k_ClusterList" "kind_ok k_RouteList" "kind_ok k_ScopedRouteList"
  "kind_ok k_CLAList" "kind_ok k_EnvoyProxyList"
  by (simp_all add: kind_ok_def kind_defs)

section \<open>The libraries\<close>

record 'x machinery =
  zero_ObjectMeta :: 'x
  zero_ListMeta :: 'x
  zero_Condition :: 'x
  zero_RawExtension :: 'x
  ObjectMeta_DeepCopyInto :: "'x cell mem \<Rightarrow> 'x \<Rightarrow> 'x \<times> 'x cell mem"
  ListMeta_DeepCopyInto :: "'x cell mem \<Rightarrow> 'x \<Rightarrow> 'x \<times> 'x cell mem"
  Condition_copy :: "'x cell mem \<Rightarrow> 'x \<Rightarrow> 'x \<times> 'x cell mem"
  RawExtension_DeepCopyInto :: "'x cell mem \<Rightarrow> 'x \<Rightarrow> 'x \<times> 'x cell mem"

definition zero_TypeMeta :: TypeMeta where
  "zero_TypeMeta = \<lparr>tm_Kind = [], tm_APIVersion = []\<rparr>"

definition zero_TargetRef :: TargetRef where
  "zero_TargetRef = \<lparr>TargetRef_Name = [], TargetRef_Namespace = []\<rparr>"

definition zero_ServiceRef :: ServiceRef_struct where
  "zero_ServiceRef = \<lparr>sref_Name = [], sref_Namespace = [], sref_Port = None\<rparr>"

definition zero_Status :: Status_struct where
  "zero_Status = \<lparr>st_ObservedGeneration = 0, st_Conditions = None\<rparr>"

definition zero_Resource :: "'x machinery \<Rightarrow> 'x Resource_struct" where
  "zero_Resource x = \<lparr>res_TypeMeta = zero_TypeMeta, res_ObjectMeta = zero_ObjectMeta x, res_TargetRef = zero_TargetRef,
     res_Spec = zero_RawExtension x\<rparr>"

definition zero_Cluster :: "'x machinery \<Rightarrow> 'x Cluster_struct" where
  "zero_Cluster x = \<lparr>cl_TypeMeta = zero_TypeMeta, cl_ObjectMeta = zero_ObjectMeta x, cl_TargetRef = zero_TargetRef,
     cl_KubernetesServiceRef = None, cl_Spec = zero_RawExtension x\<rparr>"

definition zero_EnvoyProxy :: "'x machinery \<Rightarrow> 'x EnvoyProxy_struct" where
  "zero_EnvoyProxy x = \<lparr>px_TypeMeta = zero_TypeMeta, px_ObjectMeta = zero_ObjectMeta x, px_Spec = (), px_Status = zero_Status\<rparr>"

definition zero_List :: "'x machinery \<Rightarrow> 'x List_struct" where
  "zero_List x = \<lparr>li_TypeMeta = zero_TypeMeta, li_ListMeta = zero_ListMeta x, li_Items = None\<rparr>"

section \<open>The copy methods\<close>

type_synonym 'x copy_into = "addr \<Rightarrow> addr \<Rightarrow> 'x cell mem \<Rightarrow> 'x cell mem option"
type_synonym 'x copy_new = "addr option \<Rightarrow> 'x cell mem \<Rightarrow> (addr option \<times> 'x cell mem) option"

definition TargetRef_DeepCopyInto :: "'x copy_into" where
  "TargetRef_DeepCopyInto = assign k_TargetRef"

definition TargetRef_DeepCopy :: "'x copy_new" where
  "TargetRef_DeepCopy = DeepCopy_with k_TargetRef zero_TargetRef TargetRef_DeepCopyInto"

definition EnvoyProxySpec_DeepCopyInto :: "'x copy_into" where
  "EnvoyProxySpec_DeepCopyInto = assign k_Spec"

definition EnvoyProxySpec_DeepCopy :: "'x copy_new" where
  "EnvoyProxySpec_DeepCopy = DeepCopy_with k_Spec () EnvoyProxySpec_DeepCopyInto"

text \<open>\<open>*out = new(int32); **out = **in\<close> for the port\<close>

definition KubernetesServiceRef_DeepCopyInto :: "'x copy_into" where
  "KubernetesServiceRef_DeepCopyInto inp out m = do {
     m1 \<leftarrow> assign k_ServiceRef inp out m;
     copy_ptr k_ServiceRef sref_Port (\<lambda>p s. s\<lparr>sref_Port := p\<rparr>) k_int32 0 (assign k_int32) inp out m1 }"

definition KubernetesServiceRef_DeepCopy :: "'x copy_new" where
  "KubernetesServiceRef_DeepCopy = DeepCopy_with k_ServiceRef zero_ServiceRef KubernetesServiceRef_DeepCopyInto"

text \<open>The method of an element of \<open>Conditions\<close>.\<close>

definition Condition_DeepCopyInto :: "'x machinery \<Rightarrow> 'x copy_into" where
  "Condition_DeepCopyInto x = copy_field k_Condition (\<lambda>v. v) (\<lambda>f v. f) (Condition_copy x)"

text \<open>
  The pointers of \<open>EnvoyProxyStatus.DeepCopyInto\<close> can point into a struct, \<open>&out.Status\<close>: they are the address of
  a struct of the kind \<open>ks\<close> with the access to the status inside.
\<close>

definition EnvoyProxyStatus_DeepCopyInto ::
  "'x machinery \<Rightarrow> ('x cell, 's) kind \<Rightarrow> ('s \<Rightarrow> Status_struct) \<Rightarrow> (Status_struct \<Rightarrow> 's \<Rightarrow> 's) \<Rightarrow> 'x copy_into" where
  "EnvoyProxyStatus_DeepCopyInto x ks getp setp inp out m = do {
     m1 \<leftarrow> assign_field ks getp setp inp out m;
     copy_slice ks (\<lambda>s. st_Conditions (getp s)) (\<lambda>c s. setp ((getp s)\<lparr>st_Conditions := c\<rparr>) s)
       k_Condition (zero_Condition x) (Condition_DeepCopyInto x) inp out m1 }"

definition EnvoyProxyStatus_DeepCopy :: "'x machinery \<Rightarrow> 'x copy_new" where
  "EnvoyProxyStatus_DeepCopy x =
     DeepCopy_with k_Status zero_Status (EnvoyProxyStatus_DeepCopyInto x k_Status (\<lambda>v. v) (\<lambda>f v. f))"

text \<open>The common body of the four kinds with the same fields.\<close>

definition Resource_DeepCopyInto :: "'x machinery \<Rightarrow> ('x cell, 'x Resource_struct) kind \<Rightarrow> 'x copy_into" where
  "Resource_DeepCopyInto x k inp out m = do {
     m1 \<leftarrow> assign k inp out m;
     m2 \<leftarrow> assign_field k res_TypeMeta (\<lambda>f s. s\<lparr>res_TypeMeta := f\<rparr>) inp out m1;
     m3 \<leftarrow> copy_field k res_ObjectMeta (\<lambda>f s. s\<lparr>res_ObjectMeta := f\<rparr>) (ObjectMeta_DeepCopyInto x) inp out m2;
     m4 \<leftarrow> assign_field k res_TargetRef (\<lambda>f s. s\<lparr>res_TargetRef := f\<rparr>) inp out m3;
     copy_field k res_Spec (\<lambda>f s. s\<lparr>res_Spec := f\<rparr>) (RawExtension_DeepCopyInto x) inp out m4 }"

definition Cluster_DeepCopyInto :: "'x machinery \<Rightarrow> 'x copy_into" where
  "Cluster_DeepCopyInto x inp out m = do {
     m1 \<leftarrow> assign k_Cluster inp out m;
     m2 \<leftarrow> assign_field k_Cluster cl_TypeMeta (\<lambda>f s. s\<lparr>cl_TypeMeta := f\<rparr>) inp out m1;
     m3 \<leftarrow> copy_field k_Cluster cl_ObjectMeta (\<lambda>f s. s\<lparr>cl_ObjectMeta := f\<rparr>) (ObjectMeta_DeepCopyInto x) inp out m2;
     m4 \<leftarrow> assign_field k_Cluster cl_TargetRef (\<lambda>f s. s\<lparr>cl_TargetRef := f\<rparr>) inp out m3;
     m5 \<leftarrow> copy_ptr k_Cluster cl_KubernetesServiceRef (\<lambda>f s. s\<lparr>cl_KubernetesServiceRef := f\<rparr>)
       k_ServiceRef zero_ServiceRef KubernetesServiceRef_DeepCopyInto inp out m4;
     copy_field k_Cluster cl_Spec (\<lambda>f s. s\<lparr>cl_Spec := f\<rparr>) (RawExtension_DeepCopyInto x) inp out m5 }"

definition EnvoyProxy_DeepCopyInto :: "'x machinery \<Rightarrow> 'x copy_into" where
  "EnvoyProxy_DeepCopyInto x inp out m = do {
     m1 \<leftarrow> assign k_EnvoyProxy inp out m;
     m2 \<leftarrow> assign_field k_EnvoyProxy px_TypeMeta (\<lambda>f s. s\<lparr>px_TypeMeta := f\<rparr>) inp out m1;
     m3 \<leftarrow> copy_field k_EnvoyProxy px_ObjectMeta (\<lambda>f s. s\<lparr>px_ObjectMeta := f\<rparr>) (ObjectMeta_DeepCopyInto x) inp out m2;
     m4 \<leftarrow> assign_field k_EnvoyProxy px_Spec (\<lambda>f s. s\<lparr>px_Spec := f\<rparr>) inp out m3;
     EnvoyProxyStatus_DeepCopyInto x k_EnvoyProxy px_Status (\<lambda>f s. s\<lparr>px_Status := f\<rparr>) inp out m4 }"

text \<open>The common body of the list types.\<close>

definition List_DeepCopyInto ::
  "'x machinery \<Rightarrow> ('x cell, 'x List_struct) kind \<Rightarrow> ('x cell, 'a) kind \<Rightarrow> 'a \<Rightarrow> 'x copy_into \<Rightarrow> 'x copy_into" where
  "List_DeepCopyInto x k ke zero into inp out m = do {
     m1 \<leftarrow> assign k inp out m;
     m2 \<leftarrow> assign_field k li_TypeMeta (\<lambda>f s. s\<lparr>li_TypeMeta := f\<rparr>) inp out m1;
     m3 \<leftarrow> copy_field k li_ListMeta (\<lambda>f s. s\<lparr>li_ListMeta := f\<rparr>) (ListMeta_DeepCopyInto x) inp out m2;
     copy_slice k li_Items (\<lambda>f s. s\<lparr>li_Items := f\<rparr>) ke zero into inp out m3 }"

definition Listener_DeepCopyInto :: "'x machinery \<Rightarrow> 'x copy_into" where
  "Listener_DeepCopyInto x = Resource_DeepCopyInto x k_Listener"

definition RouteConfiguration_DeepCopyInto :: "'x machinery \<Rightarrow> 'x copy_into" where
  "RouteConfiguration_DeepCopyInto x = Resource_DeepCopyInto x k_Route"

definition ScopedRouteConfiguration_DeepCopyInto :: "'x machinery \<Rightarrow> 'x copy_into" where
  "ScopedRouteConfiguration_DeepCopyInto x = Resource_DeepCopyInto x k_ScopedRoute"

definition ClusterLoadAssignment_DeepCopyInto :: "'x machinery \<Rightarrow> 'x copy_into" where
  "ClusterLoadAssignment_DeepCopyInto x = Resource_DeepCopyInto x k_CLA"

definition Listener_DeepCopy :: "'x machinery \<Rightarrow> 'x copy_new" where
  "Listener_DeepCopy x = DeepCopy_with k_Listener (zero_Resource x) (Listener_DeepCopyInto x)"

definition Cluster_DeepCopy :: "'x machinery \<Rightarrow> 'x copy_new" where
  "Cluster_DeepCopy x = DeepCopy_with k_Cluster (zero_Cluster x) (Cluster_DeepCopyInto x)"

definition RouteConfiguration_DeepCopy :: "'x machinery \<Rightarrow> 'x copy_new" where
  "RouteConfiguration_DeepCopy x = DeepCopy_with k_Route (zero_Resource x) (RouteConfiguration_DeepCopyInto x)"

definition ScopedRouteConfiguration_DeepCopy :: "'x machinery \<Rightarrow> 'x copy_new" where
  "ScopedRouteConfiguration_DeepCopy x = DeepCopy_with k_ScopedRoute (zero_Resource x) (ScopedRouteConfiguration_DeepCopyInto x)"

definition ClusterLoadAssignment_DeepCopy :: "'x machinery \<Rightarrow> 'x copy_new" where
  "ClusterLoadAssignment_DeepCopy x = DeepCopy_with k_CLA (zero_Resource x) (ClusterLoadAssignment_DeepCopyInto x)"

definition EnvoyProxy_DeepCopy :: "'x machinery \<Rightarrow> 'x copy_new" where
  "EnvoyProxy_DeepCopy x = DeepCopy_with k_EnvoyProxy (zero_EnvoyProxy x) (EnvoyProxy_DeepCopyInto x)"

definition ListenerList_DeepCopyInto :: "'x machinery \<Rightarrow> 'x copy_into" where
  "ListenerList_DeepCopyInto x = List_DeepCopyInto x k_ListenerList k_Listener (zero_Resource x) (Listener_DeepCopyInto x)"

definition ListenerList_DeepCopy :: "'x machinery \<Rightarrow> 'x copy_new" where
  "ListenerList_DeepCopy x = DeepCopy_with k_ListenerList (zero_List x) (ListenerList_DeepCopyInto x)"

definition ClusterList_DeepCopyInto :: "'x machinery \<Rightarrow> 'x copy_into" where
  "ClusterList_DeepCopyInto x = List_DeepCopyInto x k_ClusterList k_Cluster (zero_Cluster x) (Cluster_DeepCopyInto x)"

definition ClusterList_DeepCopy :: "'x machinery \<Rightarrow> 'x copy_new" where
  "ClusterList_DeepCopy x = DeepCopy_with k_ClusterList (zero_List x) (ClusterList_DeepCopyInto x)"

definition RouteConfigurationList_DeepCopyInto :: "'x machinery \<Rightarrow> 'x copy_into" where
  "RouteConfigurationList_DeepCopyInto x = List_DeepCopyInto x k_RouteList k_Route (zero_Resource x) (RouteConfiguration_DeepCopyInto x)"

definition RouteConfigurationList_DeepCopy :: "'x machinery \<Rightarrow> 'x copy_new" where
  "RouteConfigurationList_DeepCopy x = DeepCopy_with k_RouteList (zero_List x) (RouteConfigurationList_DeepCopyInto x)"

definition ScopedRouteConfigurationList_DeepCopyInto :: "'x machinery \<Rightarrow> 'x copy_into" where
  "ScopedRouteConfigurationList_DeepCopyInto x = List_DeepCopyInto x k_ScopedRouteList k_ScopedRoute (zero_Resource x) (ScopedRouteConfiguration_DeepCopyInto x)"

definition ScopedRouteConfigurationList_DeepCopy :: "'x machinery \<Rightarrow> 'x copy_new" where
  "ScopedRouteConfigurationList_DeepCopy x = DeepCopy_with k_ScopedRouteList (zero_List x) (ScopedRouteConfigurationList_DeepCopyInto x)"

definition ClusterLoadAssignmentList_DeepCopyInto :: "'x machinery \<Rightarrow> 'x copy_into" where
  "ClusterLoadAssignmentList_DeepCopyInto x = List_DeepCopyInto x k_CLAList k_CLA (zero_Resource x) (ClusterLoadAssignment_DeepCopyInto x)"

definition ClusterLoadAssignmentList_DeepCopy :: "'x machinery \<Rightarrow> 'x copy_new" where
  "ClusterLoadAssignmentList_DeepCopy x = DeepCopy_with k_CLAList (zero_List x) (ClusterLoadAssignmentList_DeepCopyInto x)"

definition EnvoyProxyList_DeepCopyInto :: "'x machinery \<Rightarrow> 'x copy_into" where
  "EnvoyProxyList_DeepCopyInto x = List_DeepCopyInto x k_EnvoyProxyList k_EnvoyProxy (zero_EnvoyProxy x) (EnvoyProxy_DeepCopyInto x)"

definition EnvoyProxyList_DeepCopy :: "'x machinery \<Rightarrow> 'x copy_new" where
  "EnvoyProxyList_DeepCopy x = DeepCopy_with k_EnvoyProxyList (zero_List x) (EnvoyProxyList_DeepCopyInto x)"

text \<open>
  \<open>runtime.Object\<close>: a pointer to one of the registered kinds, or the nil interface. A \<open>DeepCopyObject\<close> method
  returns the nil interface, not an interface with a nil pointer, when there is nothing to copy.
\<close>

datatype runtime_object =
    NilObject
  | Listener_object "addr option"
  | ListenerList_object "addr option"
  | Cluster_object "addr option"
  | ClusterList_object "addr option"
  | RouteConfiguration_object "addr option"
  | RouteConfigurationList_object "addr option"
  | ScopedRouteConfiguration_object "addr option"
  | ScopedRouteConfigurationList_object "addr option"
  | ClusterLoadAssignment_object "addr option"
  | ClusterLoadAssignmentList_object "addr option"
  | EnvoyProxy_object "addr option"
  | EnvoyProxyList_object "addr option"

definition as_object :: "(addr option \<Rightarrow> runtime_object) \<Rightarrow> (addr option \<times> 'x cell mem) option \<Rightarrow> (runtime_object \<times> 'x cell mem) option" where
  "as_object con r = do { (c, m) \<leftarrow> r; Some (if c \<noteq> None then con c else NilObject, m) }"

definition Listener_DeepCopyObject :: "'x machinery \<Rightarrow> addr option \<Rightarrow> 'x cell mem \<Rightarrow> (runtime_object \<times> 'x cell mem) option" where
  "Listener_DeepCopyObject x inp m = as_object Listener_object (Listener_DeepCopy x inp m)"

definition ListenerList_DeepCopyObject :: "'x machinery \<Rightarrow> addr option \<Rightarrow> 'x cell mem \<Rightarrow> (runtime_object \<times> 'x cell mem) option" where
  "ListenerList_DeepCopyObject x inp m = as_object ListenerList_object (ListenerList_DeepCopy x inp m)"

definition Cluster_DeepCopyObject :: "'x machinery \<Rightarrow> addr option \<Rightarrow> 'x cell mem \<Rightarrow> (runtime_object \<times> 'x cell mem) option" where
  "Cluster_DeepCopyObject x inp m = as_object Cluster_object (Cluster_DeepCopy x inp m)"

definition ClusterList_DeepCopyObject :: "'x machinery \<Rightarrow> addr option \<Rightarrow> 'x cell mem \<Rightarrow> (runtime_object \<times> 'x cell mem) option" where
  "ClusterList_DeepCopyObject x inp m = as_object ClusterList_object (ClusterList_DeepCopy x inp m)"

definition RouteConfiguration_DeepCopyObject :: "'x machinery \<Rightarrow> addr option \<Rightarrow> 'x cell mem \<Rightarrow> (runtime_object \<times> 'x cell mem) option" where
  "RouteConfiguration_DeepCopyObject x inp m = as_object RouteConfiguration_object (RouteConfiguration_DeepCopy x inp m)"

definition RouteConfigurationList_DeepCopyObject :: "'x machinery \<Rightarrow> addr option \<Rightarrow> 'x cell mem \<Rightarrow> (runtime_object \<times> 'x cell mem) option" where
  "RouteConfigurationList_DeepCopyObject x inp m = as_object RouteConfigurationList_object (RouteConfigurationList_DeepCopy x inp m)"

definition ScopedRouteConfiguration_DeepCopyObject :: "'x machinery \<Rightarrow> addr option \<Rightarrow> 'x cell mem \<Rightarrow> (runtime_object \<times> 'x cell mem) option" where
  "ScopedRouteConfiguration_DeepCopyObject x inp m = as_object ScopedRouteConfiguration_object (ScopedRouteConfiguration_DeepCopy x inp m)"

definition ScopedRouteConfigurationList_DeepCopyObject :: "'x machinery \<Rightarrow> addr option \<Rightarrow> 'x cell mem \<Rightarrow> (runtime_object \<times> 'x cell mem) option" where
  "ScopedRouteConfigurationList_DeepCopyObject x inp m = as_object ScopedRouteConfigurationList_object (ScopedRouteConfigurationList_DeepCopy x inp m)"

definition ClusterLoadAssignment_DeepCopyObject :: "'x machinery \<Rightarrow> addr option \<Rightarrow> 'x cell mem \<Rightarrow> (runtime_object \<times> 'x cell mem) option" where
  "ClusterLoadAssignment_DeepCopyObject x inp m = as_object ClusterLoadAssignment_object (ClusterLoadAssignment_DeepCopy x inp m)"

definition ClusterLoadAssignmentList_DeepCopyObject :: "'x machinery \<Rightarrow> addr option \<Rightarrow> 'x cell mem \<Rightarrow> (runtime_object \<times> 'x cell mem) option" where
  "ClusterLoadAssignmentList_DeepCopyObject x inp m = as_object ClusterLoadAssignmentList_object (ClusterLoadAssignmentList_DeepCopy x inp m)"

definition EnvoyProxy_DeepCopyObject :: "'x machinery \<Rightarrow> addr option \<Rightarrow> 'x cell mem \<Rightarrow> (runtime_object \<times> 'x cell mem) option" where
  "EnvoyProxy_DeepCopyObject x inp m = as_object EnvoyProxy_object (EnvoyProxy_DeepCopy x inp m)"

definition EnvoyProxyList_DeepCopyObject :: "'x machinery \<Rightarrow> addr option \<Rightarrow> 'x cell mem \<Rightarrow> (runtime_object \<times> 'x cell mem) option" where
  "EnvoyProxyList_DeepCopyObject x inp m = as_object EnvoyProxyList_object (EnvoyProxyList_DeepCopy x inp m)"

text \<open>The call of \<open>DeepCopyObject\<close> through the interface; on the nil interface it panics.\<close>

fun DeepCopyObject :: "'x machinery \<Rightarrow> runtime_object \<Rightarrow> 'x cell mem \<Rightarrow> (runtime_object \<times> 'x cell mem) option" where
  "DeepCopyObject x NilObject m = None"
| "DeepCopyObject x (Listener_object p) m = Listener_DeepCopyObject x p m"
| "DeepCopyObject x (ListenerList_object p) m = ListenerList_DeepCopyObject x p m"
| "DeepCopyObject x (Cluster_object p) m = Cluster_DeepCopyObject x p m"
| "DeepCopyObject x (ClusterList_object p) m = ClusterList_DeepCopyObject x p m"
| "DeepCopyObject x (RouteConfiguration_object p) m = RouteConfiguration_DeepCopyObject x p m"
| "DeepCopyObject x (RouteConfigurationList_object p) m = RouteConfigurationList_DeepCopyObject x p m"
| "DeepCopyObject x (ScopedRouteConfiguration_object p) m = ScopedRouteConfiguration_DeepCopyObject x p m"
| "DeepCopyObject x (ScopedRouteConfigurationList_object p) m = ScopedRouteConfigurationList_DeepCopyObject x p m"
| "DeepCopyObject x (ClusterLoadAssignment_object p) m = ClusterLoadAssignment_DeepCopyObject x p m"
| "DeepCopyObject x (ClusterLoadAssignmentList_object p) m = ClusterLoadAssignmentList_DeepCopyObject x p m"
| "DeepCopyObject x (EnvoyProxy_object p) m = EnvoyProxy_DeepCopyObject x p m"
| "DeepCopyObject x (EnvoyProxyList_object p) m = EnvoyProxyList_DeepCopyObject x p m"

section \<open>What the structs mean\<close>

text \<open>The meaning of library values, with the memory it depends on.\<close>

record ('x, 'v) meaning =
  view_ObjectMeta :: "'x cell mem \<Rightarrow> 'x \<Rightarrow> 'v option"
  foot_ObjectMeta :: "'x cell mem \<Rightarrow> 'x \<Rightarrow> addr set"
  view_ListMeta :: "'x cell mem \<Rightarrow> 'x \<Rightarrow> 'v option"
  foot_ListMeta :: "'x cell mem \<Rightarrow> 'x \<Rightarrow> addr set"
  view_Condition :: "'x cell mem \<Rightarrow> 'x \<Rightarrow> 'v option"
  foot_Condition :: "'x cell mem \<Rightarrow> 'x \<Rightarrow> addr set"
  view_RawExtension :: "'x cell mem \<Rightarrow> 'x \<Rightarrow> 'v option"
  foot_RawExtension :: "'x cell mem \<Rightarrow> 'x \<Rightarrow> addr set"

definition machinery_ok :: "'x machinery \<Rightarrow> ('x, 'v) meaning \<Rightarrow> bool" where
  "machinery_ok x v \<longleftrightarrow>
     value_copier (view_ObjectMeta v) (foot_ObjectMeta v) (ObjectMeta_DeepCopyInto x) \<and>
     value_copier (view_ListMeta v) (foot_ListMeta v) (ListMeta_DeepCopyInto x) \<and>
     value_copier (view_Condition v) (foot_Condition v) (Condition_copy x) \<and>
     value_copier (view_RawExtension v) (foot_RawExtension v) (RawExtension_DeepCopyInto x)"

lemma machinery_okD:
  assumes "machinery_ok x v"
  shows "value_copier (view_ObjectMeta v) (foot_ObjectMeta v) (ObjectMeta_DeepCopyInto x)"
    "value_copier (view_ListMeta v) (foot_ListMeta v) (ListMeta_DeepCopyInto x)"
    "value_copier (view_Condition v) (foot_Condition v) (Condition_copy x)"
    "value_copier (view_RawExtension v) (foot_RawExtension v) (RawExtension_DeepCopyInto x)"
  using assms by (simp_all add: machinery_ok_def)

text \<open>A struct means what its fields mean, a pointer or slice what it points to.\<close>

definition ServiceRef_fields :: "ServiceRef_struct \<Rightarrow> (string \<times> string) \<times> addr option" where
  "ServiceRef_fields = pair_get (\<lambda>s. (sref_Name s, sref_Namespace s)) sref_Port"

definition ServiceRef_view :: "'x cell mem \<Rightarrow> ServiceRef_struct \<Rightarrow> ((string \<times> string) \<times> int32 option) option" where
  "ServiceRef_view = struct_view ServiceRef_fields (pair_view plain_view (ptr_view k_int32 plain_view))"

definition ServiceRef_foot :: "'x cell mem \<Rightarrow> ServiceRef_struct \<Rightarrow> addr set" where
  "ServiceRef_foot = struct_foot ServiceRef_fields (pair_foot plain_foot (ptr_foot k_int32 plain_foot))"

definition Status_fields :: "Status_struct \<Rightarrow> int64 \<times> go_slice" where
  "Status_fields = pair_get st_ObservedGeneration st_Conditions"

definition Status_view :: "('x, 'v) meaning \<Rightarrow> 'x cell mem \<Rightarrow> Status_struct \<Rightarrow> (int64 \<times> 'v list option) option" where
  "Status_view v = struct_view Status_fields (pair_view plain_view (slice_view k_Condition (view_Condition v)))"

definition Status_foot :: "('x, 'v) meaning \<Rightarrow> 'x cell mem \<Rightarrow> Status_struct \<Rightarrow> addr set" where
  "Status_foot v = struct_foot Status_fields (pair_foot plain_foot (slice_foot k_Condition (foot_Condition v)))"

definition Resource_fields :: "'x Resource_struct \<Rightarrow> TypeMeta \<times> 'x \<times> TargetRef \<times> 'x" where
  "Resource_fields = pair_get res_TypeMeta (pair_get res_ObjectMeta (pair_get res_TargetRef res_Spec))"

definition Resource_view :: "('x, 'v) meaning \<Rightarrow> 'x cell mem \<Rightarrow> 'x Resource_struct \<Rightarrow> (TypeMeta \<times> 'v \<times> TargetRef \<times> 'v) option" where
  "Resource_view v = struct_view Resource_fields
     (pair_view plain_view (pair_view (view_ObjectMeta v) (pair_view plain_view (view_RawExtension v))))"

definition Resource_foot :: "('x, 'v) meaning \<Rightarrow> 'x cell mem \<Rightarrow> 'x Resource_struct \<Rightarrow> addr set" where
  "Resource_foot v = struct_foot Resource_fields
     (pair_foot plain_foot (pair_foot (foot_ObjectMeta v) (pair_foot plain_foot (foot_RawExtension v))))"

definition Cluster_fields :: "'x Cluster_struct \<Rightarrow> TypeMeta \<times> 'x \<times> TargetRef \<times> addr option \<times> 'x" where
  "Cluster_fields = pair_get cl_TypeMeta (pair_get cl_ObjectMeta (pair_get cl_TargetRef (pair_get cl_KubernetesServiceRef cl_Spec)))"

definition Cluster_view ::
  "('x, 'v) meaning \<Rightarrow> 'x cell mem \<Rightarrow> 'x Cluster_struct \<Rightarrow>
   (TypeMeta \<times> 'v \<times> TargetRef \<times> ((string \<times> string) \<times> int32 option) option \<times> 'v) option" where
  "Cluster_view v = struct_view Cluster_fields
     (pair_view plain_view (pair_view (view_ObjectMeta v) (pair_view plain_view
       (pair_view (ptr_view k_ServiceRef ServiceRef_view) (view_RawExtension v)))))"

definition Cluster_foot :: "('x, 'v) meaning \<Rightarrow> 'x cell mem \<Rightarrow> 'x Cluster_struct \<Rightarrow> addr set" where
  "Cluster_foot v = struct_foot Cluster_fields
     (pair_foot plain_foot (pair_foot (foot_ObjectMeta v) (pair_foot plain_foot
       (pair_foot (ptr_foot k_ServiceRef ServiceRef_foot) (foot_RawExtension v)))))"

definition EnvoyProxy_fields :: "'x EnvoyProxy_struct \<Rightarrow> TypeMeta \<times> 'x \<times> unit \<times> Status_struct" where
  "EnvoyProxy_fields = pair_get px_TypeMeta (pair_get px_ObjectMeta (pair_get px_Spec px_Status))"

definition EnvoyProxy_view ::
  "('x, 'v) meaning \<Rightarrow> 'x cell mem \<Rightarrow> 'x EnvoyProxy_struct \<Rightarrow> (TypeMeta \<times> 'v \<times> unit \<times> int64 \<times> 'v list option) option" where
  "EnvoyProxy_view v = struct_view EnvoyProxy_fields
     (pair_view plain_view (pair_view (view_ObjectMeta v) (pair_view plain_view (Status_view v))))"

definition EnvoyProxy_foot :: "('x, 'v) meaning \<Rightarrow> 'x cell mem \<Rightarrow> 'x EnvoyProxy_struct \<Rightarrow> addr set" where
  "EnvoyProxy_foot v = struct_foot EnvoyProxy_fields
     (pair_foot plain_foot (pair_foot (foot_ObjectMeta v) (pair_foot plain_foot (Status_foot v))))"

definition List_fields :: "'x List_struct \<Rightarrow> TypeMeta \<times> 'x \<times> go_slice" where
  "List_fields = pair_get li_TypeMeta (pair_get li_ListMeta li_Items)"

definition List_view ::
  "('x, 'v) meaning \<Rightarrow> ('x cell, 'a) kind \<Rightarrow> ('x cell mem \<Rightarrow> 'a \<Rightarrow> 'w option) \<Rightarrow> 'x cell mem \<Rightarrow> 'x List_struct \<Rightarrow>
   (TypeMeta \<times> 'v \<times> 'w list option) option" where
  "List_view v ke view = struct_view List_fields (pair_view plain_view (pair_view (view_ListMeta v) (slice_view ke view)))"

definition List_foot ::
  "('x, 'v) meaning \<Rightarrow> ('x cell, 'a) kind \<Rightarrow> ('x cell mem \<Rightarrow> 'a \<Rightarrow> addr set) \<Rightarrow> 'x cell mem \<Rightarrow> 'x List_struct \<Rightarrow> addr set" where
  "List_foot v ke foot = struct_foot List_fields (pair_foot plain_foot (pair_foot (foot_ListMeta v) (slice_foot ke foot)))"

section \<open>Every method is a deep copy\<close>

lemmas access_defs = lens_def separate_def pair_get_def pair_set_def

lemmas body_defs = fun_eq_iff struct_into_def seq_op_def

interpretation tref: deep_copier plain_view plain_foot k_TargetRef TargetRef_DeepCopyInto
  unfolding TargetRef_DeepCopyInto_def by (rule assign_copier) simp

interpretation pspec: deep_copier plain_view plain_foot k_Spec EnvoyProxySpec_DeepCopyInto
  unfolding EnvoyProxySpec_DeepCopyInto_def by (rule assign_copier) simp

interpretation int32_var: deep_copier plain_view plain_foot k_int32 "assign k_int32"
  by (rule assign_copier) simp

interpretation port: field_copier "ptr_view k_int32 plain_view" "ptr_foot k_int32 plain_foot" k_ServiceRef
    sref_Port "\<lambda>p s. s\<lparr>sref_Port := p\<rparr>"
    "copy_ptr k_ServiceRef sref_Port (\<lambda>p s. s\<lparr>sref_Port := p\<rparr>) k_int32 0 (assign k_int32)"
  by (rule int32_var.copy_ptr_copier) (simp_all add: access_defs)

interpretation sref: deep_copier ServiceRef_view ServiceRef_foot k_ServiceRef KubernetesServiceRef_DeepCopyInto
proof -
  have "field_copier plain_view plain_foot k_ServiceRef (\<lambda>s. (sref_Name s, sref_Namespace s))
      (\<lambda>(a, b) s. s\<lparr>sref_Name := a, sref_Namespace := b\<rparr>) skip_field"
    by (rule skip_copier) (auto simp: access_defs)
  from pair_copier [OF this port.field_copier_axioms] have "field_copier
      (pair_view plain_view (ptr_view k_int32 plain_view)) (pair_foot plain_foot (ptr_foot k_int32 plain_foot)) k_ServiceRef
      ServiceRef_fields (pair_set (\<lambda>(a, b) s. s\<lparr>sref_Name := a, sref_Namespace := b\<rparr>) (\<lambda>p s. s\<lparr>sref_Port := p\<rparr>))
      (copy_ptr k_ServiceRef sref_Port (\<lambda>p s. s\<lparr>sref_Port := p\<rparr>) k_int32 0 (assign k_int32))"
    by (simp add: ServiceRef_fields_def access_defs split_def)
  from field_copier.struct_copier [OF this] show "deep_copier ServiceRef_view ServiceRef_foot k_ServiceRef
      (KubernetesServiceRef_DeepCopyInto :: 'a copy_into)"
    by (simp add: ServiceRef_view_def ServiceRef_foot_def struct_into_def [abs_def] KubernetesServiceRef_DeepCopyInto_def [abs_def])
qed

lemma Condition_copier:
  assumes "machinery_ok x v"
  shows "deep_copier (view_Condition v) (foot_Condition v) k_Condition (Condition_DeepCopyInto x)"
  unfolding Condition_DeepCopyInto_def by (rule value_copier.whole_copier [OF machinery_okD(3) [OF assms]]) simp

text \<open>The status, wherever it is.\<close>

lemma Status_conditions_copier:
  assumes "machinery_ok x v" and "kind_ok ks" and "lens getp setp"
  shows "field_copier (Status_view v) (Status_foot v) ks getp setp
    (copy_slice ks (\<lambda>s. st_Conditions (getp s)) (\<lambda>c s. setp ((getp s)\<lparr>st_Conditions := c\<rparr>) s)
       k_Condition (zero_Condition x) (Condition_DeepCopyInto x))"
proof -
  let ?gen = "\<lambda>s. st_ObservedGeneration (getp s)" and ?setg = "\<lambda>g s. setp ((getp s)\<lparr>st_ObservedGeneration := g\<rparr>) s"
  let ?con = "\<lambda>s. st_Conditions (getp s)" and ?setc = "\<lambda>c s. setp ((getp s)\<lparr>st_Conditions := c\<rparr>) s"
  let ?op = "copy_slice ks ?con ?setc k_Condition (zero_Condition x) (Condition_DeepCopyInto x)"
  have gen: "field_copier plain_view plain_foot ks ?gen ?setg skip_field"
    by (rule skip_copier) (use assms(3) in \<open>auto simp: lens_def\<close>)
  have con: "field_copier (slice_view k_Condition (view_Condition v)) (slice_foot k_Condition (foot_Condition v)) ks ?con ?setc ?op"
    by (rule deep_copier.copy_slice_copier [OF Condition_copier [OF assms(1)] assms(2)]) (use assms(3) in \<open>auto simp: lens_def\<close>)
  have comm: "u\<lparr>st_Conditions := c, st_ObservedGeneration := g\<rparr> = u\<lparr>st_ObservedGeneration := g, st_Conditions := c\<rparr>" for u c g
    by simp
  have full: "u\<lparr>st_ObservedGeneration := g, st_Conditions := c\<rparr> = \<lparr>st_ObservedGeneration = g, st_Conditions = c\<rparr>" for u :: Status_struct and c g
    by (cases u) simp
  have sep: "separate ?gen ?setg ?con ?setc" using assms(3) by (simp add: separate_def lens_def) (metis comm)
  have get: "pair_get ?gen ?con = (\<lambda>s. Status_fields (getp s))"
    by (simp add: fun_eq_iff pair_get_def Status_fields_def)
  have set: "pair_set ?setg ?setc = (\<lambda>f s. setp ((\<lambda>(g, c). \<lparr>st_ObservedGeneration = g, st_Conditions = c\<rparr>) f) s)"
    using assms(3) by (auto simp: fun_eq_iff pair_set_def lens_def) (metis full)
  show ?thesis
    unfolding Status_view_def Status_foot_def
    by (rule inner_copier [OF pair_copier [OF gen con sep, unfolded get set seq_skip] assms(3)])
qed

lemma Status_copier:
  assumes "machinery_ok x v" and "kind_ok ks" and "lens getp setp"
  shows "field_copier (Status_view v) (Status_foot v) ks getp setp (EnvoyProxyStatus_DeepCopyInto x ks getp setp)"
  using field_copier.assign_first_copier [OF Status_conditions_copier [OF assms] assms(2)]
  by (simp add: seq_op_def [abs_def] EnvoyProxyStatus_DeepCopyInto_def [abs_def])

lemma EnvoyProxyStatus_copier:
  assumes "machinery_ok x v"
  shows "deep_copier (Status_view v) (Status_foot v) k_Status (EnvoyProxyStatus_DeepCopyInto x k_Status (\<lambda>v. v) (\<lambda>f v. f))"
proof -
  have l: "lens (\<lambda>v. v) (\<lambda>f v. f)" by (simp add: lens_def)
  have same: "EnvoyProxyStatus_DeepCopyInto x k_Status (\<lambda>v. v) (\<lambda>f v. f) =
      struct_into k_Status (copy_slice k_Status st_Conditions (\<lambda>c s. s\<lparr>st_Conditions := c\<rparr>)
        k_Condition (zero_Condition x) (Condition_DeepCopyInto x))"
    by (auto simp: fun_eq_iff EnvoyProxyStatus_DeepCopyInto_def struct_into_def assign_def assign_field_def modify_def store_def
        split: option.splits intro!: Option.bind_cong)
  from field_copier.struct_copier [OF Status_conditions_copier [OF assms kinds_ok(5) l] kinds_ok(5)] show ?thesis
    by (simp add: same struct_view_def [abs_def] struct_foot_def [abs_def])
qed

lemma Resource_copier:
  assumes "machinery_ok x v" and "kind_ok k"
  shows "deep_copier (Resource_view v) (Resource_foot v) k (Resource_DeepCopyInto x k)"
proof -
  have t: "field_copier plain_view plain_foot k res_TypeMeta (\<lambda>f s. s\<lparr>res_TypeMeta := f\<rparr>)
      (assign_field k res_TypeMeta (\<lambda>f s. s\<lparr>res_TypeMeta := f\<rparr>))"
    by (intro assign_field_copier assms(2)) (simp add: access_defs)
  have o: "field_copier (view_ObjectMeta v) (foot_ObjectMeta v) k res_ObjectMeta (\<lambda>f s. s\<lparr>res_ObjectMeta := f\<rparr>)
      (copy_field k res_ObjectMeta (\<lambda>f s. s\<lparr>res_ObjectMeta := f\<rparr>) (ObjectMeta_DeepCopyInto x))"
    by (intro value_copier.copy_field_copier machinery_okD(1) assms) (simp add: access_defs)
  have r: "field_copier plain_view plain_foot k res_TargetRef (\<lambda>f s. s\<lparr>res_TargetRef := f\<rparr>)
      (assign_field k res_TargetRef (\<lambda>f s. s\<lparr>res_TargetRef := f\<rparr>))"
    by (intro assign_field_copier assms(2)) (simp add: access_defs)
  have p: "field_copier (view_RawExtension v) (foot_RawExtension v) k res_Spec (\<lambda>f s. s\<lparr>res_Spec := f\<rparr>)
      (copy_field k res_Spec (\<lambda>f s. s\<lparr>res_Spec := f\<rparr>) (RawExtension_DeepCopyInto x))"
    by (intro value_copier.copy_field_copier machinery_okD(4) assms) (simp add: access_defs)
  note all = pair_copier [OF t pair_copier [OF o pair_copier [OF r p]]]
  have "deep_copier (Resource_view v) (Resource_foot v) k (struct_into k
     (seq_op (assign_field k res_TypeMeta (\<lambda>f s. s\<lparr>res_TypeMeta := f\<rparr>))
     (seq_op (copy_field k res_ObjectMeta (\<lambda>f s. s\<lparr>res_ObjectMeta := f\<rparr>) (ObjectMeta_DeepCopyInto x))
     (seq_op (assign_field k res_TargetRef (\<lambda>f s. s\<lparr>res_TargetRef := f\<rparr>))
       (copy_field k res_Spec (\<lambda>f s. s\<lparr>res_Spec := f\<rparr>) (RawExtension_DeepCopyInto x))))))"
    unfolding Resource_view_def Resource_foot_def Resource_fields_def
    by (rule field_copier.struct_copier [OF all assms(2)]) (simp_all add: access_defs split_def)
  then show ?thesis
    by (simp add: struct_into_def [abs_def] seq_op_def [abs_def] Resource_DeepCopyInto_def [abs_def])
qed

lemma Cluster_copier:
  assumes "machinery_ok x v"
  shows "deep_copier (Cluster_view v) (Cluster_foot v) k_Cluster (Cluster_DeepCopyInto x)"
proof -
  have t: "field_copier plain_view plain_foot k_Cluster cl_TypeMeta (\<lambda>f s. s\<lparr>cl_TypeMeta := f\<rparr>)
      (assign_field k_Cluster cl_TypeMeta (\<lambda>f s. s\<lparr>cl_TypeMeta := f\<rparr>))"
    by (intro assign_field_copier) (simp_all add: access_defs)
  have o: "field_copier (view_ObjectMeta v) (foot_ObjectMeta v) k_Cluster cl_ObjectMeta (\<lambda>f s. s\<lparr>cl_ObjectMeta := f\<rparr>)
      (copy_field k_Cluster cl_ObjectMeta (\<lambda>f s. s\<lparr>cl_ObjectMeta := f\<rparr>) (ObjectMeta_DeepCopyInto x))"
    by (intro value_copier.copy_field_copier machinery_okD(1) assms) (simp_all add: access_defs)
  have r: "field_copier plain_view plain_foot k_Cluster cl_TargetRef (\<lambda>f s. s\<lparr>cl_TargetRef := f\<rparr>)
      (assign_field k_Cluster cl_TargetRef (\<lambda>f s. s\<lparr>cl_TargetRef := f\<rparr>))"
    by (intro assign_field_copier) (simp_all add: access_defs)
  have q: "field_copier (ptr_view k_ServiceRef ServiceRef_view) (ptr_foot k_ServiceRef ServiceRef_foot) k_Cluster cl_KubernetesServiceRef (\<lambda>f s. s\<lparr>cl_KubernetesServiceRef := f\<rparr>)
      (copy_ptr k_Cluster cl_KubernetesServiceRef (\<lambda>f s. s\<lparr>cl_KubernetesServiceRef := f\<rparr>)
       k_ServiceRef zero_ServiceRef KubernetesServiceRef_DeepCopyInto)"
    by (intro sref.copy_ptr_copier) (simp_all add: access_defs)
  have p: "field_copier (view_RawExtension v) (foot_RawExtension v) k_Cluster cl_Spec (\<lambda>f s. s\<lparr>cl_Spec := f\<rparr>)
      (copy_field k_Cluster cl_Spec (\<lambda>f s. s\<lparr>cl_Spec := f\<rparr>) (RawExtension_DeepCopyInto x))"
    by (intro value_copier.copy_field_copier machinery_okD(4) assms) (simp_all add: access_defs)
  note all = pair_copier [OF t pair_copier [OF o pair_copier [OF r pair_copier [OF q p]]]]
  have "deep_copier (Cluster_view v) (Cluster_foot v) k_Cluster (struct_into k_Cluster
     (seq_op (assign_field k_Cluster cl_TypeMeta (\<lambda>f s. s\<lparr>cl_TypeMeta := f\<rparr>)) 
     (seq_op (copy_field k_Cluster cl_ObjectMeta (\<lambda>f s. s\<lparr>cl_ObjectMeta := f\<rparr>) (ObjectMeta_DeepCopyInto x)) 
     (seq_op (assign_field k_Cluster cl_TargetRef (\<lambda>f s. s\<lparr>cl_TargetRef := f\<rparr>)) 
     (seq_op (copy_ptr k_Cluster cl_KubernetesServiceRef (\<lambda>f s. s\<lparr>cl_KubernetesServiceRef := f\<rparr>)
       k_ServiceRef zero_ServiceRef KubernetesServiceRef_DeepCopyInto) (copy_field k_Cluster cl_Spec (\<lambda>f s. s\<lparr>cl_Spec := f\<rparr>) (RawExtension_DeepCopyInto x)))))))"
    unfolding Cluster_view_def Cluster_foot_def Cluster_fields_def
    by (rule field_copier.struct_copier [OF all]) (simp_all add: access_defs split_def)
  then show ?thesis
    by (simp add: struct_into_def [abs_def] seq_op_def [abs_def] Cluster_DeepCopyInto_def [abs_def])
qed

lemma EnvoyProxy_copier:
  assumes "machinery_ok x v"
  shows "deep_copier (EnvoyProxy_view v) (EnvoyProxy_foot v) k_EnvoyProxy (EnvoyProxy_DeepCopyInto x)"
proof -
  have t: "field_copier plain_view plain_foot k_EnvoyProxy px_TypeMeta (\<lambda>f s. s\<lparr>px_TypeMeta := f\<rparr>)
      (assign_field k_EnvoyProxy px_TypeMeta (\<lambda>f s. s\<lparr>px_TypeMeta := f\<rparr>))"
    by (intro assign_field_copier) (simp_all add: access_defs)
  have o: "field_copier (view_ObjectMeta v) (foot_ObjectMeta v) k_EnvoyProxy px_ObjectMeta (\<lambda>f s. s\<lparr>px_ObjectMeta := f\<rparr>)
      (copy_field k_EnvoyProxy px_ObjectMeta (\<lambda>f s. s\<lparr>px_ObjectMeta := f\<rparr>) (ObjectMeta_DeepCopyInto x))"
    by (intro value_copier.copy_field_copier machinery_okD(1) assms) (simp_all add: access_defs)
  have r: "field_copier plain_view plain_foot k_EnvoyProxy px_Spec (\<lambda>f s. s\<lparr>px_Spec := f\<rparr>)
      (assign_field k_EnvoyProxy px_Spec (\<lambda>f s. s\<lparr>px_Spec := f\<rparr>))"
    by (intro assign_field_copier) (simp_all add: access_defs)
  have p: "field_copier (Status_view v) (Status_foot v) k_EnvoyProxy px_Status (\<lambda>f s. s\<lparr>px_Status := f\<rparr>)
      (EnvoyProxyStatus_DeepCopyInto x k_EnvoyProxy px_Status (\<lambda>f s. s\<lparr>px_Status := f\<rparr>))"
    by (intro Status_copier assms) (simp_all add: access_defs)
  note all = pair_copier [OF t pair_copier [OF o pair_copier [OF r p]]]
  have "deep_copier (EnvoyProxy_view v) (EnvoyProxy_foot v) k_EnvoyProxy (struct_into k_EnvoyProxy
     (seq_op (assign_field k_EnvoyProxy px_TypeMeta (\<lambda>f s. s\<lparr>px_TypeMeta := f\<rparr>)) 
     (seq_op (copy_field k_EnvoyProxy px_ObjectMeta (\<lambda>f s. s\<lparr>px_ObjectMeta := f\<rparr>) (ObjectMeta_DeepCopyInto x)) 
     (seq_op (assign_field k_EnvoyProxy px_Spec (\<lambda>f s. s\<lparr>px_Spec := f\<rparr>)) (EnvoyProxyStatus_DeepCopyInto x k_EnvoyProxy px_Status (\<lambda>f s. s\<lparr>px_Status := f\<rparr>))))))"
    unfolding EnvoyProxy_view_def EnvoyProxy_foot_def EnvoyProxy_fields_def
    by (rule field_copier.struct_copier [OF all]) (simp_all add: access_defs split_def)
  then show ?thesis
    by (simp add: struct_into_def [abs_def] seq_op_def [abs_def] EnvoyProxy_DeepCopyInto_def [abs_def])
qed

lemma List_copier:
  assumes "machinery_ok x v" and "kind_ok k" and "deep_copier view foot ke into"
  shows "deep_copier (List_view v ke view) (List_foot v ke foot) k (List_DeepCopyInto x k ke zero into)"
proof -
  have t: "field_copier plain_view plain_foot k li_TypeMeta (\<lambda>f s. s\<lparr>li_TypeMeta := f\<rparr>)
      (assign_field k li_TypeMeta (\<lambda>f s. s\<lparr>li_TypeMeta := f\<rparr>))"
    by (intro assign_field_copier assms(2)) (simp add: access_defs)
  have o: "field_copier (view_ListMeta v) (foot_ListMeta v) k li_ListMeta (\<lambda>f s. s\<lparr>li_ListMeta := f\<rparr>)
      (copy_field k li_ListMeta (\<lambda>f s. s\<lparr>li_ListMeta := f\<rparr>) (ListMeta_DeepCopyInto x))"
    by (intro value_copier.copy_field_copier machinery_okD(2) assms) (simp add: access_defs)
  have i: "field_copier (slice_view ke view) (slice_foot ke foot) k li_Items (\<lambda>f s. s\<lparr>li_Items := f\<rparr>)
      (copy_slice k li_Items (\<lambda>f s. s\<lparr>li_Items := f\<rparr>) ke zero into)"
    by (intro deep_copier.copy_slice_copier assms) (simp add: access_defs)
  note all = pair_copier [OF t pair_copier [OF o i]]
  have "deep_copier (List_view v ke view) (List_foot v ke foot) k (struct_into k
     (seq_op (assign_field k li_TypeMeta (\<lambda>f s. s\<lparr>li_TypeMeta := f\<rparr>))
     (seq_op (copy_field k li_ListMeta (\<lambda>f s. s\<lparr>li_ListMeta := f\<rparr>) (ListMeta_DeepCopyInto x))
       (copy_slice k li_Items (\<lambda>f s. s\<lparr>li_Items := f\<rparr>) ke zero into))))"
    unfolding List_view_def List_foot_def List_fields_def
    by (rule field_copier.struct_copier [OF all assms(2)]) (simp_all add: access_defs split_def)
  then show ?thesis
    by (simp add: struct_into_def [abs_def] seq_op_def [abs_def] List_DeepCopyInto_def [abs_def])
qed

section \<open>Objects\<close>

text \<open>The meaning of an object that is not nil, and the memory it reaches.\<close>

datatype 'v object_value =
    Resource_value "TypeMeta \<times> 'v \<times> TargetRef \<times> 'v"
  | Cluster_value "TypeMeta \<times> 'v \<times> TargetRef \<times> ((string \<times> string) \<times> int32 option) option \<times> 'v"
  | EnvoyProxy_value "TypeMeta \<times> 'v \<times> unit \<times> int64 \<times> 'v list option"
  | Resource_list_value "TypeMeta \<times> 'v \<times> (TypeMeta \<times> 'v \<times> TargetRef \<times> 'v) list option"
  | Cluster_list_value
      "TypeMeta \<times> 'v \<times> (TypeMeta \<times> 'v \<times> TargetRef \<times> ((string \<times> string) \<times> int32 option) option \<times> 'v) list option"
  | EnvoyProxy_list_value "TypeMeta \<times> 'v \<times> (TypeMeta \<times> 'v \<times> unit \<times> int64 \<times> 'v list option) list option"

definition ptr_value :: "('w \<Rightarrow> 'o) \<Rightarrow> 'w option option \<Rightarrow> 'o option" where
  "ptr_value con r = (case r of Some (Some w) \<Rightarrow> Some (con w) | _ \<Rightarrow> None)"

fun object_view :: "('x, 'v) meaning \<Rightarrow> 'x cell mem \<Rightarrow> runtime_object \<Rightarrow> 'v object_value option" where
  "object_view v m NilObject = None"
| "object_view v m (Listener_object p) = ptr_value Resource_value (ptr_view k_Listener (Resource_view v) m p)"
| "object_view v m (ListenerList_object p) =
     ptr_value Resource_list_value (ptr_view k_ListenerList (List_view v k_Listener (Resource_view v)) m p)"
| "object_view v m (Cluster_object p) = ptr_value Cluster_value (ptr_view k_Cluster (Cluster_view v) m p)"
| "object_view v m (ClusterList_object p) =
     ptr_value Cluster_list_value (ptr_view k_ClusterList (List_view v k_Cluster (Cluster_view v)) m p)"
| "object_view v m (RouteConfiguration_object p) = ptr_value Resource_value (ptr_view k_Route (Resource_view v) m p)"
| "object_view v m (RouteConfigurationList_object p) =
     ptr_value Resource_list_value (ptr_view k_RouteList (List_view v k_Route (Resource_view v)) m p)"
| "object_view v m (ScopedRouteConfiguration_object p) = ptr_value Resource_value (ptr_view k_ScopedRoute (Resource_view v) m p)"
| "object_view v m (ScopedRouteConfigurationList_object p) =
     ptr_value Resource_list_value (ptr_view k_ScopedRouteList (List_view v k_ScopedRoute (Resource_view v)) m p)"
| "object_view v m (ClusterLoadAssignment_object p) = ptr_value Resource_value (ptr_view k_CLA (Resource_view v) m p)"
| "object_view v m (ClusterLoadAssignmentList_object p) =
     ptr_value Resource_list_value (ptr_view k_CLAList (List_view v k_CLA (Resource_view v)) m p)"
| "object_view v m (EnvoyProxy_object p) = ptr_value EnvoyProxy_value (ptr_view k_EnvoyProxy (EnvoyProxy_view v) m p)"
| "object_view v m (EnvoyProxyList_object p) =
     ptr_value EnvoyProxy_list_value (ptr_view k_EnvoyProxyList (List_view v k_EnvoyProxy (EnvoyProxy_view v)) m p)"

fun object_foot :: "('x, 'v) meaning \<Rightarrow> 'x cell mem \<Rightarrow> runtime_object \<Rightarrow> addr set" where
  "object_foot v m NilObject = {}"
| "object_foot v m (Listener_object p) = ptr_foot k_Listener (Resource_foot v) m p"
| "object_foot v m (ListenerList_object p) = ptr_foot k_ListenerList (List_foot v k_Listener (Resource_foot v)) m p"
| "object_foot v m (Cluster_object p) = ptr_foot k_Cluster (Cluster_foot v) m p"
| "object_foot v m (ClusterList_object p) = ptr_foot k_ClusterList (List_foot v k_Cluster (Cluster_foot v)) m p"
| "object_foot v m (RouteConfiguration_object p) = ptr_foot k_Route (Resource_foot v) m p"
| "object_foot v m (RouteConfigurationList_object p) = ptr_foot k_RouteList (List_foot v k_Route (Resource_foot v)) m p"
| "object_foot v m (ScopedRouteConfiguration_object p) = ptr_foot k_ScopedRoute (Resource_foot v) m p"
| "object_foot v m (ScopedRouteConfigurationList_object p) = ptr_foot k_ScopedRouteList (List_foot v k_ScopedRoute (Resource_foot v)) m p"
| "object_foot v m (ClusterLoadAssignment_object p) = ptr_foot k_CLA (Resource_foot v) m p"
| "object_foot v m (ClusterLoadAssignmentList_object p) = ptr_foot k_CLAList (List_foot v k_CLA (Resource_foot v)) m p"
| "object_foot v m (EnvoyProxy_object p) = ptr_foot k_EnvoyProxy (EnvoyProxy_foot v) m p"
| "object_foot v m (EnvoyProxyList_object p) = ptr_foot k_EnvoyProxyList (List_foot v k_EnvoyProxy (EnvoyProxy_foot v)) m p"

fun object_kind :: "runtime_object \<Rightarrow> string" where
  "object_kind NilObject = []"
| "object_kind (Listener_object p) = ''Listener''"
| "object_kind (ListenerList_object p) = ''ListenerList''"
| "object_kind (Cluster_object p) = ''Cluster''"
| "object_kind (ClusterList_object p) = ''ClusterList''"
| "object_kind (RouteConfiguration_object p) = ''RouteConfiguration''"
| "object_kind (RouteConfigurationList_object p) = ''RouteConfigurationList''"
| "object_kind (ScopedRouteConfiguration_object p) = ''ScopedRouteConfiguration''"
| "object_kind (ScopedRouteConfigurationList_object p) = ''ScopedRouteConfigurationList''"
| "object_kind (ClusterLoadAssignment_object p) = ''ClusterLoadAssignment''"
| "object_kind (ClusterLoadAssignmentList_object p) = ''ClusterLoadAssignmentList''"
| "object_kind (EnvoyProxy_object p) = ''EnvoyProxy''"
| "object_kind (EnvoyProxyList_object p) = ''EnvoyProxyList''"

text \<open>What a copy of an object is to be, as a statement about the three accesses to objects of one kind.\<close>

definition copied ::
  "('c mem \<Rightarrow> 'p \<Rightarrow> 'w option) \<Rightarrow> ('c mem \<Rightarrow> 'p \<Rightarrow> addr set) \<Rightarrow> 'c mem \<Rightarrow> 'c mem \<Rightarrow> 'p \<Rightarrow> 'p \<Rightarrow> 'w \<Rightarrow> bool" where
  "copied view foot m m' p q w \<longleftrightarrow> grows {} m m' \<and> view m' q = Some w \<and> foot m' q \<inter> allocated m = {} \<and>
     (\<forall>m2. (\<forall>a. a \<notin> foot m' p \<longrightarrow> cells m2 a = cells m' a) \<longrightarrow> view m2 q = Some w) \<and>
     (\<forall>m2. (\<forall>a. a \<notin> foot m' q \<longrightarrow> cells m2 a = cells m' a) \<longrightarrow> view m2 p = Some w)"

lemma copied_cong:
  assumes "copied view foot m m' p q w"
    and "\<And>m. view' m (con p) = ptr_value f (view m p)" and "\<And>m. view' m (con q) = ptr_value f (view m q)"
    and "\<And>m. foot' m (con p) = foot m p" and "\<And>m. foot' m (con q) = foot m q" and "w = Some u"
  shows "copied view' foot' m m' (con p) (con q) (f u)"
  using assms by (simp add: copied_def ptr_value_def)

lemma object_copy:
  assumes c: "deep_copier view foot k into" and wf: "mem_wf m" and val: "ptr_value f (ptr_view k view m p) = Some w"
    and "\<And>m p. view' m (con p) = ptr_value f (ptr_view k view m p)" and "\<And>m p. foot' m (con p) = ptr_foot k foot m p"
  shows "\<exists>q m'. as_object con (DeepCopy_with k zero into p m) = Some (con q, m') \<and> copied view' foot' m m' (con p) (con q) w"
proof -
  from val obtain u where u: "ptr_view k view m p = Some (Some u)" "w = f u"
    by (auto simp: ptr_value_def split: option.splits)
  obtain q m' where q: "DeepCopy_with k zero into p m = Some (q, m')" "grows {} m m'" "ptr_view k view m' q = Some (Some u)"
      "ptr_foot k foot m' q \<inter> allocated m = {}"
    using deep_copier.DeepCopy_ptr [OF c wf u(1)] by blast
  have "q \<noteq> None" using q(3) by (cases q) (auto simp: ptr_view_def)
  then have "as_object con (DeepCopy_with k zero into p m) = Some (con q, m')" by (simp add: as_object_def q(1))
  moreover have "copied (ptr_view k view) (ptr_foot k foot) m m' p q (Some u)"
    using q(2-4) deep_copier.DeepCopy_independent [OF c wf u(1) q(1)] by (simp add: copied_def)
  then have "copied view' foot' m m' (con p) (con q) (f u)" by (rule copied_cong) (simp_all add: assms(4,5))
  ultimately show ?thesis using u(2) by blast
qed

lemma object_copiers:
  assumes "machinery_ok x v"
  shows "deep_copier (Resource_view v) (Resource_foot v) k_Listener (Listener_DeepCopyInto x)"
    and "deep_copier (Cluster_view v) (Cluster_foot v) k_Cluster (Cluster_DeepCopyInto x)"
    and "deep_copier (Resource_view v) (Resource_foot v) k_Route (RouteConfiguration_DeepCopyInto x)"
    and "deep_copier (Resource_view v) (Resource_foot v) k_ScopedRoute (ScopedRouteConfiguration_DeepCopyInto x)"
    and "deep_copier (Resource_view v) (Resource_foot v) k_CLA (ClusterLoadAssignment_DeepCopyInto x)"
    and "deep_copier (EnvoyProxy_view v) (EnvoyProxy_foot v) k_EnvoyProxy (EnvoyProxy_DeepCopyInto x)"
    and "deep_copier (List_view v k_Listener (Resource_view v)) (List_foot v k_Listener (Resource_foot v)) k_ListenerList (ListenerList_DeepCopyInto x)"
    and "deep_copier (List_view v k_Cluster (Cluster_view v)) (List_foot v k_Cluster (Cluster_foot v)) k_ClusterList (ClusterList_DeepCopyInto x)"
    and "deep_copier (List_view v k_Route (Resource_view v)) (List_foot v k_Route (Resource_foot v)) k_RouteList (RouteConfigurationList_DeepCopyInto x)"
    and "deep_copier (List_view v k_ScopedRoute (Resource_view v)) (List_foot v k_ScopedRoute (Resource_foot v)) k_ScopedRouteList (ScopedRouteConfigurationList_DeepCopyInto x)"
    and "deep_copier (List_view v k_CLA (Resource_view v)) (List_foot v k_CLA (Resource_foot v)) k_CLAList (ClusterLoadAssignmentList_DeepCopyInto x)"
    and "deep_copier (List_view v k_EnvoyProxy (EnvoyProxy_view v)) (List_foot v k_EnvoyProxy (EnvoyProxy_foot v)) k_EnvoyProxyList (EnvoyProxyList_DeepCopyInto x)"
proof -
  show Listener: "deep_copier (Resource_view v) (Resource_foot v) k_Listener (Listener_DeepCopyInto x)"
    unfolding Listener_DeepCopyInto_def by (rule Resource_copier [OF assms kinds_ok(7)])
  show Cluster: "deep_copier (Cluster_view v) (Cluster_foot v) k_Cluster (Cluster_DeepCopyInto x)"
    by (rule Cluster_copier [OF assms])
  show Route: "deep_copier (Resource_view v) (Resource_foot v) k_Route (RouteConfiguration_DeepCopyInto x)"
    unfolding RouteConfiguration_DeepCopyInto_def by (rule Resource_copier [OF assms kinds_ok(9)])
  show ScopedRoute: "deep_copier (Resource_view v) (Resource_foot v) k_ScopedRoute (ScopedRouteConfiguration_DeepCopyInto x)"
    unfolding ScopedRouteConfiguration_DeepCopyInto_def by (rule Resource_copier [OF assms kinds_ok(10)])
  show CLA: "deep_copier (Resource_view v) (Resource_foot v) k_CLA (ClusterLoadAssignment_DeepCopyInto x)"
    unfolding ClusterLoadAssignment_DeepCopyInto_def by (rule Resource_copier [OF assms kinds_ok(11)])
  show EnvoyProxy: "deep_copier (EnvoyProxy_view v) (EnvoyProxy_foot v) k_EnvoyProxy (EnvoyProxy_DeepCopyInto x)"
    by (rule EnvoyProxy_copier [OF assms])
  show "deep_copier (List_view v k_Listener (Resource_view v)) (List_foot v k_Listener (Resource_foot v)) k_ListenerList (ListenerList_DeepCopyInto x)"
    unfolding ListenerList_DeepCopyInto_def by (intro List_copier assms Listener) simp
  show "deep_copier (List_view v k_Cluster (Cluster_view v)) (List_foot v k_Cluster (Cluster_foot v)) k_ClusterList (ClusterList_DeepCopyInto x)"
    unfolding ClusterList_DeepCopyInto_def by (intro List_copier assms Cluster) simp
  show "deep_copier (List_view v k_Route (Resource_view v)) (List_foot v k_Route (Resource_foot v)) k_RouteList (RouteConfigurationList_DeepCopyInto x)"
    unfolding RouteConfigurationList_DeepCopyInto_def by (intro List_copier assms Route) simp
  show "deep_copier (List_view v k_ScopedRoute (Resource_view v)) (List_foot v k_ScopedRoute (Resource_foot v)) k_ScopedRouteList (ScopedRouteConfigurationList_DeepCopyInto x)"
    unfolding ScopedRouteConfigurationList_DeepCopyInto_def by (intro List_copier assms ScopedRoute) simp
  show "deep_copier (List_view v k_CLA (Resource_view v)) (List_foot v k_CLA (Resource_foot v)) k_CLAList (ClusterLoadAssignmentList_DeepCopyInto x)"
    unfolding ClusterLoadAssignmentList_DeepCopyInto_def by (intro List_copier assms CLA) simp
  show "deep_copier (List_view v k_EnvoyProxy (EnvoyProxy_view v)) (List_foot v k_EnvoyProxy (EnvoyProxy_foot v)) k_EnvoyProxyList (EnvoyProxyList_DeepCopyInto x)"
    unfolding EnvoyProxyList_DeepCopyInto_def by (intro List_copier assms EnvoyProxy) simp
qed

lemmas copy_defs =
  Listener_DeepCopyObject_def ListenerList_DeepCopyObject_def Listener_DeepCopy_def ListenerList_DeepCopy_def
  Cluster_DeepCopyObject_def ClusterList_DeepCopyObject_def Cluster_DeepCopy_def ClusterList_DeepCopy_def
  RouteConfiguration_DeepCopyObject_def RouteConfigurationList_DeepCopyObject_def RouteConfiguration_DeepCopy_def RouteConfigurationList_DeepCopy_def
  ScopedRouteConfiguration_DeepCopyObject_def ScopedRouteConfigurationList_DeepCopyObject_def ScopedRouteConfiguration_DeepCopy_def ScopedRouteConfigurationList_DeepCopy_def
  ClusterLoadAssignment_DeepCopyObject_def ClusterLoadAssignmentList_DeepCopyObject_def ClusterLoadAssignment_DeepCopy_def ClusterLoadAssignmentList_DeepCopy_def
  EnvoyProxy_DeepCopyObject_def EnvoyProxyList_DeepCopyObject_def EnvoyProxy_DeepCopy_def EnvoyProxyList_DeepCopy_def

section \<open>Properties\<close>

text \<open>
  C28. \<open>DeepCopyObject\<close> of every registered kind: the copy of an object that can be read is an object of the same
  kind and the same meaning, made of new memory only; nothing that was allocated before is changed; and
  afterwards any write into the memory of the original, down to the port of a service
  reference of a cluster in a list, leaves the copy as it is, and the other way round.
\<close>

theorem DeepCopyObject_deep:
  assumes "machinery_ok x v" and "mem_wf m" and "object_view v m obj = Some w"
  shows "\<exists>obj' m'. DeepCopyObject x obj m = Some (obj', m') \<and> object_kind obj' = object_kind obj \<and>
    copied (object_view v) (object_foot v) m m' obj obj' w"
proof (cases obj)
  case (Listener_object p)
  with object_copy [OF object_copiers(1) [OF assms(1)] assms(2), where con = Listener_object and view' = "object_view v" and foot' = "object_foot v"]
  show ?thesis using assms(3) by (fastforce simp: copy_defs)
next
  case (ListenerList_object p)
  with object_copy [OF object_copiers(7) [OF assms(1)] assms(2), where con = ListenerList_object and view' = "object_view v" and foot' = "object_foot v"]
  show ?thesis using assms(3) by (fastforce simp: copy_defs)
next
  case (Cluster_object p)
  with object_copy [OF object_copiers(2) [OF assms(1)] assms(2), where con = Cluster_object and view' = "object_view v" and foot' = "object_foot v"]
  show ?thesis using assms(3) by (fastforce simp: copy_defs)
next
  case (ClusterList_object p)
  with object_copy [OF object_copiers(8) [OF assms(1)] assms(2), where con = ClusterList_object and view' = "object_view v" and foot' = "object_foot v"]
  show ?thesis using assms(3) by (fastforce simp: copy_defs)
next
  case (RouteConfiguration_object p)
  with object_copy [OF object_copiers(3) [OF assms(1)] assms(2), where con = RouteConfiguration_object and view' = "object_view v" and foot' = "object_foot v"]
  show ?thesis using assms(3) by (fastforce simp: copy_defs)
next
  case (RouteConfigurationList_object p)
  with object_copy [OF object_copiers(9) [OF assms(1)] assms(2), where con = RouteConfigurationList_object and view' = "object_view v" and foot' = "object_foot v"]
  show ?thesis using assms(3) by (fastforce simp: copy_defs)
next
  case (ScopedRouteConfiguration_object p)
  with object_copy [OF object_copiers(4) [OF assms(1)] assms(2), where con = ScopedRouteConfiguration_object and view' = "object_view v" and foot' = "object_foot v"]
  show ?thesis using assms(3) by (fastforce simp: copy_defs)
next
  case (ScopedRouteConfigurationList_object p)
  with object_copy [OF object_copiers(10) [OF assms(1)] assms(2), where con = ScopedRouteConfigurationList_object and view' = "object_view v" and foot' = "object_foot v"]
  show ?thesis using assms(3) by (fastforce simp: copy_defs)
next
  case (ClusterLoadAssignment_object p)
  with object_copy [OF object_copiers(5) [OF assms(1)] assms(2), where con = ClusterLoadAssignment_object and view' = "object_view v" and foot' = "object_foot v"]
  show ?thesis using assms(3) by (fastforce simp: copy_defs)
next
  case (ClusterLoadAssignmentList_object p)
  with object_copy [OF object_copiers(11) [OF assms(1)] assms(2), where con = ClusterLoadAssignmentList_object and view' = "object_view v" and foot' = "object_foot v"]
  show ?thesis using assms(3) by (fastforce simp: copy_defs)
next
  case (EnvoyProxy_object p)
  with object_copy [OF object_copiers(6) [OF assms(1)] assms(2), where con = EnvoyProxy_object and view' = "object_view v" and foot' = "object_foot v"]
  show ?thesis using assms(3) by (fastforce simp: copy_defs)
next
  case (EnvoyProxyList_object p)
  with object_copy [OF object_copiers(12) [OF assms(1)] assms(2), where con = EnvoyProxyList_object and view' = "object_view v" and foot' = "object_foot v"]
  show ?thesis using assms(3) by (fastforce simp: copy_defs)
qed (use assms(3) in simp)

text \<open>
  A library whose values are addresses of library memory, and a list of one cluster with a
  service reference and a port.
\<close>

definition k_Library :: "(nat cell, nat) kind" where
  "k_Library = \<lparr>wrap = CLibrary, unwrap = (\<lambda>c. case c of CLibrary v \<Rightarrow> Some v | _ \<Rightarrow> None)\<rparr>"

definition example_copy :: "nat cell mem \<Rightarrow> nat \<Rightarrow> nat \<times> nat cell mem" where
  "example_copy m a = (case load k_Library m a of None \<Rightarrow> (a, m) | Some c \<Rightarrow> new k_Library c m)"

definition example_machinery :: "nat machinery" where
  "example_machinery = \<lparr>zero_ObjectMeta = 0, zero_ListMeta = 0, zero_Condition = 0, zero_RawExtension = 0,
     ObjectMeta_DeepCopyInto = example_copy, ListMeta_DeepCopyInto = example_copy, Condition_copy = example_copy,
     RawExtension_DeepCopyInto = example_copy\<rparr>"

definition example_meaning :: "(nat, nat) meaning" where
  "example_meaning = \<lparr>view_ObjectMeta = load k_Library, foot_ObjectMeta = (\<lambda>m a. {a}),
     view_ListMeta = load k_Library, foot_ListMeta = (\<lambda>m a. {a}),
     view_Condition = load k_Library, foot_Condition = (\<lambda>m a. {a}),
     view_RawExtension = load k_Library, foot_RawExtension = (\<lambda>m a. {a})\<rparr>"

lemma example_library: "value_copier (load k_Library) (\<lambda>m a. {a}) example_copy"
proof
  have k: "kind_ok k_Library" by (simp add: kind_ok_def k_Library_def)
  fix m f w
  assume wf: "mem_wf m" and f: "load k_Library m f = Some w"
  obtain m' where "new k_Library w m = (lim m, m')" "load k_Library m' (lim m) = Some w" "grows {} m m'" "lim m \<notin> allocated m"
    using new_spec [OF k wf] by blast
  with f show "\<exists>f' m'. example_copy m f = (f', m') \<and> grows {} m m' \<and> load k_Library m' f' = Some w \<and> {f'} \<inter> allocated m = {}"
    by (simp add: example_copy_def)
qed (simp add: load_def, auto dest: load_dom)

lemma example_machinery_ok: "machinery_ok example_machinery example_meaning"
  by (simp add: machinery_ok_def example_machinery_def example_meaning_def example_library)

definition example_heap :: "nat cell mem" where
  "example_heap = \<lparr>cells = [0 \<mapsto> CInt32 8080,
     1 \<mapsto> CServiceRef \<lparr>sref_Name = ''svc'', sref_Namespace = [], sref_Port = Some 0\<rparr>,
     2 \<mapsto> CLibrary 77, 3 \<mapsto> CLibrary 88,
     4 \<mapsto> CCluster \<lparr>cl_TypeMeta = zero_TypeMeta, cl_ObjectMeta = 2, cl_TargetRef = zero_TargetRef,
            cl_KubernetesServiceRef = Some 1, cl_Spec = 3\<rparr>,
     5 \<mapsto> CLibrary 99,
     6 \<mapsto> CClusterList \<lparr>li_TypeMeta = zero_TypeMeta, li_ListMeta = 5, li_Items = Some (4, 1)\<rparr>],
     lim = 7\<rparr>"

definition example_list_value :: "nat object_value" where
  "example_list_value = Cluster_list_value
     (zero_TypeMeta, 99, Some [(zero_TypeMeta, 77, zero_TargetRef, Some ((''svc'', []), Some 8080), 88)])"

lemma example_heap_wf: "mem_wf example_heap"
  by (auto simp: mem_wf_def allocated_def example_heap_def split: if_splits)

lemmas view_defs = struct_view_def pair_view_def pair_get_def plain_view_def ptr_view_def slice_view_def load_def kind_defs
  k_Library_def List_view_def List_fields_def Cluster_view_def Cluster_fields_def ServiceRef_view_def ServiceRef_fields_def

lemma example_heap_view:
  "object_view example_meaning example_heap (ClusterList_object (Some 6)) = Some example_list_value"
  by (simp add: example_meaning_def example_heap_def example_list_value_def ptr_value_def view_defs)

text \<open>After the copy the port of the original is overwritten; the copy still has the old one.\<close>

theorem DeepCopyObject_deep_witness:
  "\<exists>obj' m'. DeepCopyObject example_machinery (ClusterList_object (Some 6)) example_heap = Some (obj', m') \<and>
     object_view example_meaning (m'\<lparr>cells := (cells m')(0 \<mapsto> CInt32 1)\<rparr>) obj' = Some example_list_value"
proof -
  obtain obj' m' where c: "DeepCopyObject example_machinery (ClusterList_object (Some 6)) example_heap = Some (obj', m')"
      "copied (object_view example_meaning) (object_foot example_meaning) example_heap m' (ClusterList_object (Some 6)) obj' example_list_value"
    using DeepCopyObject_deep [OF example_machinery_ok example_heap_wf example_heap_view] by blast
  have "cells m' a = cells example_heap a" if "a < 7" for a
    using c(2) that example_heap_wf by (simp add: copied_def grows_def mem_wf_def example_heap_def)
  then have "0 \<in> object_foot example_meaning m' (ClusterList_object (Some 6))"
    by (simp add: example_meaning_def struct_foot_def pair_foot_def pair_get_def plain_foot_def ptr_foot_def slice_foot_def
        cell_foot_def load_def kind_defs List_foot_def List_fields_def Cluster_foot_def Cluster_fields_def ServiceRef_foot_def
        ServiceRef_fields_def example_heap_def lessThan_Suc)
  then have "\<forall>a. a \<notin> object_foot example_meaning m' (ClusterList_object (Some 6)) \<longrightarrow>
      cells (m'\<lparr>cells := (cells m')(0 \<mapsto> CInt32 1)\<rparr>) a = cells m' a"
    by auto
  with c(2) have "object_view example_meaning (m'\<lparr>cells := (cells m')(0 \<mapsto> CInt32 1)\<rparr>) obj' = Some example_list_value"
    unfolding copied_def by blast
  with c(1) show ?thesis by blast
qed

text \<open>
  There is nothing to copy behind a nil pointer: every \<open>DeepCopyObject\<close> method returns the nil interface then, which callers can
  compare with nil, and leaves the memory alone; on the nil interface itself the call panics.
\<close>

theorem DeepCopyObject_nil:
  "DeepCopyObject x NilObject m = None \<and>
   (\<forall>obj \<in> {Listener_object None, ListenerList_object None, Cluster_object None, ClusterList_object None,
       RouteConfiguration_object None, RouteConfigurationList_object None, ScopedRouteConfiguration_object None,
       ScopedRouteConfigurationList_object None, ClusterLoadAssignment_object None, ClusterLoadAssignmentList_object None,
       EnvoyProxy_object None, EnvoyProxyList_object None}.
     DeepCopyObject x obj m = Some (NilObject, m))"
  by (simp add: copy_defs DeepCopy_with_def as_object_def)

theorem DeepCopyObject_nil_witness:
  "DeepCopyObject example_machinery (EnvoyProxy_object None) example_heap = Some (NilObject, example_heap)"
  using DeepCopyObject_nil [of example_machinery example_heap] by blast

end
