(* ===== verification/Scheme.thy ===== *)
theory Scheme
  imports Deep_Copy
begin

text \<open>
  The registration of the API types: \<open>control-plane/api/v1alpha1/groupversion_info.go\<close>, the \<open>init\<close> functions of
  the type files, the \<open>init\<close> function of \<open>control-plane/cmd/main.go\<close>, and the types that the
  controller hands to the client and the builder. The scheme and its builder are library
  code: the record \<open>scheme_lib\<close>, with what they promise in \<open>scheme_laws\<close>.
\<close>

section \<open>Registration\<close>

record GroupVersion =
  gv_Group :: string
  gv_Version :: string

definition SchemeGroupVersion :: GroupVersion where
  "SchemeGroupVersion = \<lparr>gv_Group = ''mesh.iglin.io'', gv_Version = ''v1alpha1''\<rparr>"

text \<open>A Go type as the scheme knows it: the package it is from and its name.\<close>

datatype go_type = MeshType string | LibraryType string string

record ('b, 's) scheme_lib =
  NewBuilder :: "GroupVersion \<Rightarrow> 'b"
  Register :: "'b \<Rightarrow> go_type list \<Rightarrow> 'b"
  Builder_AddToScheme :: "'b \<Rightarrow> 's \<Rightarrow> go_error option \<times> 's"
  NewScheme :: 's
  clientgo_AddToScheme :: "'s \<Rightarrow> go_error option \<times> 's"

text \<open>The \<open>init\<close> functions of the package, one per file, in the order of the file names.\<close>

definition init_Cluster :: "('b, 's) scheme_lib \<Rightarrow> 'b \<Rightarrow> 'b" where
  "init_Cluster l b = Register l b [MeshType ''Cluster'', MeshType ''ClusterList'']"

definition init_ClusterLoadAssignment :: "('b, 's) scheme_lib \<Rightarrow> 'b \<Rightarrow> 'b" where
  "init_ClusterLoadAssignment l b = Register l b [MeshType ''ClusterLoadAssignment'', MeshType ''ClusterLoadAssignmentList'']"

definition init_EnvoyProxy :: "('b, 's) scheme_lib \<Rightarrow> 'b \<Rightarrow> 'b" where
  "init_EnvoyProxy l b = Register l b [MeshType ''EnvoyProxy'', MeshType ''EnvoyProxyList'']"

definition init_Listener :: "('b, 's) scheme_lib \<Rightarrow> 'b \<Rightarrow> 'b" where
  "init_Listener l b = Register l b [MeshType ''Listener'', MeshType ''ListenerList'']"

definition init_RouteConfiguration :: "('b, 's) scheme_lib \<Rightarrow> 'b \<Rightarrow> 'b" where
  "init_RouteConfiguration l b = Register l b [MeshType ''RouteConfiguration'', MeshType ''RouteConfigurationList'']"

definition init_ScopedRouteConfiguration :: "('b, 's) scheme_lib \<Rightarrow> 'b \<Rightarrow> 'b" where
  "init_ScopedRouteConfiguration l b =
     Register l b [MeshType ''ScopedRouteConfiguration'', MeshType ''ScopedRouteConfigurationList'']"

text \<open>\<open>SchemeBuilder\<close> after the package is initialised, and \<open>AddToScheme\<close>.\<close>

definition SchemeBuilder :: "('b, 's) scheme_lib \<Rightarrow> 'b" where
  "SchemeBuilder l =
     init_ScopedRouteConfiguration l (init_RouteConfiguration l (init_Listener l (init_EnvoyProxy l
       (init_ClusterLoadAssignment l (init_Cluster l (NewBuilder l SchemeGroupVersion))))))"

definition AddToScheme :: "('b, 's) scheme_lib \<Rightarrow> 's \<Rightarrow> go_error option \<times> 's" where
  "AddToScheme l s = Builder_AddToScheme l (SchemeBuilder l) s"

text \<open>\<open>init\<close> of the program: \<open>utilruntime.Must\<close> panics on an error, which is \<open>None\<close>.\<close>

definition main_init :: "('b, 's) scheme_lib \<Rightarrow> 's option" where
  "main_init l = (case clientgo_AddToScheme l (NewScheme l) of
     (Some err, s) \<Rightarrow> None
   | (None, s) \<Rightarrow>
      (case AddToScheme l s of
         (Some err, s') \<Rightarrow> None
       | (None, s') \<Rightarrow> Some s'))"

section \<open>What is used\<close>

text \<open>The types of \<open>For\<close> and \<open>Watches\<close> in \<open>SetupWithManager\<close>, and of \<open>Get\<close>, \<open>List\<close> and \<open>Status().Update\<close> in the reconciler.\<close>

definition watched_types :: "go_type list" where
  "watched_types = [MeshType ''EnvoyProxy'', MeshType ''Listener'', MeshType ''Cluster'', MeshType ''RouteConfiguration'',
     MeshType ''ScopedRouteConfiguration'', MeshType ''ClusterLoadAssignment'', LibraryType ''discovery.k8s.io'' ''EndpointSlice'']"

definition read_types :: "go_type list" where
  "read_types = [MeshType ''EnvoyProxy'', MeshType ''ListenerList'', MeshType ''ClusterList'', MeshType ''RouteConfigurationList'',
     MeshType ''ScopedRouteConfigurationList'', MeshType ''ClusterLoadAssignmentList'', LibraryType ''discovery.k8s.io'' ''EndpointSliceList'']"

definition discovery_v1 :: GroupVersion where
  "discovery_v1 = \<lparr>gv_Group = ''discovery.k8s.io'', gv_Version = ''v1''\<rparr>"

text \<open>
  A scheme knows types, each in a group and version. The builder adds what was registered with
  it under its own group and version, without an error; the library adds its own types. Both
  keep what the scheme knows already.
\<close>

definition scheme_laws :: "('b, 's) scheme_lib \<Rightarrow> ('s \<Rightarrow> (GroupVersion \<times> go_type) set) \<Rightarrow> bool" where
  "scheme_laws l known \<longleftrightarrow>
     known (NewScheme l) = {} \<and>
     (\<forall>s. fst (clientgo_AddToScheme l s) = None \<and> known s \<subseteq> known (snd (clientgo_AddToScheme l s)) \<and>
        (discovery_v1, LibraryType ''discovery.k8s.io'' ''EndpointSlice'') \<in> known (snd (clientgo_AddToScheme l s)) \<and>
        (discovery_v1, LibraryType ''discovery.k8s.io'' ''EndpointSliceList'') \<in> known (snd (clientgo_AddToScheme l s)) \<and>
        (\<forall>gv t. (gv, MeshType t) \<in> known (snd (clientgo_AddToScheme l s)) \<longrightarrow> (gv, MeshType t) \<in> known s)) \<and>
     (\<forall>gv regs s. let r = Builder_AddToScheme l (foldl (Register l) (NewBuilder l gv) regs) s in
        fst r = None \<and> known (snd r) = known s \<union> {gv} \<times> set (concat regs))"

lemma SchemeBuilder_fold:
  "SchemeBuilder l = foldl (Register l) (NewBuilder l SchemeGroupVersion)
     [[MeshType ''Cluster'', MeshType ''ClusterList''],
      [MeshType ''ClusterLoadAssignment'', MeshType ''ClusterLoadAssignmentList''],
      [MeshType ''EnvoyProxy'', MeshType ''EnvoyProxyList''],
      [MeshType ''Listener'', MeshType ''ListenerList''],
      [MeshType ''RouteConfiguration'', MeshType ''RouteConfigurationList''],
      [MeshType ''ScopedRouteConfiguration'', MeshType ''ScopedRouteConfigurationList'']]"
  by (simp add: SchemeBuilder_def init_Cluster_def init_ClusterLoadAssignment_def init_EnvoyProxy_def init_Listener_def
      init_RouteConfiguration_def init_ScopedRouteConfiguration_def)

lemma AddToScheme_known:
  assumes "scheme_laws l known"
  shows "fst (AddToScheme l s) = None"
    and "known (snd (AddToScheme l s)) = known s \<union> {SchemeGroupVersion} \<times> MeshType `
      {''Cluster'', ''ClusterList'', ''ClusterLoadAssignment'', ''ClusterLoadAssignmentList'', ''EnvoyProxy'', ''EnvoyProxyList'',
       ''Listener'', ''ListenerList'', ''RouteConfiguration'', ''RouteConfigurationList'', ''ScopedRouteConfiguration'',
       ''ScopedRouteConfigurationList''}"
  using assms unfolding AddToScheme_def SchemeBuilder_fold scheme_laws_def Let_def
  by (simp_all only: concat.simps append.simps list.set image_insert image_empty append_Nil2)

lemma main_init_Some:
  assumes "scheme_laws l known"
  shows "main_init l = Some (snd (AddToScheme l (snd (clientgo_AddToScheme l (NewScheme l)))))"
proof -
  have "fst (clientgo_AddToScheme l (NewScheme l)) = None" using assms by (simp add: scheme_laws_def)
  then show ?thesis using AddToScheme_known(1) [OF assms] by (simp add: main_init_def split_def)
qed

text \<open>The mesh types that the scheme of the program knows, and no others.\<close>

lemma main_init_mesh_types:
  assumes "scheme_laws l known" and "main_init l = Some s"
  shows "(gv, MeshType t) \<in> known s \<longleftrightarrow> gv = SchemeGroupVersion \<and> t \<in>
    {''Cluster'', ''ClusterList'', ''ClusterLoadAssignment'', ''ClusterLoadAssignmentList'', ''EnvoyProxy'', ''EnvoyProxyList'',
     ''Listener'', ''ListenerList'', ''RouteConfiguration'', ''RouteConfigurationList'', ''ScopedRouteConfiguration'',
     ''ScopedRouteConfigurationList''}" (is "_ \<longleftrightarrow> _ \<and> t \<in> ?T")
proof -
  define s0 where "s0 = snd (clientgo_AddToScheme l (NewScheme l))"
  have "(gv, MeshType t) \<notin> known s0" using assms(1) unfolding scheme_laws_def s0_def by auto
  moreover have "known s = known s0 \<union> {SchemeGroupVersion} \<times> MeshType ` ?T"
    using main_init_Some [OF assms(1)] assms(2) AddToScheme_known(2) [OF assms(1), of s0] unfolding s0_def
    by (simp only: option.inject)
  ultimately show ?thesis by auto
qed

text \<open>The kinds of objects that can be copied through the interface \<open>runtime.Object\<close>.\<close>

lemma object_kinds:
  "{object_kind o1 |o1. o1 \<noteq> NilObject} =
     {''Cluster'', ''ClusterList'', ''ClusterLoadAssignment'', ''ClusterLoadAssignmentList'', ''EnvoyProxy'', ''EnvoyProxyList'',
      ''Listener'', ''ListenerList'', ''RouteConfiguration'', ''RouteConfigurationList'', ''ScopedRouteConfiguration'',
      ''ScopedRouteConfigurationList''}" (is "?L = ?R")
proof
  show "?L \<subseteq> ?R"
  proof
    fix n assume "n \<in> ?L"
    then obtain o1 where "n = object_kind o1" "o1 \<noteq> NilObject" by blast
    then show "n \<in> ?R" by (cases o1) simp_all
  qed
  define S where "S = {Cluster_object None, ClusterList_object None, ClusterLoadAssignment_object None,
      ClusterLoadAssignmentList_object None, EnvoyProxy_object None, EnvoyProxyList_object None, Listener_object None,
      ListenerList_object None, RouteConfiguration_object None, RouteConfigurationList_object None,
      ScopedRouteConfiguration_object None, ScopedRouteConfigurationList_object None}"
  have "?R = object_kind ` S" unfolding S_def by (simp only: image_insert image_empty object_kind.simps)
  moreover have "NilObject \<notin> S" by (simp add: S_def)
  then have "object_kind ` S \<subseteq> ?L" by blast
  ultimately show "?R \<subseteq> ?L" by (simp only:)
qed

section \<open>Properties\<close>

text \<open>
  C29. The scheme the manager is given is complete: the program does not panic at its start, every type that the controller
  watches, gets, lists or updates is known, the mesh types in the group and version of the
  manifests, and the mesh types it knows are exactly those with a \<open>DeepCopyObject\<close> method.
\<close>

theorem main_init_complete:
  assumes "scheme_laws l known"
  shows "\<exists>s. main_init l = Some s \<and>
    (\<forall>t. MeshType t \<in> set watched_types \<union> set read_types \<longrightarrow> (SchemeGroupVersion, MeshType t) \<in> known s) \<and>
    (\<forall>p t. LibraryType p t \<in> set watched_types \<union> set read_types \<longrightarrow> (\<exists>gv. gv_Group gv = p \<and> (gv, LibraryType p t) \<in> known s)) \<and>
    (\<forall>gv t. (gv, MeshType t) \<in> known s \<longleftrightarrow> gv = SchemeGroupVersion \<and> (\<exists>o1. o1 \<noteq> NilObject \<and> object_kind o1 = t))"
proof -
  define s0 where "s0 = snd (clientgo_AddToScheme l (NewScheme l))"
  let ?s = "snd (AddToScheme l s0)"
  have lib: "(discovery_v1, LibraryType ''discovery.k8s.io'' n) \<in> known s0"
      if "n = ''EndpointSlice'' \<or> n = ''EndpointSliceList''" for n
    using assms that unfolding scheme_laws_def s0_def by auto
  note known = AddToScheme_known(2) [OF assms, of s0, folded object_kinds]
  have kinds: "(gv, MeshType t) \<in> known ?s \<longleftrightarrow> gv = SchemeGroupVersion \<and> (\<exists>o1. o1 \<noteq> NilObject \<and> object_kind o1 = t)" for gv t
    using main_init_mesh_types [OF assms main_init_Some [OF assms], of gv t] unfolding s0_def object_kinds [symmetric] by blast
  have mesh: "(SchemeGroupVersion, MeshType t) \<in> known ?s" if "MeshType t \<in> set watched_types \<union> set read_types" for t
  proof -
    from that have "t \<in> {object_kind o1 |o1. o1 \<noteq> NilObject}"
      unfolding object_kinds watched_types_def read_types_def by auto
    then show ?thesis unfolding known by blast
  qed
  have "\<exists>gv. gv_Group gv = p \<and> (gv, LibraryType p t) \<in> known ?s" if "LibraryType p t \<in> set watched_types \<union> set read_types" for p t
  proof -
    from that have "p = ''discovery.k8s.io''" "t = ''EndpointSlice'' \<or> t = ''EndpointSliceList''"
      by (auto simp: watched_types_def read_types_def)
    with lib [of t] show ?thesis unfolding known by (intro exI [of _ discovery_v1]) (simp add: discovery_v1_def)
  qed
  with main_init_Some [OF assms] kinds mesh show ?thesis unfolding s0_def by blast
qed

text \<open>A scheme that is the set of what it knows, and a builder that is the list of what was registered.\<close>

definition example_scheme_lib :: "(GroupVersion \<times> go_type list list, (GroupVersion \<times> go_type) set) scheme_lib" where
  "example_scheme_lib = \<lparr>NewBuilder = (\<lambda>gv. (gv, [])), Register = (\<lambda>(gv, regs) ts. (gv, regs @ [ts])),
     Builder_AddToScheme = (\<lambda>(gv, regs) s. (None, s \<union> {gv} \<times> set (concat regs))), NewScheme = {},
     clientgo_AddToScheme = (\<lambda>s. (None, s \<union> {discovery_v1} \<times>
       {LibraryType ''discovery.k8s.io'' ''EndpointSlice'', LibraryType ''discovery.k8s.io'' ''EndpointSliceList''}))\<rparr>"

lemma example_scheme_laws: "scheme_laws example_scheme_lib (\<lambda>s. s)"
proof -
  have "foldl (Register example_scheme_lib) (gv, rs) regs = (gv, rs @ regs)" for gv rs regs
    by (induction regs arbitrary: rs) (simp_all add: example_scheme_lib_def)
  from this [of _ "[]"] show ?thesis
    by (auto simp: scheme_laws_def example_scheme_lib_def)
qed

theorem main_init_complete_witness:
  "\<exists>s. main_init example_scheme_lib = Some s \<and> (SchemeGroupVersion, MeshType ''ClusterList'') \<in> s"
proof -
  obtain s where s: "main_init example_scheme_lib = Some s"
      "\<forall>t. MeshType t \<in> set watched_types \<union> set read_types \<longrightarrow> (SchemeGroupVersion, MeshType t) \<in> s"
    using main_init_complete [OF example_scheme_laws] by blast
  moreover have "MeshType ''ClusterList'' \<in> set watched_types \<union> set read_types" by (simp add: read_types_def)
  ultimately show ?thesis by blast
qed

end
