(* ===== verification/Control_Main.thy ===== *)
theory Control_Main
  imports Scheme Reconciler
begin

text \<open>
  \<open>control-plane/cmd/main.go\<close>: the flags with their defaults, the setup of manager, controller and
  health checks with its exits, and the running process with its two parts, the manager and
  the xDS server; and the registration of the controller with the manager, \<open>SetupWithManager\<close> of
  \<open>internal/controller/envoyproxy_controller.go\<close>. The libraries are the record \<open>main_lib\<close>; what
  the two parts return while the process runs is left open.
\<close>

section \<open>The registration of the controller\<close>

text \<open>
  What the builder is told: the type the controller is for, and for every watched type the handler
  that maps its events to requests. The events of the type itself request the object.
\<close>

datatype event_handler = EnqueueObject | EnqueueXDSResource | EnqueueEndpointSlice

record controller_builder =
  builder_For :: go_type
  builder_Watches :: "(go_type \<times> event_handler) list"
  builder_Name :: string

definition envoyproxy_builder :: controller_builder where
  "envoyproxy_builder =
     (let mapFn = EnqueueXDSResource in
      \<lparr>builder_For = MeshType ''EnvoyProxy'',
       builder_Watches =
         [(MeshType ''Listener'', mapFn), (MeshType ''Cluster'', mapFn), (MeshType ''RouteConfiguration'', mapFn),
          (MeshType ''ScopedRouteConfiguration'', mapFn), (MeshType ''ClusterLoadAssignment'', mapFn),
          (LibraryType ''discovery.k8s.io'' ''EndpointSlice'', EnqueueEndpointSlice)],
       builder_Name = ''envoyproxy''\<rparr>)"

text \<open>The type of an object, the requests of a handler, and those of all handlers for an object's type.\<close>

fun object_type :: "client_object \<Rightarrow> go_type" where
  "object_type (ObjEnvoyProxy e) = MeshType ''EnvoyProxy''"
| "object_type (ObjListener l) = MeshType ''Listener''"
| "object_type (ObjCluster c) = MeshType ''Cluster''"
| "object_type (ObjRouteConfiguration r) = MeshType ''RouteConfiguration''"
| "object_type (ObjScopedRouteConfiguration r) = MeshType ''ScopedRouteConfiguration''"
| "object_type (ObjClusterLoadAssignment c) = MeshType ''ClusterLoadAssignment''"
| "object_type (ObjEndpointSlice sl) = LibraryType ''discovery.k8s.io'' ''EndpointSlice''"

fun handler_requests ::
  "event_handler \<Rightarrow> ('s, 'res, 'snap, 'cache) deps \<Rightarrow> 's \<Rightarrow> client_object \<Rightarrow> NamespacedName list" where
  "handler_requests EnqueueObject d s obj =
     [\<lparr>nn_Name = meta_Name (object_meta obj), nn_Namespace = meta_Namespace (object_meta obj)\<rparr>]"
| "handler_requests EnqueueXDSResource d s obj = mapXDSResourceToProxy obj"
| "handler_requests EnqueueEndpointSlice d s obj = mapEndpointSliceToProxies d s obj"

definition registered_requests ::
  "controller_builder \<Rightarrow> ('s, 'res, 'snap, 'cache) deps \<Rightarrow> 's \<Rightarrow> client_object \<Rightarrow> NamespacedName list" where
  "registered_requests b d s obj =
     concat [handler_requests h d s obj. (t, h) \<leftarrow> (builder_For b, EnqueueObject) # builder_Watches b, t = object_type obj]"

section \<open>Setup\<close>

record flags =
  metricsAddr :: string
  probeAddr :: string
  xdsAddr :: string
  enableLeaderElection :: bool

definition default_flags :: flags where
  "default_flags = \<lparr>metricsAddr = ''0'', probeAddr = '':8081'', xdsAddr = '':18000'', enableLeaderElection = False\<rparr>"

text \<open>\<open>ctrl.Options\<close>: the fields that are set. The address of the metrics endpoint is not among them.\<close>

record 's manager_options =
  opt_Scheme :: 's
  opt_HealthProbeBindAddress :: string
  opt_LeaderElection :: bool
  opt_LeaderElectionID :: string

record ('client, 's, 'cache) EnvoyProxyReconciler =
  rec_Client :: 'client
  rec_Scheme :: 's
  rec_XDSServer :: "'cache Server"

text \<open>
  The libraries. Reading the flags and the configuration of the cluster may end the process
  themselves (\<open>None\<close>).
\<close>

record ('s, 'config, 'mgr, 'client, 'cache) main_lib =
  flag_Parse :: "flags \<Rightarrow> flags option"
  GetConfigOrDie :: "'config option"
  newSnapshotCache :: "bool \<Rightarrow> 'cache"
  NewManager :: "'config \<Rightarrow> 's manager_options \<Rightarrow> 'mgr result"
  GetClient :: "'mgr \<Rightarrow> 'client"
  GetScheme :: "'mgr \<Rightarrow> 's"
  Complete :: "controller_builder \<Rightarrow> ('client, 's, 'cache) EnvoyProxyReconciler \<Rightarrow> 'mgr \<Rightarrow> go_error option \<times> 'mgr"
  AddHealthzCheck :: "string \<Rightarrow> 'mgr \<Rightarrow> go_error option \<times> 'mgr"
  AddReadyzCheck :: "string \<Rightarrow> 'mgr \<Rightarrow> go_error option \<times> 'mgr"

definition SetupWithManager ::
  "('s, 'config, 'mgr, 'client, 'cache) main_lib \<Rightarrow> ('client, 's, 'cache) EnvoyProxyReconciler \<Rightarrow> 'mgr \<Rightarrow> go_error option \<times> 'mgr" where
  "SetupWithManager l r mgr = Complete l envoyproxy_builder r mgr"

text \<open>Setup ends inside a library, with a log line and an exit code, or with what is to run.\<close>

datatype ('mgr, 'cache) setup_result = LibraryExit | SetupExit string go_error nat | SetupDone 'mgr "'cache Server" string

definition setup_options :: "flags \<Rightarrow> 's \<Rightarrow> 's manager_options" where
  "setup_options fl scheme =
     \<lparr>opt_Scheme = scheme, opt_HealthProbeBindAddress = probeAddr fl, opt_LeaderElection = enableLeaderElection fl,
      opt_LeaderElectionID = ''545d2aa8.mesh.iglin.io''\<rparr>"

definition main_setup :: "('s, 'config, 'mgr, 'client, 'cache) main_lib \<Rightarrow> 's \<Rightarrow> ('mgr, 'cache) setup_result" where
  "main_setup l scheme =
     (case flag_Parse l default_flags of
        None \<Rightarrow> LibraryExit
      | Some fl \<Rightarrow>
         (let xdsSrv = NewServer (newSnapshotCache l) in
          case GetConfigOrDie l of
            None \<Rightarrow> LibraryExit
          | Some config \<Rightarrow>
             (case NewManager l config (setup_options fl scheme) of
                Inl err \<Rightarrow> SetupExit ''Failed to create manager'' err 1
              | Inr mgr \<Rightarrow>
                 (case SetupWithManager l \<lparr>rec_Client = GetClient l mgr, rec_Scheme = GetScheme l mgr, rec_XDSServer = xdsSrv\<rparr> mgr of
                    (Some err, mgr1) \<Rightarrow> SetupExit ''Failed to set up EnvoyProxy controller'' err 1
                  | (None, mgr1) \<Rightarrow>
                     (case AddHealthzCheck l ''healthz'' mgr1 of
                        (Some err, mgr2) \<Rightarrow> SetupExit ''Failed to set up health check'' err 1
                      | (None, mgr2) \<Rightarrow>
                         (case AddReadyzCheck l ''readyz'' mgr2 of
                            (Some err, mgr3) \<Rightarrow> SetupExit ''Failed to set up ready check'' err 1
                          | (None, mgr3) \<Rightarrow> SetupDone mgr3 xdsSrv (xdsAddr fl)))))))"

lemmas main_setup_splits = sum.splits prod.splits option.splits

section \<open>Running\<close>

text \<open>
  The process runs with or without the goroutine of the xDS server, or has exited. \<open>Start\<close> of the server
  ends as \<open>listen\<close> and \<open>rdy\<close> allow; \<open>mgr_results\<close> are the results \<open>mgr.Start\<close> may return. When the
  manager returns without an error, \<open>main\<close> returns, whatever the goroutine does.
\<close>

datatype process = Running bool | Exited nat

inductive main_step ::
  "(string \<Rightarrow> go_error option) \<Rightarrow> string \<Rightarrow> start_ready set \<Rightarrow> go_error option set \<Rightarrow> process \<Rightarrow> process \<Rightarrow> bool"
  for listen :: "string \<Rightarrow> go_error option" and addr :: string and rdy :: "start_ready set" and mgr_results :: "go_error option set" where
  xds_fails: "Start listen addr rdy stopped (Some err) \<Longrightarrow> main_step listen addr rdy mgr_results (Running True) (Exited 1)"
| xds_ends: "Start listen addr rdy stopped None \<Longrightarrow> main_step listen addr rdy mgr_results (Running True) (Running False)"
| manager_fails: "Some err \<in> mgr_results \<Longrightarrow> main_step listen addr rdy mgr_results (Running xds) (Exited 1)"
| manager_ends: "None \<in> mgr_results \<Longrightarrow> main_step listen addr rdy mgr_results (Running xds) (Exited 0)"

inductive_cases main_step_from_exit: "main_step listen addr rdy mgr_results (Exited n) p"

lemma main_step_reach:
  assumes "(main_step listen addr rdy mgr_results)\<^sup>*\<^sup>* (Running True) p"
  shows "p = Running True \<or> p = Running False \<and> (\<exists>stopped. Start listen addr rdy stopped None) \<or>
    p = Exited 0 \<and> None \<in> mgr_results \<or>
    p = Exited 1 \<and> ((\<exists>stopped err. Start listen addr rdy stopped (Some err)) \<or> (\<exists>err. Some err \<in> mgr_results))"
  using assms
proof induction
  case (step p q)
  from step.hyps(2) step.IH show ?case by cases blast+
qed simp

section \<open>Properties\<close>

text \<open>
  Which step of setup is the first to fail, and with which message and error: every step before it
  has succeeded and handed its manager over to the next.
\<close>

inductive setup_fails :: "('s, 'config, 'mgr, 'client, 'cache) main_lib \<Rightarrow> 's \<Rightarrow> string \<Rightarrow> go_error \<Rightarrow> bool"
  for l :: "('s, 'config, 'mgr, 'client, 'cache) main_lib" and scheme :: 's where
  no_manager: "flag_Parse l default_flags = Some fl \<Longrightarrow> GetConfigOrDie l = Some config \<Longrightarrow>
    NewManager l config (setup_options fl scheme) = Inl err \<Longrightarrow> setup_fails l scheme ''Failed to create manager'' err"
| no_controller: "flag_Parse l default_flags = Some fl \<Longrightarrow> GetConfigOrDie l = Some config \<Longrightarrow>
    NewManager l config (setup_options fl scheme) = Inr mgr \<Longrightarrow>
    Complete l envoyproxy_builder \<lparr>rec_Client = GetClient l mgr, rec_Scheme = GetScheme l mgr, rec_XDSServer = NewServer (newSnapshotCache l)\<rparr> mgr = (Some err, mgr1) \<Longrightarrow>
    setup_fails l scheme ''Failed to set up EnvoyProxy controller'' err"
| no_health_check: "flag_Parse l default_flags = Some fl \<Longrightarrow> GetConfigOrDie l = Some config \<Longrightarrow>
    NewManager l config (setup_options fl scheme) = Inr mgr \<Longrightarrow>
    Complete l envoyproxy_builder \<lparr>rec_Client = GetClient l mgr, rec_Scheme = GetScheme l mgr, rec_XDSServer = NewServer (newSnapshotCache l)\<rparr> mgr = (None, mgr1) \<Longrightarrow>
    AddHealthzCheck l ''healthz'' mgr1 = (Some err, mgr2) \<Longrightarrow> setup_fails l scheme ''Failed to set up health check'' err"
| no_ready_check: "flag_Parse l default_flags = Some fl \<Longrightarrow> GetConfigOrDie l = Some config \<Longrightarrow>
    NewManager l config (setup_options fl scheme) = Inr mgr \<Longrightarrow>
    Complete l envoyproxy_builder \<lparr>rec_Client = GetClient l mgr, rec_Scheme = GetScheme l mgr, rec_XDSServer = NewServer (newSnapshotCache l)\<rparr> mgr = (None, mgr1) \<Longrightarrow>
    AddHealthzCheck l ''healthz'' mgr1 = (None, mgr2) \<Longrightarrow> AddReadyzCheck l ''readyz'' mgr2 = (Some err, mgr3) \<Longrightarrow>
    setup_fails l scheme ''Failed to set up ready check'' err"

lemmas main_setup_rules = main_setup_def SetupWithManager_def Let_def

lemma main_setup_exit: "main_setup l s = SetupExit msg err n \<longleftrightarrow> n = 1 \<and> setup_fails l s msg err"
proof
  assume "main_setup l s = SetupExit msg err n"
  then show "n = 1 \<and> setup_fails l s msg err"
    unfolding main_setup_rules by (auto split: main_setup_splits intro: setup_fails.intros)
next
  assume "n = 1 \<and> setup_fails l s msg err"
  then show "main_setup l s = SetupExit msg err n"
    unfolding main_setup_rules by (auto elim: setup_fails.cases)
qed

lemma main_setup_done:
  "main_setup l s = SetupDone mgr srv addr \<longleftrightarrow>
     (\<exists>fl config mgr0 mgr1 mgr2. flag_Parse l default_flags = Some fl \<and> GetConfigOrDie l = Some config \<and> addr = xdsAddr fl \<and>
        srv = NewServer (newSnapshotCache l) \<and> NewManager l config (setup_options fl s) = Inr mgr0 \<and>
        Complete l envoyproxy_builder \<lparr>rec_Client = GetClient l mgr0, rec_Scheme = GetScheme l mgr0, rec_XDSServer = srv\<rparr> mgr0 = (None, mgr1) \<and>
        AddHealthzCheck l ''healthz'' mgr1 = (None, mgr2) \<and> AddReadyzCheck l ''readyz'' mgr2 = (None, mgr))"
  unfolding main_setup_rules by (auto split: main_setup_splits)

lemma main_reaches:
  "(main_step listen addr rdy mgr_results)\<^sup>*\<^sup>* (Running True) (Exited 0) \<longleftrightarrow> None \<in> mgr_results"
  "(main_step listen addr rdy mgr_results)\<^sup>*\<^sup>* (Running True) (Exited 1) \<longleftrightarrow>
     listen addr \<noteq> None \<or> (\<exists>err. ServeReturned (Some err) \<in> rdy) \<or> (\<exists>err. Some err \<in> mgr_results)"
  "(main_step listen addr rdy mgr_results)\<^sup>*\<^sup>* (Running True) (Running False) \<longleftrightarrow>
     listen addr = None \<and> (CtxDone \<in> rdy \<or> ServeReturned None \<in> rdy)"
proof -
  let ?R = "main_step listen addr rdy mgr_results"
  note reach = main_step_reach [of listen addr rdy mgr_results]
  show "?R\<^sup>*\<^sup>* (Running True) (Exited 0) \<longleftrightarrow> None \<in> mgr_results"
    using reach [of "Exited 0"] r_into_rtranclp [of ?R, OF manager_ends [of mgr_results listen addr rdy True]] by auto
  have fails: "(\<exists>stopped err. Start listen addr rdy stopped (Some err)) \<longleftrightarrow> listen addr \<noteq> None \<or> (\<exists>err. ServeReturned (Some err) \<in> rdy)"
    by (cases "listen addr") (auto simp: Start_iff)
  have "?R\<^sup>*\<^sup>* (Running True) (Exited 1)" if "Start listen addr rdy stopped (Some err) \<or> Some err \<in> mgr_results" for stopped err
    using that xds_fails manager_fails by (blast intro: r_into_rtranclp)
  with reach [of "Exited 1"] fails show "?R\<^sup>*\<^sup>* (Running True) (Exited 1) \<longleftrightarrow>
      listen addr \<noteq> None \<or> (\<exists>err. ServeReturned (Some err) \<in> rdy) \<or> (\<exists>err. Some err \<in> mgr_results)" by auto
  have ends: "(\<exists>stopped. Start listen addr rdy stopped None) \<longleftrightarrow> listen addr = None \<and> (CtxDone \<in> rdy \<or> ServeReturned None \<in> rdy)"
    by (auto simp: Start_iff)
  have "?R\<^sup>*\<^sup>* (Running True) (Running False)" if "Start listen addr rdy stopped None" for stopped
    using that xds_ends by (blast intro: r_into_rtranclp)
  with reach [of "Running False"] ends
  show "?R\<^sup>*\<^sup>* (Running True) (Running False) \<longleftrightarrow> listen addr = None \<and> (CtxDone \<in> rdy \<or> ServeReturned None \<in> rdy)" by auto
qed

text \<open>
  C30. The exits of the program. Setup ends inside a library exactly if reading the flags or the configuration does. It ends with a log
  line and an exit code exactly if one of its four steps fails: the code is 1, and message and error are those of the
  first step that failed. It hands over to the running process exactly if all steps succeed, with the controller
  registered for its watches and with its server. The running process can end with code 0 exactly if the manager may return
  without an error, and with code 1 exactly if the manager may fail, the address cannot be bound or serving may
  fail; it can stay up without its xDS server exactly if the address is bound and the context may be cancelled or serving may
  end without an error. It ends with no other code.
\<close>

theorem main_exits:
  "(main_setup l s = LibraryExit \<longleftrightarrow> flag_Parse l default_flags = None \<or> GetConfigOrDie l = None) \<and>
   (main_setup l s = SetupExit msg err n \<longleftrightarrow> n = 1 \<and> setup_fails l s msg err) \<and>
   (main_setup l s = SetupDone mgr srv addr \<longleftrightarrow>
      (\<exists>fl config mgr0 mgr1 mgr2. flag_Parse l default_flags = Some fl \<and> GetConfigOrDie l = Some config \<and> addr = xdsAddr fl \<and>
         srv = NewServer (newSnapshotCache l) \<and> NewManager l config (setup_options fl s) = Inr mgr0 \<and>
         Complete l envoyproxy_builder \<lparr>rec_Client = GetClient l mgr0, rec_Scheme = GetScheme l mgr0, rec_XDSServer = srv\<rparr> mgr0 = (None, mgr1) \<and>
         AddHealthzCheck l ''healthz'' mgr1 = (None, mgr2) \<and> AddReadyzCheck l ''readyz'' mgr2 = (None, mgr))) \<and>
   ((main_step listen addr rdy mgr_results)\<^sup>*\<^sup>* (Running True) (Exited 0) \<longleftrightarrow> None \<in> mgr_results) \<and>
   ((main_step listen addr rdy mgr_results)\<^sup>*\<^sup>* (Running True) (Exited 1) \<longleftrightarrow>
      listen addr \<noteq> None \<or> (\<exists>err. ServeReturned (Some err) \<in> rdy) \<or> (\<exists>err. Some err \<in> mgr_results)) \<and>
   ((main_step listen addr rdy mgr_results)\<^sup>*\<^sup>* (Running True) (Running False) \<longleftrightarrow>
      listen addr = None \<and> (CtxDone \<in> rdy \<or> ServeReturned None \<in> rdy)) \<and>
   ((main_step listen addr rdy mgr_results)\<^sup>*\<^sup>* (Running True) (Exited k) \<longrightarrow> k \<in> {0, 1})"
proof (intro conjI)
  show "main_setup l s = LibraryExit \<longleftrightarrow> flag_Parse l default_flags = None \<or> GetConfigOrDie l = None"
    unfolding main_setup_rules by (auto split: main_setup_splits)
  show "(main_step listen addr rdy mgr_results)\<^sup>*\<^sup>* (Running True) (Exited k) \<longrightarrow> k \<in> {0, 1}"
    using main_step_reach by blast
qed (rule main_setup_exit main_setup_done main_reaches)+

definition example_main_lib :: "(unit, unit, string list, unit, unit) main_lib" where
  "example_main_lib = \<lparr>flag_Parse = (\<lambda>fl. Some (fl\<lparr>xdsAddr := '':18001''\<rparr>)), GetConfigOrDie = Some (), newSnapshotCache = (\<lambda>ads. ()),
     NewManager = (\<lambda>config opts. Inr [opt_HealthProbeBindAddress opts]), GetClient = (\<lambda>mgr. ()), GetScheme = (\<lambda>mgr. ()),
     Complete = (\<lambda>b r mgr. (None, mgr @ [builder_Name b])), AddHealthzCheck = (\<lambda>n mgr. (None, mgr @ [n])),
     AddReadyzCheck = (\<lambda>n mgr. (None, mgr @ [n]))\<rparr>"

text \<open>
  A setup whose health check cannot be added, and then one that succeeds with an address that is in use: the process can
  exit with code 1, and cannot stay up without its server.
\<close>

theorem main_exits_witness:
  "main_setup (example_main_lib\<lparr>AddHealthzCheck := \<lambda>n mgr. (Some (GoError ''no check''), mgr)\<rparr>) () =
     SetupExit ''Failed to set up health check'' (GoError ''no check'') 1 \<and>
   main_setup example_main_lib () = SetupDone ['':8081'', ''envoyproxy'', ''healthz'', ''readyz''] \<lparr>Cache = (), connected = []\<rparr> '':18001'' \<and>
   \<not> (main_step (\<lambda>a. Some (GoError ''in use'')) '':18001'' {CtxDone} {})\<^sup>*\<^sup>* (Running True) (Running False) \<and>
   \<not> (main_step (\<lambda>a. Some (GoError ''in use'')) '':18001'' {CtxDone} {})\<^sup>*\<^sup>* (Running True) (Exited 2) \<and>
   (main_step (\<lambda>a. Some (GoError ''in use'')) '':18001'' {CtxDone} {})\<^sup>*\<^sup>* (Running True) (Exited 1)"
proof -
  let ?listen = "\<lambda>a. Some (GoError ''in use'')" and ?l = "example_main_lib\<lparr>AddHealthzCheck := \<lambda>n mgr. (Some (GoError ''no check''), mgr)\<rparr>"
  have "setup_fails ?l () ''Failed to set up health check'' (GoError ''no check'')"
    by (rule no_health_check) (simp_all add: example_main_lib_def)
  then have "main_setup ?l () = SetupExit ''Failed to set up health check'' (GoError ''no check'') 1"
    using main_exits [of ?l "()" "''Failed to set up health check''" "GoError ''no check''" 1] by blast
  moreover have "main_setup example_main_lib () =
      SetupDone ['':8081'', ''envoyproxy'', ''healthz'', ''readyz''] \<lparr>Cache = (), connected = []\<rparr> '':18001''"
    by (simp add: main_setup_def example_main_lib_def SetupWithManager_def envoyproxy_builder_def setup_options_def default_flags_def NewServer_def)
  moreover note main_exits [of example_main_lib "()" _ _ _ _ _ "'':18001''" ?listen "{CtxDone}" "{}" 2]
  then have "\<not> (main_step ?listen '':18001'' {CtxDone} {})\<^sup>*\<^sup>* (Running True) (Running False)"
      "\<not> (main_step ?listen '':18001'' {CtxDone} {})\<^sup>*\<^sup>* (Running True) (Exited 2)"
      "(main_step ?listen '':18001'' {CtxDone} {})\<^sup>*\<^sup>* (Running True) (Exited 1)" by simp_all
  ultimately show ?thesis by blast
qed

text \<open>
  The flag \<open>metrics-bind-address\<close> has no effect: whatever its value, setup does the same and hands over the same.
\<close>

theorem metrics_flag_ignored:
  "main_setup (l\<lparr>flag_Parse := (\<lambda>fl. map_option (\<lambda>parsed. parsed\<lparr>metricsAddr := a\<rparr>) (flag_Parse l fl))\<rparr>) s = main_setup l s"
  by (cases "flag_Parse l default_flags")
    (simp_all add: main_setup_def SetupWithManager_def setup_options_def Let_def cong: sum.case_cong prod.case_cong option.case_cong)

text \<open>
  The requests of the controller model are those of the handlers that are registered, and the types
  that are registered are the watched ones, each once.
\<close>

theorem registered_watches:
  "registered_requests envoyproxy_builder d s obj = watchRequests d s obj \<and>
   watched_types = builder_For envoyproxy_builder # map fst (builder_Watches envoyproxy_builder) \<and> distinct watched_types"
  by (cases obj) (simp_all add: registered_requests_def envoyproxy_builder_def watchRequests_def watched_types_def Let_def)

end
