(* ===== verification/Go_Filepath.thy ===== *)
theory Go_Filepath
  imports Go_Strings
begin

text \<open>
  \<open>path/filepath\<close> of the Go library on Unix, as the CRD generator uses it: \<open>Clean\<close>, \<open>Join\<close> and
  \<open>WalkDir\<close> over a directory tree. \<open>Clean\<close> works on the elements between the slashes: empty
  elements and \<open>.\<close> vanish, \<open>..\<close> removes the element before it.
\<close>

section \<open>Cleaning and joining paths\<close>

definition clean_step :: "bool \<Rightarrow> string list \<Rightarrow> string \<Rightarrow> string list" where
  "clean_step rooted out p =
     (if p = [] \<or> p = ''.'' then out
      else if p = ''..'' then
        (if out \<noteq> [] \<and> last out \<noteq> ''..'' then butlast out
         else if rooted then out
         else out @ [''..''])
      else out @ [p])"

definition Clean :: "string \<Rightarrow> string" where
  "Clean path =
     (let rooted = HasPrefix path ''/'';
          out = foldl (clean_step rooted) [] (Split path (CHR ''/''));
          res = (if rooted then ''/'' else []) @ Join out ''/''
      in if res = [] then ''.'' else res)"

text \<open>\<open>filepath.Join(a, b)\<close>: leading empty arguments are dropped, the rest is cleaned.\<close>

definition filepath_Join :: "string \<Rightarrow> string \<Rightarrow> string" where
  "filepath_Join a b =
     (if a \<noteq> [] then Clean (a @ ''/'' @ b) else if b \<noteq> [] then Clean b else [])"

definition plain_element :: "string \<Rightarrow> bool" where
  "plain_element p \<longleftrightarrow> p \<noteq> [] \<and> p \<noteq> ''.'' \<and> p \<noteq> ''..'' \<and> CHR ''/'' \<notin> set p"

lemma clean_step_plain: "plain_element p \<Longrightarrow> clean_step rooted out p = out @ [p]"
  by (simp add: clean_step_def plain_element_def)

text \<open>The elements that are left contain no slash and are neither empty nor \<open>.\<close>.\<close>

definition clean_element :: "string \<Rightarrow> bool" where
  "clean_element p \<longleftrightarrow> p \<noteq> [] \<and> p \<noteq> ''.'' \<and> CHR ''/'' \<notin> set p"

lemma clean_step_elements:
  assumes "list_all clean_element out" and "CHR ''/'' \<notin> set p"
  shows "list_all clean_element (clean_step rooted out p)"
  using assms by (auto simp: clean_step_def clean_element_def list_all_iff dest: in_set_butlastD)

lemma clean_elements: "list_all clean_element (foldl (clean_step rooted) [] (Split path (CHR ''/'')))"
proof -
  have "list_all clean_element (foldl (clean_step rooted) out ps)"
    if "list_all clean_element out" "\<forall>p \<in> set ps. CHR ''/'' \<notin> set p" for out ps
    using that by (induction ps arbitrary: out) (auto intro: clean_step_elements)
  from this [of "[]"] show ?thesis by (auto dest: Split_parts_no_sep)
qed

lemma Join_clean_elements:
  assumes "list_all clean_element out" and "out \<noteq> []"
  shows "Join out ''/'' \<noteq> []" and "Join out ''/'' \<noteq> ''.''" and "Join out ''/'' \<noteq> ''/''"
proof -
  have eq: "Split (Join out ''/'') (CHR ''/'') = out"
    using assms by (intro Split_Join) (auto simp: list_all_iff clean_element_def)
  show "Join out ''/'' \<noteq> []" "Join out ''/'' \<noteq> ''.''" "Join out ''/'' \<noteq> ''/''"
    using eq assms by (auto simp: clean_element_def)
qed

text \<open>A plain file name joined to a directory is one element below the cleaned directory.\<close>

lemma filepath_Join_plain:
  assumes "plain_element name" and "dir \<noteq> []"
  shows "filepath_Join dir name =
    (if Clean dir = ''.'' then name else if Clean dir = ''/'' then ''/'' @ name else Clean dir @ ''/'' @ name)"
proof -
  let ?rooted = "HasPrefix dir ''/''"
  let ?out = "foldl (clean_step ?rooted) [] (Split dir (CHR ''/''))"
  have rooted: "HasPrefix (dir @ ''/'' @ name) ''/'' = ?rooted"
    using assms(2) by (cases dir) (simp_all add: HasPrefix_def)
  have "foldl (clean_step ?rooted) [] (Split (dir @ ''/'' @ name) (CHR ''/'')) = ?out @ [name]"
    using assms(1) clean_step_plain [OF assms(1)] by (simp add: Split_append Split_no_sep plain_element_def)
  moreover have "Join (?out @ [name]) ''/'' \<noteq> []"
    using assms(1) clean_elements [of ?rooted dir]
    by (intro Join_clean_elements) (simp_all add: plain_element_def clean_element_def)
  ultimately have join: "filepath_Join dir name = (if ?rooted then ''/'' else []) @ Join (?out @ [name]) ''/''"
    using assms(2) rooted by (simp add: filepath_Join_def Clean_def Let_def)
  show ?thesis
  proof (cases "?out = []")
    case True
    with join show ?thesis by (cases ?rooted) (simp_all add: Clean_def Let_def)
  next
    case False
    with Join_clean_elements [OF clean_elements [of ?rooted dir] False] show ?thesis
      by (cases ?rooted) (simp_all add: join Join_append, simp_all add: Clean_def Let_def)
  qed
qed

section \<open>Walking a directory tree\<close>

text \<open>
  A directory entry is a file (or anything else that is not a directory) or a directory with
  its entries in the order \<open>os.ReadDir\<close> returns them, or the error that reading it gives.
\<close>

datatype dir_entry =
    FileEntry
  | DirEntry "go_error option" "(string \<times> dir_entry) list"

text \<open>
  \<open>filepath.WalkDir\<close> with a callback that changes a state and may return an error. The callback
  is called on every entry before its children; a directory that cannot be read is visited
  a second time, with the error. The first error the callback returns ends the walk. (The
  special values \<open>SkipDir\<close> and \<open>SkipAll\<close> are not used by the callback of the program.)
\<close>

type_synonym 'r walk_fn = "string \<Rightarrow> bool \<Rightarrow> go_error option \<Rightarrow> 'r \<Rightarrow> go_error option \<times> 'r"

fun walkDir :: "'r walk_fn \<Rightarrow> string \<Rightarrow> dir_entry \<Rightarrow> 'r \<Rightarrow> go_error option \<times> 'r"
  and walkEntries :: "'r walk_fn \<Rightarrow> string \<Rightarrow> (string \<times> dir_entry) list \<Rightarrow> 'r \<Rightarrow> go_error option \<times> 'r" where
  "walkDir fn path FileEntry st = fn path False None st"
| "walkDir fn path (DirEntry rderr entries) st =
     (case fn path True None st of
        (Some err, st1) \<Rightarrow> (Some err, st1)
      | (None, st1) \<Rightarrow>
          (case rderr of
             None \<Rightarrow> walkEntries fn path entries st1
           | Some err \<Rightarrow>
               (case fn path True (Some err) st1 of
                  (Some err', st2) \<Rightarrow> (Some err', st2)
                | (None, st2) \<Rightarrow> walkEntries fn path entries st2)))"
| "walkEntries fn path [] st = (None, st)"
| "walkEntries fn path ((name, d) # ds) st =
     (case walkDir fn (filepath_Join path name) d st of
        (Some err, st1) \<Rightarrow> (Some err, st1)
      | (None, st1) \<Rightarrow> walkEntries fn path ds st1)"

text \<open>The root is looked up first; if that fails the callback is told.\<close>

definition WalkDir :: "(string \<Rightarrow> dir_entry result) \<Rightarrow> 'r walk_fn \<Rightarrow> string \<Rightarrow> 'r \<Rightarrow> go_error option \<times> 'r" where
  "WalkDir lstat fn root st = (case lstat root of
     Inl err \<Rightarrow> fn root False (Some err) st
   | Inr d \<Rightarrow> walkDir fn root d st)"

text \<open>The files of a tree with their paths, in the order of the walk, and its first read error.\<close>

fun tree_files :: "string \<Rightarrow> dir_entry \<Rightarrow> string list"
  and entries_files :: "string \<Rightarrow> (string \<times> dir_entry) list \<Rightarrow> string list" where
  "tree_files path FileEntry = [path]"
| "tree_files path (DirEntry rderr entries) = entries_files path entries"
| "entries_files path [] = []"
| "entries_files path ((name, d) # ds) = tree_files (filepath_Join path name) d @ entries_files path ds"

fun readable :: "dir_entry \<Rightarrow> bool"
  and entries_readable :: "(string \<times> dir_entry) list \<Rightarrow> bool" where
  "readable FileEntry = True"
| "readable (DirEntry rderr entries) = (rderr = None \<and> entries_readable entries)"
| "entries_readable [] = True"
| "entries_readable ((name, d) # ds) = (readable d \<and> entries_readable ds)"

text \<open>
  A callback that passes errors on, ignores directories and applies \<open>step\<close> to files: on a
  readable tree the walk is a fold of \<open>step\<close> over the files, and an error is returned exactly
  if some directory cannot be read.
\<close>

definition file_callback :: "(string \<Rightarrow> 'r \<Rightarrow> 'r) \<Rightarrow> 'r walk_fn" where
  "file_callback step path isDir err st = (case err of
     Some e \<Rightarrow> (Some e, st)
   | None \<Rightarrow> (None, if isDir then st else step path st))"

lemma walk_readable:
  "readable d \<Longrightarrow> walkDir (file_callback step) path d st = (None, fold step (tree_files path d) st)"
  "entries_readable ds \<Longrightarrow> walkEntries (file_callback step) path ds st = (None, fold step (entries_files path ds) st)"
  by (induction "file_callback step" path d st and "file_callback step" path ds st rule: walkDir_walkEntries.induct)
    (simp_all add: file_callback_def)

lemma walk_unreadable:
  "fst (walkDir (file_callback step) path d st) = None \<longleftrightarrow> readable d"
  "fst (walkEntries (file_callback step) path ds st) = None \<longleftrightarrow> entries_readable ds"
  by (induction "file_callback step" path d st and "file_callback step" path ds st rule: walkDir_walkEntries.induct)
    (auto simp: file_callback_def split: option.splits prod.splits)

end
