(* ===== verification/Proto_Parser.thy ===== *)
theory Proto_Parser
  imports Go_Filepath
begin

text \<open>
  \<open>crd-gen/internal/parser/parser.go\<close>: the walk over a proto source tree and the registry of all
  messages and enums by fully-qualified name.

  The proto parser \<open>github.com/emicklei/proto\<close> is not part of the program: it is a parameter
  from file contents to the list of elements of the file. \<open>proto_element\<close> has the kinds of
  element the program looks at, with the fields it reads; every other kind is \<open>POther\<close>.
\<close>

section \<open>Elements and registry\<close>

datatype proto_element =
    PMessage string "string list option" "proto_element list"
  | PEnum string "proto_element list"
  | PNormalField string string bool "string list option"
  | PMapField string string string
  | POneof "proto_element list"
  | POneOfField string string "string list option"
  | PEnumField string
  | PPackage string
  | POther

record Field =
  Field_Name :: string
  Field_Type :: string
  Field_Repeated :: bool
  Field_MapKey :: string
  Field_MapValue :: string
  Field_Comment :: string

record Message =
  Message_FullName :: string
  Message_Name :: string
  Message_Package :: string
  Message_Fields :: "Field list"
  Message_Comment :: string

record Enum =
  Enum_FullName :: string
  Enum_Values :: "string list"

record Registry =
  Messages :: "(string, Message) gomap"
  Enums :: "(string, Enum) gomap"

section \<open>Operations\<close>

definition qualify :: "string \<Rightarrow> string \<Rightarrow> string \<Rightarrow> string" where
  "qualify name pkg parentFQN =
     (if parentFQN \<noteq> [] then parentFQN @ ''.'' @ name
      else if pkg \<noteq> [] then pkg @ ''.'' @ name
      else name)"

definition commentText :: "string list option \<Rightarrow> string" where
  "commentText c = (case c of None \<Rightarrow> [] | Some lines \<Rightarrow> TrimSpace (Join lines '' ''))"

fun oneofField :: "proto_element \<Rightarrow> Field list" where
  "oneofField (POneOfField name type comment) =
     [\<lparr>Field_Name = name, Field_Type = type, Field_Repeated = False, Field_MapKey = [], Field_MapValue = [],
       Field_Comment = commentText comment\<rparr>]"
| "oneofField _ = []"

fun messageField :: "proto_element \<Rightarrow> Field list" where
  "messageField (PNormalField name type repeated comment) =
     [\<lparr>Field_Name = name, Field_Type = type, Field_Repeated = repeated, Field_MapKey = [], Field_MapValue = [],
       Field_Comment = commentText comment\<rparr>]"
| "messageField (PMapField name keyType valueType) =
     [\<lparr>Field_Name = name, Field_Type = ''map'', Field_Repeated = False, Field_MapKey = keyType,
       Field_MapValue = valueType, Field_Comment = []\<rparr>]"
| "messageField (POneof elements) = foldl (\<lambda>fs oe. fs @ oneofField oe) [] elements"
| "messageField _ = []"

definition messageFields :: "proto_element list \<Rightarrow> Field list" where
  "messageFields elements = foldl (\<lambda>fs el. fs @ messageField el) [] elements"

definition newMessage :: "string \<Rightarrow> string \<Rightarrow> string \<Rightarrow> string list option \<Rightarrow> proto_element list \<Rightarrow> Message" where
  "newMessage fqn name pkg comment elements =
     \<lparr>Message_FullName = fqn, Message_Name = name, Message_Package = pkg,
      Message_Fields = messageFields elements, Message_Comment = commentText comment\<rparr>"

fun enumValue :: "proto_element \<Rightarrow> string list" where
  "enumValue (PEnumField name) = [name]"
| "enumValue _ = []"

definition newEnum :: "string \<Rightarrow> proto_element list \<Rightarrow> Enum" where
  "newEnum fqn elements =
     \<lparr>Enum_FullName = fqn, Enum_Values = foldl (\<lambda>vs el. vs @ enumValue el) [] elements\<rparr>"

fun collectElements :: "proto_element list \<Rightarrow> string \<Rightarrow> string \<Rightarrow> Registry \<Rightarrow> Registry" where
  "collectElements [] pkg parentFQN reg = reg"
| "collectElements (PMessage name comment elements # rest) pkg parentFQN reg =
     (let fqn = qualify name pkg parentFQN;
          reg1 = reg\<lparr>Messages := gomap_set fqn (newMessage fqn name pkg comment elements) (Messages reg)\<rparr>
      in collectElements rest pkg parentFQN (collectElements elements pkg fqn reg1))"
| "collectElements (PEnum name elements # rest) pkg parentFQN reg =
     (let fqn = qualify name pkg parentFQN
      in collectElements rest pkg parentFQN (reg\<lparr>Enums := gomap_set fqn (newEnum fqn elements) (Enums reg)\<rparr>))"
| "collectElements (_ # rest) pkg parentFQN reg = collectElements rest pkg parentFQN reg"

text \<open>The package of a file: the first package element, none if there is none.\<close>

fun filePackage :: "proto_element list \<Rightarrow> string" where
  "filePackage [] = []"
| "filePackage (PPackage name # rest) = name"
| "filePackage (_ # rest) = filePackage rest"

text \<open>The file system and the proto parser.\<close>

record proto_source =
  Lstat :: "string \<Rightarrow> dir_entry result"
  Open :: "string \<Rightarrow> bytes result"
  Parse :: "bytes \<Rightarrow> proto_element list result"

definition parseFile :: "proto_source \<Rightarrow> string \<Rightarrow> Registry \<Rightarrow> Registry" where
  "parseFile src path reg = (case Open src path of
     Inl err \<Rightarrow> reg
   | Inr f \<Rightarrow>
      (case Parse src f of
         Inl err \<Rightarrow> reg
       | Inr elements \<Rightarrow> collectElements elements (filePackage elements) [] reg))"

definition parse_callback :: "proto_source \<Rightarrow> Registry walk_fn" where
  "parse_callback src path isDir err reg =
     (if err \<noteq> None \<or> isDir \<or> \<not> HasSuffix path ''.proto'' then (err, reg)
      else (None, parseFile src path reg))"

definition ParseDir :: "proto_source \<Rightarrow> string \<Rightarrow> Registry \<times> go_error option" where
  "ParseDir src dir =
     (let reg = \<lparr>Messages = [], Enums = []\<rparr>;
          (err, reg') = WalkDir (Lstat src) (parse_callback src) dir reg
      in (reg', err))"

section \<open>What a file declares\<close>

text \<open>All messages and enums of a list of elements, nested ones included, in document order.\<close>

fun declared_messages :: "proto_element list \<Rightarrow> string \<Rightarrow> string \<Rightarrow> Message list" where
  "declared_messages [] pkg parentFQN = []"
| "declared_messages (PMessage name comment elements # rest) pkg parentFQN =
     newMessage (qualify name pkg parentFQN) name pkg comment elements #
     declared_messages elements pkg (qualify name pkg parentFQN) @ declared_messages rest pkg parentFQN"
| "declared_messages (_ # rest) pkg parentFQN = declared_messages rest pkg parentFQN"

fun declared_enums :: "proto_element list \<Rightarrow> string \<Rightarrow> string \<Rightarrow> Enum list" where
  "declared_enums [] pkg parentFQN = []"
| "declared_enums (PMessage name comment elements # rest) pkg parentFQN =
     declared_enums elements pkg (qualify name pkg parentFQN) @ declared_enums rest pkg parentFQN"
| "declared_enums (PEnum name elements # rest) pkg parentFQN =
     newEnum (qualify name pkg parentFQN) elements # declared_enums rest pkg parentFQN"
| "declared_enums (_ # rest) pkg parentFQN = declared_enums rest pkg parentFQN"

lemma collectElements_declared:
  "Messages (collectElements els pkg parentFQN reg) =
     fold (\<lambda>m. gomap_set (Message_FullName m) m) (declared_messages els pkg parentFQN) (Messages reg)"
  "Enums (collectElements els pkg parentFQN reg) =
     fold (\<lambda>e. gomap_set (Enum_FullName e) e) (declared_enums els pkg parentFQN) (Enums reg)"
  by (induction els pkg parentFQN reg rule: collectElements.induct)
    (simp_all add: Let_def newMessage_def newEnum_def)

definition file_elements :: "proto_source \<Rightarrow> string \<Rightarrow> proto_element list" where
  "file_elements src path =
     (case result_bind (Open src path) (Parse src) of Inl err \<Rightarrow> [] | Inr els \<Rightarrow> els)"

definition file_messages :: "proto_source \<Rightarrow> string \<Rightarrow> Message list" where
  "file_messages src path = (let els = file_elements src path in declared_messages els (filePackage els) [])"

definition file_enums :: "proto_source \<Rightarrow> string \<Rightarrow> Enum list" where
  "file_enums src path = (let els = file_elements src path in declared_enums els (filePackage els) [])"

lemma parseFile_declared:
  "Messages (parseFile src path reg) =
     fold (\<lambda>m. gomap_set (Message_FullName m) m) (file_messages src path) (Messages reg)"
  "Enums (parseFile src path reg) =
     fold (\<lambda>e. gomap_set (Enum_FullName e) e) (file_enums src path) (Enums reg)"
  by (auto simp: parseFile_def file_messages_def file_enums_def file_elements_def collectElements_declared
      split: sum.split)

lemma fold_parseFile_declared:
  "Messages (fold (parseFile src) paths reg) =
     fold (\<lambda>m. gomap_set (Message_FullName m) m) (concat (map (file_messages src) paths)) (Messages reg)"
  "Enums (fold (parseFile src) paths reg) =
     fold (\<lambda>e. gomap_set (Enum_FullName e) e) (concat (map (file_enums src) paths)) (Enums reg)"
  by (induction paths arbitrary: reg) (simp_all add: parseFile_declared)

lemma parse_callback_file:
  "parse_callback src = file_callback (\<lambda>path. if HasSuffix path ''.proto'' then parseFile src path else (\<lambda>reg. reg))"
  by (auto simp: fun_eq_iff parse_callback_def file_callback_def split: option.split)

lemma fold_if_filter: "fold (\<lambda>x. if p x then f x else (\<lambda>s. s)) xs = fold f (filter p xs)"
  by (induction xs) (simp_all add: fun_eq_iff)

lemma ParseDir_readable:
  assumes "Lstat src dir = Inr d" and "readable d"
  shows "ParseDir src dir =
    (fold (parseFile src) (filter (\<lambda>path. HasSuffix path ''.proto'') (tree_files dir d)) \<lparr>Messages = [], Enums = []\<rparr>, None)"
  using assms by (simp add: ParseDir_def WalkDir_def parse_callback_file walk_readable fold_if_filter Let_def)

text \<open>The registered names are the declared ones; if no full name is declared twice, all are found.\<close>

lemma ParseDir_names:
  assumes "Lstat src dir = Inr d" and "readable d"
    and "paths = filter (\<lambda>path. HasSuffix path ''.proto'') (tree_files dir d)"
  shows "dom (gomap_get (Messages (fst (ParseDir src dir)))) =
    Message_FullName ` set (concat (map (file_messages src) paths))"
  using assms by (simp add: ParseDir_readable fold_parseFile_declared gm.dom_fold)

lemma ParseDir_complete:
  assumes "Lstat src dir = Inr d" and "readable d"
    and "ms = concat (map (file_messages src) (filter (\<lambda>path. HasSuffix path ''.proto'') (tree_files dir d)))"
    and "distinct (map Message_FullName ms)" and "m \<in> set ms"
  shows "gomap_get (Messages (fst (ParseDir src dir))) (Message_FullName m) = Some m"
proof -
  have "Messages (fst (ParseDir src dir)) = fold (\<lambda>m. gomap_set (Message_FullName m) m) ms []"
    using assms(1-3) by (simp add: ParseDir_readable fold_parseFile_declared)
  with gm.lookup_fold_distinct [OF assms(4,5), of "\<lambda>m. m"] show ?thesis by simp
qed

text \<open>A comment has no white space at its end.\<close>

lemma commentText_trimmed:
  assumes "e \<in> set space_encodings" and "e \<noteq> []"
  shows "\<not> HasSuffix (commentText c) e"
proof -
  have rev_suffix: "HasSuffix (rev x) e \<longleftrightarrow> HasPrefix x (rev e)" for x
    by (auto simp: HasSuffix_iff HasPrefix_iff) (metis rev_append rev_rev_ident)+
  have "\<not> HasSuffix (TrimSpace s) e" for s
    unfolding TrimSpace_def rev_suffix using assms by (intro trim_front_no_space) auto
  moreover have "\<not> HasSuffix [] e" using assms(2) by (simp add: HasSuffix_iff)
  ultimately show ?thesis by (simp add: commentText_def split: option.split)
qed

section \<open>Well-formed registries\<close>

text \<open>
  Every message is registered under its full name, keys are unique, a full name is the
  simple name in some scope and lies in the package of the file.
\<close>

definition in_package :: "string \<Rightarrow> string \<Rightarrow> bool" where
  "in_package pkg fqn \<longleftrightarrow> pkg = [] \<or> HasPrefix fqn (pkg @ ''.'')"

definition message_wf :: "Message \<Rightarrow> bool" where
  "message_wf m \<longleftrightarrow>
     (Message_FullName m = Message_Name m \<or> HasSuffix (Message_FullName m) (''.'' @ Message_Name m)) \<and>
     in_package (Message_Package m) (Message_FullName m)"

definition registry_wf :: "Registry \<Rightarrow> bool" where
  "registry_wf reg \<longleftrightarrow> distinct (map fst (Messages reg)) \<and> distinct (map fst (Enums reg)) \<and>
     (\<forall>k m. gomap_get (Messages reg) k = Some m \<longrightarrow> Message_FullName m = k \<and> message_wf m) \<and>
     (\<forall>k e. gomap_get (Enums reg) k = Some e \<longrightarrow> Enum_FullName e = k)"

lemma registry_wf_empty: "registry_wf \<lparr>Messages = [], Enums = []\<rparr>"
  by (simp add: registry_wf_def)

lemma registry_wf_message:
  "registry_wf reg \<Longrightarrow> message_wf m \<Longrightarrow>
     registry_wf (reg\<lparr>Messages := gomap_set (Message_FullName m) m (Messages reg)\<rparr>)"
  by (auto simp: registry_wf_def gomap_set_distinct update_conv' split: if_splits)

lemma registry_wf_enum:
  "registry_wf reg \<Longrightarrow> registry_wf (reg\<lparr>Enums := gomap_set (Enum_FullName e) e (Enums reg)\<rparr>)"
  by (auto simp: registry_wf_def gomap_set_distinct update_conv' split: if_splits)

definition scope_ok :: "string \<Rightarrow> string \<Rightarrow> bool" where
  "scope_ok pkg parentFQN \<longleftrightarrow> parentFQN = [] \<or> in_package pkg parentFQN"

lemma qualify_in_package: "scope_ok pkg parentFQN \<Longrightarrow> in_package pkg (qualify name pkg parentFQN)"
  by (auto simp: scope_ok_def in_package_def qualify_def HasPrefix_iff)

lemma qualify_suffix: "qualify name pkg parentFQN = name \<or> HasSuffix (qualify name pkg parentFQN) (''.'' @ name)"
  by (auto simp: qualify_def HasSuffix_iff)

lemma newMessage_wf:
  "scope_ok pkg parentFQN \<Longrightarrow> message_wf (newMessage (qualify name pkg parentFQN) name pkg c els)"
  using qualify_suffix [of name pkg parentFQN] by (simp add: message_wf_def newMessage_def qualify_in_package)

lemma collectElements_wf:
  "scope_ok pkg parentFQN \<Longrightarrow> registry_wf reg \<Longrightarrow> registry_wf (collectElements els pkg parentFQN reg)"
proof (induction els pkg parentFQN reg rule: collectElements.induct)
  case (2 name comment elements rest pkg parentFQN reg)
  let ?m = "newMessage (qualify name pkg parentFQN) name pkg comment elements"
  have "Message_FullName ?m = qualify name pkg parentFQN" by (simp add: newMessage_def)
  with registry_wf_message [OF "2.prems"(2) newMessage_wf [OF "2.prems"(1)]]
  have "registry_wf (reg\<lparr>Messages := gomap_set (qualify name pkg parentFQN) ?m (Messages reg)\<rparr>)" by metis
  with 2 show ?case by (simp add: Let_def scope_ok_def qualify_in_package)
next
  case (3 name elements rest pkg parentFQN reg)
  from registry_wf_enum [OF "3.prems"(2), of "newEnum (qualify name pkg parentFQN) elements"] 3 show ?case
    by (simp add: Let_def newEnum_def)
qed simp_all

lemma parseFile_wf: "registry_wf reg \<Longrightarrow> registry_wf (parseFile src path reg)"
  by (simp add: parseFile_def scope_ok_def collectElements_wf split: sum.split)

lemma walk_wf:
  "registry_wf reg \<Longrightarrow> registry_wf (snd (walkDir (parse_callback src) path d reg))"
  "registry_wf reg \<Longrightarrow> registry_wf (snd (walkEntries (parse_callback src) path ds reg))"
  by (induction "parse_callback src" path d reg and "parse_callback src" path ds reg rule: walkDir_walkEntries.induct)
    (auto simp: parse_callback_def parseFile_wf split: option.splits prod.splits)

lemma registry_wf_ParseDir: "registry_wf (fst (ParseDir src dir))"
proof (cases "Lstat src dir")
  case (Inl err)
  then show ?thesis
    by (simp add: ParseDir_def WalkDir_def parse_callback_def registry_wf_empty)
next
  case (Inr d)
  then show ?thesis
    using walk_wf(1) [OF registry_wf_empty, of src dir d]
    by (simp add: ParseDir_def WalkDir_def split_def Let_def)
qed

section \<open>Scopes\<close>

text \<open>
  The enums of a file by their simple names and values, nested ones included; and the full name of
  an element with a simple name in a file with a package: the bare name if the file has no
  package, or the name after a scope and a dot, where the scope is the package or a message
  of the registry.
\<close>

fun occurring_enums :: "proto_element list \<Rightarrow> (string \<times> string list) list" where
  "occurring_enums [] = []"
| "occurring_enums (PMessage name comment elements # rest) = occurring_enums elements @ occurring_enums rest"
| "occurring_enums (PEnum name elements # rest) = (name, concat (map enumValue elements)) # occurring_enums rest"
| "occurring_enums (_ # rest) = occurring_enums rest"

definition scoped_name :: "Registry \<Rightarrow> string \<Rightarrow> string \<Rightarrow> string \<Rightarrow> bool" where
  "scoped_name reg pkg name fqn \<longleftrightarrow> pkg = [] \<and> fqn = name \<or>
     (\<exists>scope. fqn = scope @ ''.'' @ name \<and> (scope = pkg \<and> pkg \<noteq> [] \<or> in_package pkg scope \<and> gomap_has (Messages reg) scope))"

definition enum_scoped :: "proto_source \<Rightarrow> Registry \<Rightarrow> Enum \<Rightarrow> bool" where
  "enum_scoped src reg e \<longleftrightarrow> (\<exists>path name. HasSuffix path ''.proto'' \<and>
     (name, Enum_Values e) \<in> set (occurring_enums (file_elements src path)) \<and>
     scoped_name reg (filePackage (file_elements src path)) name (Enum_FullName e))"

definition registry_scoped :: "proto_source \<Rightarrow> Registry \<Rightarrow> bool" where
  "registry_scoped src reg \<longleftrightarrow>
     (\<forall>k m. gomap_get (Messages reg) k = Some m \<longrightarrow> scoped_name reg (Message_Package m) (Message_Name m) (Message_FullName m)) \<and>
     (\<forall>k e. gomap_get (Enums reg) k = Some e \<longrightarrow> enum_scoped src reg e)"

lemma registry_scoped_empty: "registry_scoped src \<lparr>Messages = [], Enums = []\<rparr>"
  by (simp add: registry_scoped_def)

lemma scoped_name_mono:
  assumes "scoped_name reg pkg name fqn" and "\<And>k. gomap_has (Messages reg) k \<Longrightarrow> gomap_has (Messages reg') k"
  shows "scoped_name reg' pkg name fqn"
proof (cases "\<exists>scope. fqn = scope @ ''.'' @ name \<and> in_package pkg scope \<and> gomap_has (Messages reg) scope")
  case True
  with assms(2) show ?thesis unfolding scoped_name_def by metis
next
  case False
  with assms(1) show ?thesis unfolding scoped_name_def by metis
qed

text \<open>The scope of the elements of a message is the message, of those of a file its package.\<close>

definition in_scope :: "Registry \<Rightarrow> string \<Rightarrow> string \<Rightarrow> bool" where
  "in_scope reg pkg parentFQN \<longleftrightarrow> parentFQN = [] \<or> in_package pkg parentFQN \<and> gomap_has (Messages reg) parentFQN"

lemma qualify_scoped: "in_scope reg pkg parentFQN \<Longrightarrow> scoped_name reg pkg name (qualify name pkg parentFQN)"
  unfolding in_scope_def scoped_name_def qualify_def by (cases "parentFQN = []"; cases "pkg = []") simp_all

lemma in_scope_package: "in_scope reg pkg parentFQN \<Longrightarrow> in_package pkg (qualify name pkg parentFQN)"
  by (rule qualify_in_package) (auto simp: in_scope_def scope_ok_def)

lemma registry_scoped_message:
  assumes "registry_scoped src reg" and "in_scope reg pkg parentFQN" and "fqn = qualify name pkg parentFQN"
  shows "registry_scoped src (reg\<lparr>Messages := gomap_set fqn (newMessage fqn name pkg c els) (Messages reg)\<rparr>)" (is "registry_scoped src ?reg")
proof -
  have mono: "gomap_has (Messages ?reg) k" if "gomap_has (Messages reg) k" for k
    using that by (auto simp: update_conv')
  from scoped_name_mono [OF qualify_scoped [OF assms(2), of name] mono] have "scoped_name ?reg pkg name fqn"
    by (simp add: assms(3))
  moreover have "enum_scoped src ?reg e" if "enum_scoped src reg e" for e
    using that scoped_name_mono [OF _ mono] unfolding enum_scoped_def by blast
  moreover have "scoped_name ?reg p n f" if "scoped_name reg p n f" for p n f
    using scoped_name_mono [OF that mono] .
  ultimately show ?thesis
    using assms(1) unfolding registry_scoped_def by (auto simp: update_conv' newMessage_def split: if_splits)
qed

lemma registry_scoped_enum:
  assumes "registry_scoped src reg" and "enum_scoped src reg e"
  shows "registry_scoped src (reg\<lparr>Enums := gomap_set k e (Enums reg)\<rparr>)"
  using assms by (auto simp: registry_scoped_def enum_scoped_def scoped_name_def update_conv' split: if_splits)

lemma collectElements_keeps: "gomap_has (Messages reg) k \<Longrightarrow> gomap_has (Messages (collectElements els pkg parentFQN reg)) k"
  by (induction els pkg parentFQN reg rule: collectElements.induct) (auto simp: Let_def update_conv')

lemma newEnum_scoped:
  assumes "in_scope reg pkg parentFQN" and "HasSuffix path ''.proto''" and "pkg = filePackage (file_elements src path)"
    and "(name, concat (map enumValue els)) \<in> set (occurring_enums (file_elements src path))"
  shows "enum_scoped src reg (newEnum (qualify name pkg parentFQN) els)"
proof -
  have "Enum_Values (newEnum (qualify name pkg parentFQN) els) = concat (map enumValue els)"
    by (simp add: newEnum_def go_loop)
  moreover have "Enum_FullName (newEnum (qualify name pkg parentFQN) els) = qualify name pkg parentFQN"
    by (simp add: newEnum_def)
  ultimately show ?thesis
    unfolding enum_scoped_def using qualify_scoped [OF assms(1), of name] assms(2-4) by metis
qed

lemma collectElements_scoped:
  assumes "HasSuffix path ''.proto''"
  shows "registry_scoped src reg \<Longrightarrow> in_scope reg pkg parentFQN \<Longrightarrow> pkg = filePackage (file_elements src path) \<Longrightarrow>
    set (occurring_enums els) \<subseteq> set (occurring_enums (file_elements src path)) \<Longrightarrow>
    registry_scoped src (collectElements els pkg parentFQN reg)"
proof (induction els pkg parentFQN reg rule: collectElements.induct)
  case (2 name comment elements rest pkg parentFQN reg)
  define fqn where "fqn = qualify name pkg parentFQN"
  define reg1 where "reg1 = reg\<lparr>Messages := gomap_set fqn (newMessage fqn name pkg comment elements) (Messages reg)\<rparr>"
  have "registry_scoped src reg1" unfolding reg1_def by (rule registry_scoped_message [OF "2.prems"(1,2) fqn_def])
  moreover have "in_scope reg1 pkg fqn"
    using in_scope_package [OF "2.prems"(2), of name] by (simp add: in_scope_def reg1_def fqn_def update_conv')
  moreover have "in_scope (collectElements elements pkg fqn reg1) pkg parentFQN"
    using "2.prems"(2) collectElements_keeps [of reg1] by (auto simp: in_scope_def reg1_def update_conv')
  ultimately show ?case using "2.IH" "2.prems" by (simp add: fqn_def reg1_def Let_def)
next
  case (3 name elements rest pkg parentFQN reg)
  have "enum_scoped src reg (newEnum (qualify name pkg parentFQN) elements)"
    using "3.prems"(3,4) by (intro newEnum_scoped [OF "3.prems"(2) assms]) auto
  from registry_scoped_enum [OF "3.prems"(1) this] 3 show ?case by (simp add: Let_def in_scope_def)
qed simp_all

lemma parseFile_scoped: "registry_scoped src reg \<Longrightarrow> HasSuffix path ''.proto'' \<Longrightarrow> registry_scoped src (parseFile src path reg)"
  by (auto simp: parseFile_def in_scope_def file_elements_def split: sum.split intro!: collectElements_scoped)

lemma walk_scoped:
  "registry_scoped src reg \<Longrightarrow> registry_scoped src (snd (walkDir (parse_callback src) path d reg))"
  "registry_scoped src reg \<Longrightarrow> registry_scoped src (snd (walkEntries (parse_callback src) path ds reg))"
  by (induction "parse_callback src" path d reg and "parse_callback src" path ds reg rule: walkDir_walkEntries.induct)
    (auto simp: parse_callback_def parseFile_scoped split: option.splits prod.splits)

lemma registry_scoped_ParseDir: "registry_scoped src (fst (ParseDir src dir))"
proof (cases "Lstat src dir")
  case (Inl err)
  then show ?thesis
    by (simp add: ParseDir_def WalkDir_def parse_callback_def registry_scoped_empty)
next
  case (Inr d)
  then show ?thesis
    using walk_scoped(1) [OF registry_scoped_empty, of src dir d]
    by (simp add: ParseDir_def WalkDir_def split_def Let_def)
qed

section \<open>Properties\<close>

text \<open>
  C31. The registry of a readable tree is complete and exact: a name is looked up to the last message (or
  enum) of that full name among all declarations, nested ones included, of all files ending
  in \<open>.proto\<close> that can be opened and parsed, in the order of the walk, and to nothing if there
  is none.
\<close>

theorem ParseDir_registry:
  assumes "Lstat src dir = Inr d" and "readable d"
    and "paths = filter (\<lambda>path. HasSuffix path ''.proto'') (tree_files dir d)"
  shows "gomap_get (Messages (fst (ParseDir src dir))) k =
      find (\<lambda>m. Message_FullName m = k) (rev (concat (map (file_messages src) paths))) \<and>
    gomap_get (Enums (fst (ParseDir src dir))) k =
      find (\<lambda>e. Enum_FullName e = k) (rev (concat (map (file_enums src) paths)))"
  using assms by (simp add: ParseDir_readable fold_parseFile_declared gm.lookup_fold split: option.split)

text \<open>A directory with one proto file, which declares a nested message, and one other file.\<close>

definition example_source :: proto_source where
  "example_source =
     \<lparr>Lstat = (\<lambda>_. Inr (DirEntry None [(''a.proto'', FileEntry), (''b.txt'', FileEntry)])),
      Open = Inr,
      Parse = (\<lambda>f. Inr [PPackage ''p'', PMessage ''A'' None [PMessage ''B'' None [], PEnum ''E'' [PEnumField ''X'']]])\<rparr>"

theorem ParseDir_registry_witness:
  "gomap_get (Messages (fst (ParseDir example_source ''d''))) ''p.A.B'' = Some (newMessage ''p.A.B'' ''B'' ''p'' None []) \<and>
   gomap_get (Enums (fst (ParseDir example_source ''d''))) ''p.A.E'' =
     Some \<lparr>Enum_FullName = ''p.A.E'', Enum_Values = [''X'']\<rparr>"
proof -
  let ?d = "DirEntry None [(''a.proto'', FileEntry), (''b.txt'', FileEntry)]"
  have l: "Lstat example_source ''d'' = Inr ?d" and r: "readable ?d" by (simp_all add: example_source_def)
  have files: "[''d/a.proto''] = filter (\<lambda>path. HasSuffix path ''.proto'') (tree_files ''d'' ?d)" by code_simp
  have ms: "file_messages example_source ''d/a.proto'' =
      [newMessage ''p.A'' ''A'' ''p'' None [PMessage ''B'' None [], PEnum ''E'' [PEnumField ''X'']],
       newMessage ''p.A.B'' ''B'' ''p'' None []]" by code_simp
  have es: "file_enums example_source ''d/a.proto'' = [\<lparr>Enum_FullName = ''p.A.E'', Enum_Values = [''X'']\<rparr>]" by code_simp
  have m: "gomap_get (Messages (fst (ParseDir example_source ''d''))) ''p.A.B'' = Some (newMessage ''p.A.B'' ''B'' ''p'' None [])"
    using ParseDir_registry [OF l r files, of "''p.A.B''"] by (simp add: ms newMessage_def)
  moreover have "gomap_get (Enums (fst (ParseDir example_source ''d''))) ''p.A.E'' =
      Some \<lparr>Enum_FullName = ''p.A.E'', Enum_Values = [''X'']\<rparr>"
    using ParseDir_registry [OF l r files, of "''p.A.E''"] by (simp add: es)
  ultimately show ?thesis by blast
qed

text \<open>
  C32. Whatever the tree holds and wherever the walk stops, the registry is well-formed: keys are unique, a
  message or enum is registered under its own full name, and every one of them is an element of
  a scope. Its full name is its simple name if its file has no package, or else the simple name after
  a scope and a dot, where the scope is the package of the file or a message inside that package which is registered
  itself. Every enum has the name and the values of an enum that occurs in some proto file.
\<close>

theorem ParseDir_wf: "registry_wf (fst (ParseDir src dir)) \<and> registry_scoped src (fst (ParseDir src dir))"
  using registry_wf_ParseDir registry_scoped_ParseDir by blast

text \<open>
  C33. \<open>ParseDir\<close> reports an error exactly if the root cannot be looked up or some directory of the tree
  cannot be read; files that cannot be opened or parsed never make it fail.
\<close>

theorem ParseDir_error_iff:
  "snd (ParseDir src dir) = None \<longleftrightarrow> (\<exists>d. Lstat src dir = Inr d \<and> readable d)"
proof (cases "Lstat src dir")
  case (Inl err)
  then show ?thesis by (simp add: ParseDir_def WalkDir_def parse_callback_def)
next
  case (Inr d)
  then show ?thesis
    using walk_unreadable(1) [of _ dir d]
    by (simp add: ParseDir_def WalkDir_def parse_callback_file split_def Let_def)
qed

end
