(* ===== verification/Crd_Schema.thy ===== *)
theory Crd_Schema
  imports Proto_Parser
begin

text \<open>
  \<open>crd-gen/internal/schema/convert.go\<close>: the conversion of a registered message to an OpenAPI
  schema.

  Schemas are pointers in the code, and one kind of pointer is shared: \<open>resolveMessageOrEnum\<close>
  returns the entries of the package variable \<open>wellKnownSchemas\<close> themselves, and \<open>msgSchema\<close>
  writes descriptions through the pointers it gets. So the variable is an explicit store
  that is threaded through all functions, and a pointer is either \<open>Fresh\<close> (nobody else holds
  it) or \<open>Shared\<close> (the entry of that name). \<open>deref\<close> is what an encoder sees later.
\<close>

section \<open>Schemas\<close>

text \<open>
  The fields of \<open>JSONSchemaProps\<close> the program sets; \<open>Minimum\<close> and \<open>Maximum\<close> only take whole
  numbers.
\<close>

datatype JSONSchemaProps = JSONSchemaProps
    (Type: string) (Format: string) (Description: string)
    (Properties: "(string \<times> JSONSchemaProps) list")
    (AdditionalProperties: "schema_ptr option")
    (Items: "schema_ptr option")
    (EnumValues: "bytes list")
    (XPreserveUnknownFields: "bool option")
    (Required: "string list")
    (Minimum: "int option") (Maximum: "int option")
  and schema_ptr = Fresh JSONSchemaProps | Shared string

definition props :: "string \<Rightarrow> string \<Rightarrow> JSONSchemaProps" where
  "props type format = JSONSchemaProps type format [] [] None None [] None [] None None"

definition freeForm :: "string \<Rightarrow> JSONSchemaProps" where
  "freeForm type = JSONSchemaProps type [] [] [] None None [] (Some True) [] None None"

fun set_Description :: "string \<Rightarrow> JSONSchemaProps \<Rightarrow> JSONSchemaProps" where
  "set_Description c (JSONSchemaProps t f d ps ap it en x rq mi ma) = JSONSchemaProps t f c ps ap it en x rq mi ma"

definition arrayOf :: "schema_ptr \<Rightarrow> JSONSchemaProps" where
  "arrayOf s = JSONSchemaProps ''array'' [] [] [] None (Some s) [] None [] None None"

definition mapOf :: "schema_ptr \<Rightarrow> JSONSchemaProps" where
  "mapOf s = JSONSchemaProps ''object'' [] [] [] (Some s) None [] None [] None None"

definition enumOf :: "bytes list \<Rightarrow> JSONSchemaProps" where
  "enumOf vs = JSONSchemaProps ''string'' [] [] [] None None vs None [] None None"

definition scalarSchema :: "string \<Rightarrow> JSONSchemaProps option" where
  "scalarSchema t =
     (if t = ''string'' then Some (props ''string'' [])
      else if t = ''bytes'' then Some (props ''string'' ''byte'')
      else if t = ''bool'' then Some (props ''boolean'' [])
      else if t \<in> set [''int32'', ''sint32'', ''sfixed32''] then Some (props ''integer'' ''int32'')
      else if t \<in> set [''int64'', ''sint64'', ''sfixed64''] then Some (props ''integer'' ''int64'')
      else if t \<in> set [''uint32'', ''fixed32''] then Some (props ''integer'' ''int32'')
      else if t \<in> set [''uint64'', ''fixed64''] then Some (props ''integer'' ''int64'')
      else if t = ''float'' then Some (props ''number'' ''float'')
      else if t = ''double'' then Some (props ''number'' ''double'')
      else None)"

type_synonym schema_store = "(string, JSONSchemaProps) gomap"

definition wellKnownSchemas :: schema_store where
  "wellKnownSchemas =
     [(''google.protobuf.Any'', freeForm ''object''),
      (''google.protobuf.Struct'', freeForm ''object''),
      (''google.protobuf.Value'', freeForm []),
      (''google.protobuf.Duration'', props ''string'' []),
      (''google.protobuf.Timestamp'', props ''string'' ''date-time''),
      (''google.protobuf.Empty'', props ''object'' []),
      (''google.protobuf.StringValue'', props ''string'' []),
      (''google.protobuf.BoolValue'', props ''boolean'' []),
      (''google.protobuf.Int32Value'', props ''integer'' ''int32''),
      (''google.protobuf.UInt32Value'', props ''integer'' ''int32''),
      (''google.protobuf.Int64Value'', props ''integer'' ''int64''),
      (''google.protobuf.UInt64Value'', props ''integer'' ''int64''),
      (''google.protobuf.FloatValue'', props ''number'' ''float''),
      (''google.protobuf.DoubleValue'', props ''number'' ''double''),
      (''google.protobuf.BytesValue'', props ''string'' ''byte''),
      (''google.protobuf.ListValue'', arrayOf (Fresh (freeForm [])))]"

section \<open>Names\<close>

definition inRegistry :: "string \<Rightarrow> Registry \<Rightarrow> bool" where
  "inRegistry name reg \<longleftrightarrow> gomap_has (Messages reg) name \<or> gomap_has (Enums reg) name"

text \<open>
  \<open>for i := len(parts); i > 0; i-- { candidate := Join(parts[:i], ".") + "." + typeName ... }\<close>
\<close>

fun walkUp :: "string list \<Rightarrow> nat \<Rightarrow> string \<Rightarrow> Registry \<Rightarrow> string option" where
  "walkUp parts 0 typeName reg = None"
| "walkUp parts (Suc i) typeName reg =
     (let candidate = Join (take (Suc i) parts) ''.'' @ ''.'' @ typeName in
      if inRegistry candidate reg then Some candidate else walkUp parts i typeName reg)"

definition resolveFQN :: "string \<Rightarrow> string \<Rightarrow> string \<Rightarrow> Registry \<Rightarrow> string" where
  "resolveFQN typeName pkg msgFQN reg =
     (if inRegistry typeName reg then typeName
      else
        (case (if msgFQN \<noteq> [] then
                 (let parts = Split msgFQN (CHR ''.'') in walkUp parts (length parts) typeName reg)
               else None) of
           Some candidate \<Rightarrow> candidate
         | None \<Rightarrow>
            (let parts = Split pkg (CHR ''.'') in
             case walkUp parts (length parts) typeName reg of
               Some candidate \<Rightarrow> candidate
             | None \<Rightarrow> typeName)))"

definition cloneVisited :: "(string, bool) gomap \<Rightarrow> (string, bool) gomap" where
  "cloneVisited v = fold (\<lambda>(k, b). gomap_set k True) v []"

section \<open>Conversion\<close>

text \<open>\<open>fs.Description = c\<close> and \<open>*fs\<close> through a pointer.\<close>

definition write_Description :: "string \<Rightarrow> schema_ptr \<Rightarrow> schema_store \<Rightarrow> schema_ptr \<times> schema_store" where
  "write_Description c p wk = (case p of
     Fresh s \<Rightarrow> (Fresh (set_Description c s), wk)
   | Shared n \<Rightarrow>
      (Shared n, (case gomap_get wk n of None \<Rightarrow> wk | Some s \<Rightarrow> gomap_set n (set_Description c s) wk)))"

definition load_ptr :: "schema_ptr \<Rightarrow> schema_store \<Rightarrow> JSONSchemaProps" where
  "load_ptr p wk = (case p of
     Fresh s \<Rightarrow> s
   | Shared n \<Rightarrow> (case gomap_get wk n of Some s \<Rightarrow> s | None \<Rightarrow> freeForm []))"

definition enumValues :: "Enum \<Rightarrow> bytes list" where
  "enumValues e = foldl (\<lambda>vs v. vs @ [[CHR 0x22] @ v @ [CHR 0x22]]) [] (Enum_Values e)"

text \<open>The messages a conversion may still descend into.\<close>

definition unvisited :: "Registry \<Rightarrow> (string, bool) gomap \<Rightarrow> nat" where
  "unvisited reg visited = card {k \<in> dom (gomap_get (Messages reg)). gomap_get visited k \<noteq> Some True}"

lemma finite_unvisited: "finite {k \<in> dom (gomap_get (Messages reg)). gomap_get visited k \<noteq> Some True}"
  by (simp add: finite_dom_map_of)

lemma cloneVisited_get: "gomap_get (cloneVisited v) k = (if k \<in> fst ` set v then Some True else None)"
proof -
  have "gomap_get (fold (\<lambda>(k, b). gomap_set k True) v m) k = (if k \<in> fst ` set v then Some True else gomap_get m k)" for m
    by (induction v arbitrary: m) (auto simp: update_conv')
  then show ?thesis by (simp add: cloneVisited_def)
qed

lemma unvisited_clone: "unvisited reg (cloneVisited v) \<le> unvisited reg v"
  unfolding unvisited_def
  by (rule card_mono [OF finite_unvisited]) (auto simp: cloneVisited_get dest: map_of_SomeD intro: rev_image_eqI split: if_splits)

lemma unvisited_visit:
  assumes "gomap_get (Messages reg) fqn = Some m" and "gomap_get visited fqn \<noteq> Some True"
  shows "unvisited reg (gomap_set fqn True visited) < unvisited reg visited"
  unfolding unvisited_def
  by (rule psubset_card_mono [OF finite_unvisited]) (use assms in \<open>auto simp: update_conv' split: if_splits\<close>)

function (sequential) msgSchema ::
    "Message \<Rightarrow> Registry \<Rightarrow> (string, bool) gomap \<Rightarrow> schema_store \<Rightarrow> JSONSchemaProps \<times> schema_store"
  and msgFields ::
    "Field list \<Rightarrow> Message \<Rightarrow> Registry \<Rightarrow> (string, bool) gomap \<Rightarrow> (string \<times> JSONSchemaProps) list \<Rightarrow> schema_store \<Rightarrow>
     (string \<times> JSONSchemaProps) list \<times> schema_store"
  and resolveType ::
    "string \<Rightarrow> bool \<Rightarrow> string \<Rightarrow> string \<Rightarrow> Registry \<Rightarrow> (string, bool) gomap \<Rightarrow> schema_store \<Rightarrow> schema_ptr \<times> schema_store"
  and resolveMessageOrEnum ::
    "string \<Rightarrow> string \<Rightarrow> string \<Rightarrow> Registry \<Rightarrow> (string, bool) gomap \<Rightarrow> schema_store \<Rightarrow> schema_ptr \<times> schema_store" where
  "msgSchema msg reg visited wk =
     (let (ps, wk1) = msgFields (Message_Fields msg) msg reg visited [] wk in
      (JSONSchemaProps ''object'' [] (Message_Comment msg) ps None None []
         (if length ps = 0 then Some True else None) [] None None, wk1))"
| "msgFields [] msg reg visited ps wk = (ps, wk)"
| "msgFields (field # rest) msg reg visited ps wk =
     (let (fs, wk1) =
            (if Field_Type field = ''map'' then
               (let (valSchema, wk0) = resolveType (Field_MapValue field) False (Message_Package msg)
                      (Message_FullName msg) reg (cloneVisited visited) wk
                in (Fresh (mapOf valSchema), wk0))
             else resolveType (Field_Type field) (Field_Repeated field) (Message_Package msg)
                    (Message_FullName msg) reg (cloneVisited visited) wk);
          (fs, wk2) = (if Field_Comment field \<noteq> [] then write_Description (Field_Comment field) fs wk1 else (fs, wk1))
      in msgFields rest msg reg visited (gomap_set (Field_Name field) (load_ptr fs wk2) ps) wk2)"
| "resolveType typeName repeated pkg msgFQN reg visited wk =
     (let (s, wk1) =
            (case scalarSchema typeName of
               Some s \<Rightarrow> (Fresh s, wk)
             | None \<Rightarrow> resolveMessageOrEnum typeName pkg msgFQN reg visited wk)
      in (if repeated then Fresh (arrayOf s) else s, wk1))"
| "resolveMessageOrEnum typeName0 pkg msgFQN reg visited wk =
     (let typeName = TrimPrefix typeName0 ''.'' in
      if gomap_has wk typeName then (Shared typeName, wk)
      else
        (let fqn = resolveFQN typeName pkg msgFQN reg in
         if gomap_get visited fqn = Some True then (Fresh (freeForm ''object''), wk)
         else
           (case gomap_get (Messages reg) fqn of
              Some msg \<Rightarrow>
                (let (s, wk1) = msgSchema msg reg (gomap_set fqn True visited) wk in (Fresh s, wk1))
            | None \<Rightarrow>
                (case gomap_get (Enums reg) fqn of
                   Some e \<Rightarrow> (Fresh (enumOf (enumValues e)), wk)
                 | None \<Rightarrow> (Fresh (freeForm ''object''), wk)))))"
  by pat_completeness auto

termination
proof (relation "measures
    [\<lambda>x. case x of Inl (Inl (msg, reg, v, wk)) \<Rightarrow> unvisited reg v
      | Inl (Inr (fs, msg, reg, v, ps, wk)) \<Rightarrow> unvisited reg v
      | Inr (Inl (t, r, pkg, fqn, reg, v, wk)) \<Rightarrow> unvisited reg v
      | Inr (Inr (t, pkg, fqn, reg, v, wk)) \<Rightarrow> unvisited reg v,
     \<lambda>x. case x of Inl (Inl _) \<Rightarrow> 3 | Inl (Inr _) \<Rightarrow> 2 | Inr (Inl _) \<Rightarrow> 1 | Inr (Inr _) \<Rightarrow> 0,
     \<lambda>x. case x of Inl (Inr (fs, msg, reg, v, ps, wk)) \<Rightarrow> length fs | _ \<Rightarrow> 0]", goal_cases)
qed (use unvisited_clone in \<open>auto simp: unvisited_visit le_less\<close>)

definition MessageToSchema :: "Message \<Rightarrow> Registry \<Rightarrow> schema_store \<Rightarrow> JSONSchemaProps \<times> schema_store" where
  "MessageToSchema msg reg wk = msgSchema msg reg [] wk"

declare msgSchema.simps [simp del] msgFields.simps [simp del] resolveType.simps [simp del] resolveMessageOrEnum.simps [simp del]

section \<open>The candidates of a type name\<close>

text \<open>The enclosing scopes of a dotted name, itself first: \<open>a.b.c\<close>, \<open>a.b\<close>, \<open>a\<close>.\<close>

definition scopes :: "string \<Rightarrow> string list" where
  "scopes s = (let parts = Split s (CHR ''.'') in map (\<lambda>i. Join (take i parts) ''.'') (rev [1..<Suc (length parts)]))"

definition qualified_in :: "string list \<Rightarrow> string \<Rightarrow> string list" where
  "qualified_in scs typeName = map (\<lambda>s. s @ ''.'' @ typeName) scs"

lemma walkUp_find:
  "walkUp parts n typeName reg =
     find (\<lambda>c. inRegistry c reg) (map (\<lambda>i. Join (take i parts) ''.'' @ ''.'' @ typeName) (rev [1..<Suc n]))"
  by (induction n) (simp_all add: Let_def)

lemma walkUp_scopes:
  "walkUp (Split s (CHR ''.'')) (length (Split s (CHR ''.''))) typeName reg =
     find (\<lambda>c. inRegistry c reg) (qualified_in (scopes s) typeName)"
  by (simp add: walkUp_find scopes_def qualified_in_def Let_def comp_def del: upt_Suc)

lemma resolveFQN_find:
  "resolveFQN typeName pkg msgFQN reg =
     (case find (\<lambda>c. inRegistry c reg)
        (typeName # qualified_in ((if msgFQN = [] then [] else scopes msgFQN) @ scopes pkg) typeName) of
        Some c \<Rightarrow> c | None \<Rightarrow> typeName)"
  by (simp add: resolveFQN_def walkUp_scopes Let_def find_append qualified_in_def split: option.split)

text \<open>The scopes of a package are scopes of every name in it.\<close>

lemma scopes_in_package:
  assumes "in_package pkg fqn" and "pkg \<noteq> []"
  shows "set (scopes pkg) \<subseteq> set (scopes fqn)"
proof -
  obtain rest where fqn: "fqn = pkg @ CHR ''.'' # rest" using assms by (auto simp: in_package_def HasPrefix_iff)
  let ?p = "Split pkg (CHR ''.'')" and ?f = "Split fqn (CHR ''.'')"
  have f: "?f = ?p @ Split rest (CHR ''.'')" by (simp add: fqn Split_append)
  have "Join (take i ?p) ''.'' \<in> set (scopes fqn)" if "1 \<le> i" "i \<le> length ?p" for i
  proof -
    have "take i ?p = take i ?f" using that by (simp add: f)
    moreover have "i \<in> set (rev [1..<Suc (length ?f)])" using that by (simp add: f) arith
    ultimately show ?thesis by (auto simp: scopes_def Let_def)
  qed
  then show ?thesis by (auto simp: scopes_def Let_def)
qed

lemma find_redundant:
  assumes "set ys \<subseteq> set xs"
  shows "find p (xs @ ys) = find p xs"
proof (cases "find p xs")
  case None
  with assms have "find p ys = None" by (auto simp: find_None_iff)
  with None show ?thesis by (simp add: find_append)
qed (simp add: find_append)

section \<open>Schemas up to descriptions\<close>

primrec erase :: "JSONSchemaProps \<Rightarrow> JSONSchemaProps" and erase_ptr :: "schema_ptr \<Rightarrow> schema_ptr" where
  "erase (JSONSchemaProps t f d ps ap it en x rq mi ma) =
     JSONSchemaProps t f [] (map (map_prod id erase) ps) (map_option erase_ptr ap) (map_option erase_ptr it) en x rq mi ma"
| "erase_ptr (Fresh s) = Fresh (erase s)"
| "erase_ptr (Shared n) = Shared n"

definition erase_props :: "(string \<times> JSONSchemaProps) list \<Rightarrow> (string \<times> JSONSchemaProps) list" where
  "erase_props ps = map (map_prod id erase) ps"

lemma erase_JSONSchemaProps [simp]:
  "erase (JSONSchemaProps t f d ps ap it en x rq mi ma) =
     JSONSchemaProps t f [] (erase_props ps) (map_option erase_ptr ap) (map_option erase_ptr it) en x rq mi ma"
  by (simp add: erase_props_def)

declare erase.simps [simp del]

lemma erase_props_Nil [simp]: "erase_props [] = []"
  by (simp add: erase_props_def)

lemma erase_props_set: "erase_props (gomap_set k x ps) = gomap_set k (erase x) (erase_props ps)"
  by (induction ps) (auto simp: erase_props_def)

lemma length_erase_props [simp]: "length (erase_props ps) = length ps"
  by (simp add: erase_props_def)

lemma erase_set_Description [simp]: "erase (set_Description c s) = erase s"
  by (cases s) simp

text \<open>Two stores that differ in descriptions only.\<close>

definition similar :: "schema_store \<Rightarrow> schema_store \<Rightarrow> bool" where
  "similar wk wk' \<longleftrightarrow> (\<forall>n. map_option erase (gomap_get wk n) = map_option erase (gomap_get wk' n))"

lemma similar_refl [simp]: "similar wk wk"
  by (simp add: similar_def)

lemma similar_sym: "similar wk wk' \<Longrightarrow> similar wk' wk"
  by (simp add: similar_def)

lemma similar_trans: "similar a b \<Longrightarrow> similar b c \<Longrightarrow> similar a c"
  by (simp add: similar_def)

lemma similar_has: "similar wk wk' \<Longrightarrow> gomap_has wk n \<longleftrightarrow> gomap_has wk' n"
  by (metis option.map_disc_iff similar_def)

lemma similar_load:
  assumes "similar wk wk'" and "erase_ptr p = erase_ptr p'"
  shows "erase (load_ptr p wk) = erase (load_ptr p' wk')"
proof (cases p)
  case (Fresh s)
  with assms(2) show ?thesis by (cases p') (simp_all add: load_ptr_def)
next
  case (Shared n)
  with assms(2) have "p' = Shared n" by (cases p') simp_all
  moreover from assms(1) have "map_option erase (gomap_get wk n) = map_option erase (gomap_get wk' n)"
    by (simp add: similar_def)
  ultimately show ?thesis
    using Shared by (auto simp: load_ptr_def split: option.splits)
qed

lemma write_Description_similar: "similar wk (snd (write_Description c p wk))"
  by (auto simp: write_Description_def similar_def update_conv' split: schema_ptr.split option.split)

lemma write_Description_erase [simp]: "erase_ptr (fst (write_Description c p wk)) = erase_ptr p"
  by (cases p) (simp_all add: write_Description_def)

text \<open>The schema pointer of one field, before its own comment is written.\<close>

definition fieldSchema ::
  "Field \<Rightarrow> Message \<Rightarrow> Registry \<Rightarrow> (string, bool) gomap \<Rightarrow> schema_store \<Rightarrow> schema_ptr \<times> schema_store" where
  "fieldSchema field msg reg visited wk =
     (if Field_Type field = ''map'' then
        (let (valSchema, wk0) = resolveType (Field_MapValue field) False (Message_Package msg)
               (Message_FullName msg) reg (cloneVisited visited) wk
         in (Fresh (mapOf valSchema), wk0))
      else resolveType (Field_Type field) (Field_Repeated field) (Message_Package msg)
             (Message_FullName msg) reg (cloneVisited visited) wk)"

definition describe :: "string \<Rightarrow> schema_ptr \<times> schema_store \<Rightarrow> schema_ptr \<times> schema_store" where
  "describe c r = (if c \<noteq> [] then write_Description c (fst r) (snd r) else r)"

definition finishField :: "Field \<Rightarrow> Message \<Rightarrow> Registry \<Rightarrow> (string, bool) gomap \<Rightarrow> schema_store \<Rightarrow> schema_ptr \<times> schema_store" where
  "finishField field msg reg visited wk = describe (Field_Comment field) (fieldSchema field msg reg visited wk)"

lemma msgFields_Cons:
  "msgFields (field # rest) msg reg visited ps wk =
     (let r = finishField field msg reg visited wk in
      msgFields rest msg reg visited (gomap_set (Field_Name field) (load_ptr (fst r) (snd r)) ps) (snd r))"
  by (simp add: msgFields.simps(2) finishField_def fieldSchema_def describe_def split_def Let_def)

lemma describe_similar: "similar (snd r) (snd (describe c r))"
  by (simp add: describe_def write_Description_similar)

lemma describe_erase [simp]: "erase_ptr (fst (describe c r)) = erase_ptr (fst r)"
  by (simp add: describe_def)

text \<open>Computation induction over the four functions, with the loop over the fields in this form.\<close>

lemma conversion_induct [case_names schema no_fields field type message]:
  assumes "\<And>msg reg v wk. Pf (Message_Fields msg) msg reg v [] wk \<Longrightarrow> Pm msg reg v wk"
    and "\<And>msg reg v ps wk. Pf [] msg reg v ps wk"
    and field: "\<And>f rest msg reg v ps wk.
      (Field_Type f = ''map'' \<Longrightarrow>
        Pt (Field_MapValue f) False (Message_Package msg) (Message_FullName msg) reg (cloneVisited v) wk) \<Longrightarrow>
      (Field_Type f \<noteq> ''map'' \<Longrightarrow>
        Pt (Field_Type f) (Field_Repeated f) (Message_Package msg) (Message_FullName msg) reg (cloneVisited v) wk) \<Longrightarrow>
      Pf rest msg reg v
        (gomap_set (Field_Name f) (load_ptr (fst (finishField f msg reg v wk)) (snd (finishField f msg reg v wk))) ps)
        (snd (finishField f msg reg v wk)) \<Longrightarrow>
      Pf (f # rest) msg reg v ps wk"
    and type: "\<And>t rep pkg fqn reg v wk. (scalarSchema t = None \<Longrightarrow> Pr t pkg fqn reg v wk) \<Longrightarrow> Pt t rep pkg fqn reg v wk"
    and message: "\<And>t pkg fqn reg v wk.
      (\<And>name m. \<not> gomap_has wk (TrimPrefix t ''.'') \<Longrightarrow> name = resolveFQN (TrimPrefix t ''.'') pkg fqn reg \<Longrightarrow>
        gomap_get v name \<noteq> Some True \<Longrightarrow> gomap_get (Messages reg) name = Some m \<Longrightarrow>
        Pm m reg (gomap_set name True v) wk) \<Longrightarrow> Pr t pkg fqn reg v wk"
  shows "Pm msg reg v wk" and "Pf fs msg reg v ps wk"
    and "Pt t rep pkg fqn reg v wk" and "Pr t pkg fqn reg v wk"
proof (induction msg reg v wk and fs msg reg v ps wk and t rep pkg fqn reg v wk and t pkg fqn reg v wk
    rule: msgSchema_msgFields_resolveType_resolveMessageOrEnum.induct)
  case (3 f rest msg reg v ps wk)
  let ?r = "fieldSchema f msg reg v wk"
  show ?case
    by (rule field, rule 3(1), assumption, rule 3(2), assumption,
        rule 3(3) [OF refl, of "fst ?r" "snd ?r" "finishField f msg reg v wk"])
      (simp_all add: fieldSchema_def finishField_def describe_def)
next
  case (4 t rep pkg fqn reg v wk)
  show ?case by (rule type) (rule 4)
next
  case (5 t pkg fqn reg v wk)
  show ?case by (rule message, rule 5) auto
qed (use assms(1,2) in blast)+

text \<open>Conversion changes the store in descriptions only.\<close>

lemma conversion_similar:
  "similar wk (snd (msgSchema msg reg v wk))"
  "similar wk (snd (msgFields fs msg reg v ps wk))"
  "similar wk (snd (resolveType t rep pkg fqn reg v wk))"
  "similar wk (snd (resolveMessageOrEnum t pkg fqn reg v wk))"
proof (induction msg reg v wk and fs msg reg v ps wk and t rep pkg fqn reg v wk and t pkg fqn reg v wk
    rule: conversion_induct)
  case (field f rest msg reg v ps wk)
  have f: "similar wk (snd (fieldSchema f msg reg v wk))"
    using field(1,2) by (simp add: fieldSchema_def split_def Let_def)
  have "similar wk (snd (finishField f msg reg v wk))"
    unfolding finishField_def by (rule similar_trans [OF f describe_similar])
  from similar_trans [OF this field(3)] show ?case by (simp add: msgFields_Cons Let_def)
qed (simp_all add: msgSchema.simps msgFields.simps(1) resolveType.simps resolveMessageOrEnum.simps split_def Let_def
    split: option.split)

lemmas conversion_simps =
  msgSchema.simps msgFields.simps(1) resolveType.simps resolveMessageOrEnum.simps split_def Let_def

lemma finishField_similar: "similar wk (snd (finishField f msg reg v wk))"
proof -
  have "similar wk (snd (fieldSchema f msg reg v wk))"
    by (simp add: fieldSchema_def conversion_similar split_def Let_def)
  then show ?thesis unfolding finishField_def by (rule similar_trans [OF _ describe_similar])
qed

lemma erase_constructors [simp]:
  "erase (mapOf p) = mapOf (erase_ptr p)" "erase (arrayOf p) = arrayOf (erase_ptr p)"
  by (simp_all add: mapOf_def arrayOf_def)

text \<open>Up to descriptions, what a conversion returns does not depend on earlier conversions.\<close>

lemma conversion_erase:
  "similar wk wk' \<Longrightarrow> erase (fst (msgSchema msg reg v wk)) = erase (fst (msgSchema msg reg v wk'))"
  "similar wk wk' \<Longrightarrow> erase_props ps = erase_props ps' \<Longrightarrow>
     erase_props (fst (msgFields fs msg reg v ps wk)) = erase_props (fst (msgFields fs msg reg v ps' wk'))"
  "similar wk wk' \<Longrightarrow> erase_ptr (fst (resolveType t rep pkg fqn reg v wk)) = erase_ptr (fst (resolveType t rep pkg fqn reg v wk'))"
  "similar wk wk' \<Longrightarrow>
     erase_ptr (fst (resolveMessageOrEnum t pkg fqn reg v wk)) = erase_ptr (fst (resolveMessageOrEnum t pkg fqn reg v wk'))"
proof (induction msg reg v wk and fs msg reg v ps wk and t rep pkg fqn reg v wk and t pkg fqn reg v wk
    arbitrary: wk' and ps' wk' and wk' and wk' rule: conversion_induct)
  case (schema msg reg v wk)
  note eq = schema.IH [OF schema.prems refl]
  have "length (fst (msgFields (Message_Fields msg) msg reg v [] wk)) =
      length (fst (msgFields (Message_Fields msg) msg reg v [] wk'))"
    using arg_cong [OF eq, of length] by simp
  with eq show ?case by (simp only: msgSchema.simps split_def Let_def fst_conv erase_JSONSchemaProps)
next
  case (no_fields msg reg v ps wk)
  then show ?case by (simp add: conversion_simps)
next
  case (field f rest msg reg v ps wk)
  let ?r = "finishField f msg reg v wk" and ?r' = "finishField f msg reg v wk'"
  have ptr: "erase_ptr (fst ?r) = erase_ptr (fst ?r')"
    using field.IH(1,2) [OF _ field.prems(1)] by (auto simp: finishField_def fieldSchema_def split_def Let_def)
  have sim: "similar (snd ?r) (snd ?r')"
    using finishField_similar field.prems(1) by (meson similar_sym similar_trans)
  from field.IH(3) [OF sim] field.prems(2) similar_load [OF sim ptr] show ?case
    by (simp add: msgFields_Cons Let_def erase_props_set)
next
  case (type t rep pkg fqn reg v wk)
  then show ?case by (simp add: conversion_simps split: option.split)
next
  case (message t pkg fqn reg v wk)
  let ?t = "TrimPrefix t ''.''"
  have has: "gomap_has wk ?t \<longleftrightarrow> gomap_has wk' ?t" using message.prems by (rule similar_has)
  show ?case
  proof (cases "gomap_has wk ?t")
    case True
    with has show ?thesis by (simp add: conversion_simps)
  next
    case False
    with has message.IH [OF False refl _ _ message.prems] show ?thesis
      by (simp add: conversion_simps split: option.split)
  qed
qed

section \<open>Depth\<close>

primrec depth :: "JSONSchemaProps \<Rightarrow> nat" and ptr_depth :: "schema_ptr \<Rightarrow> nat" where
  "depth (JSONSchemaProps t f d ps ap it en x rq mi ma) =
     Suc (max (fold max (map snd (map (map_prod id depth) ps)) 0)
       (max (case map_option ptr_depth ap of None \<Rightarrow> 0 | Some n \<Rightarrow> n)
            (case map_option ptr_depth it of None \<Rightarrow> 0 | Some n \<Rightarrow> n)))"
| "ptr_depth (Fresh s) = depth s"
| "ptr_depth (Shared n) = 2"

lemma fold_max_le: "fold max xs (a :: nat) \<le> n \<longleftrightarrow> a \<le> n \<and> (\<forall>x \<in> set xs. x \<le> n)"
  by (induction xs arbitrary: a) auto

lemma depth_le:
  "depth (JSONSchemaProps t f d ps ap it en x rq mi ma) \<le> Suc n \<longleftrightarrow>
     (\<forall>p \<in> set ps. depth (snd p) \<le> n) \<and> (\<forall>p. ap = Some p \<longrightarrow> ptr_depth p \<le> n) \<and> (\<forall>p. it = Some p \<longrightarrow> ptr_depth p \<le> n)"
  by (auto simp: fold_max_le split: option.splits)

declare depth.simps [simp del]

lemma depth_constructors [simp]:
  "depth (freeForm t) = 1" "depth (props t f) = 1" "depth (enumOf vs) = 1"
  "depth (mapOf p) = Suc (ptr_depth p)" "depth (arrayOf p) = Suc (ptr_depth p)"
  by (simp_all add: freeForm_def props_def enumOf_def mapOf_def arrayOf_def depth.simps)

lemma if_Some_eq: "(if b then Some x else y) = Some s \<longleftrightarrow> b \<and> s = x \<or> \<not> b \<and> y = Some s"
  by auto

lemma scalarSchema_depth: "scalarSchema t = Some s \<Longrightarrow> depth s = 1"
  unfolding scalarSchema_def if_Some_eq by (elim disjE conjE) (simp_all only: depth_constructors option.distinct)

lemma depth_erase: "depth (erase s) = depth s" "ptr_depth (erase_ptr p) = ptr_depth p"
proof (induction s and p)
  case (JSONSchemaProps t f d ps ap it en x rq mi ma)
  have "map snd (map (map_prod id depth) (erase_props ps)) = map snd (map (map_prod id depth) ps)"
    using JSONSchemaProps(1) by (auto simp: erase_props_def snds.simps)
  moreover have "map_option ptr_depth (map_option erase_ptr o') = map_option ptr_depth o'" if "o' = ap \<or> o' = it" for o'
    using JSONSchemaProps(2,3) that by (cases o') auto
  ultimately show ?case by (simp only: erase_JSONSchemaProps depth.simps) simp
qed simp_all

text \<open>The entries of the store have at most one schema below them.\<close>

definition shallow :: "schema_store \<Rightarrow> bool" where
  "shallow wk \<longleftrightarrow> (\<forall>n s. gomap_get wk n = Some s \<longrightarrow> depth s \<le> 2)"

lemma shallow_similar:
  assumes "similar wk wk'" and "shallow wk"
  shows "shallow wk'"
  unfolding shallow_def
proof (intro allI impI)
  fix n s assume "gomap_get wk' n = Some s"
  with assms(1) obtain s' where "gomap_get wk n = Some s'" "erase s' = erase s"
    unfolding similar_def by (metis map_option_eq_Some option.simps(9))
  with assms(2) show "depth s \<le> 2" by (metis depth_erase(1) shallow_def)
qed

lemma wellKnownSchemas_shallow: "shallow wellKnownSchemas"
  by (auto simp: shallow_def wellKnownSchemas_def split: if_splits)

lemma load_ptr_depth: "shallow wk \<Longrightarrow> ptr_depth p \<le> n \<Longrightarrow> depth (load_ptr p wk) \<le> n"
  by (cases p) (auto simp: load_ptr_def shallow_def split: option.split dest: order_trans)

lemma gomap_set_values: "\<forall>p \<in> set ps. Q (snd p) \<Longrightarrow> Q x \<Longrightarrow> \<forall>p \<in> set (gomap_set k x ps). Q (snd p)"
  by (induction ps) auto

lemma finishField_ptr_depth [simp]:
  "ptr_depth (fst (finishField f msg reg v wk)) = ptr_depth (fst (fieldSchema f msg reg v wk))"
  using depth_erase(2) describe_erase by (metis finishField_def)

lemma conversion_depth:
  "shallow wk \<Longrightarrow> depth (fst (msgSchema msg reg v wk)) \<le> 2 * unvisited reg v + 4"
  "shallow wk \<Longrightarrow> \<forall>p \<in> set ps. depth (snd p) \<le> 2 * unvisited reg v + 3 \<Longrightarrow>
     \<forall>p \<in> set (fst (msgFields fs msg reg v ps wk)). depth (snd p) \<le> 2 * unvisited reg v + 3"
  "shallow wk \<Longrightarrow> ptr_depth (fst (resolveType t rep pkg fqn reg v wk)) \<le> 2 * unvisited reg v + (if rep then 3 else 2)"
  "shallow wk \<Longrightarrow> ptr_depth (fst (resolveMessageOrEnum t pkg fqn reg v wk)) \<le> 2 * unvisited reg v + 2"
proof (induction msg reg v wk and fs msg reg v ps wk and t rep pkg fqn reg v wk and t pkg fqn reg v wk
    rule: conversion_induct)
  case (schema msg reg v wk)
  then have "depth (fst (msgSchema msg reg v wk)) \<le> Suc (2 * unvisited reg v + 3)"
    by (simp only: msgSchema.simps split_def Let_def fst_conv depth_le) simp
  then show ?case by simp
next
  case (no_fields msg reg v ps wk)
  then show ?case by (simp add: conversion_simps)
next
  case (field f rest msg reg v ps wk)
  let ?r = "finishField f msg reg v wk" and ?n = "2 * unvisited reg v + 3"
  have sh: "shallow (snd ?r)" using finishField_similar field.prems(1) by (rule shallow_similar)
  have "ptr_depth (fst (fieldSchema f msg reg v wk)) \<le> ?n"
    using field.IH(1,2) field.prems(1) unvisited_clone [of reg v]
    by (auto simp: fieldSchema_def split_def Let_def split: if_splits)
  then have "depth (load_ptr (fst ?r) (snd ?r)) \<le> ?n" by (intro load_ptr_depth [OF sh]) simp
  from field.IH(3) [OF sh gomap_set_values [OF field.prems(2) this]] show ?case by (simp add: msgFields_Cons Let_def)
next
  case (type t rep pkg fqn reg v wk)
  then show ?case
    by (cases "scalarSchema t") (simp_all add: resolveType.simps split_def Let_def scalarSchema_depth)
next
  case (message t pkg fqn reg v wk)
  let ?fqn = "resolveFQN (TrimPrefix t ''.'') pkg fqn reg"
  show ?case
  proof (cases "gomap_has wk (TrimPrefix t ''.'') \<or> gomap_get v ?fqn = Some True \<or> gomap_get (Messages reg) ?fqn = None")
    case True
    then show ?thesis by (auto simp: conversion_simps split: option.split)
  next
    case False
    then obtain m where m: "\<not> gomap_has wk (TrimPrefix t ''.'')" "gomap_get v ?fqn \<noteq> Some True"
        "gomap_get (Messages reg) ?fqn = Some m" by auto
    have "depth (fst (msgSchema m reg (gomap_set ?fqn True v) wk)) \<le> 2 * unvisited reg (gomap_set ?fqn True v) + 4"
      by (rule message.IH [OF m(1) refl m(2,3) message.prems])
    with unvisited_visit [OF m(3,2)] m show ?thesis by (simp add: resolveMessageOrEnum.simps split_def Let_def)
  qed
qed

section \<open>The properties of a message\<close>

lemma msgFields_keys:
  "fst ` set (fst (msgFields fs msg reg v ps wk)) = fst ` set ps \<union> Field_Name ` set fs"
proof (induction fs arbitrary: ps wk)
  case Nil
  then show ?case by (simp add: msgFields.simps)
next
  case (Cons f rest)
  then show ?case by (auto simp: msgFields_Cons Let_def dom_update)
qed

lemma msgFields_get_other:
  "k \<notin> Field_Name ` set fs \<Longrightarrow> gomap_get (fst (msgFields fs msg reg v ps wk)) k = gomap_get ps k"
proof (induction fs arbitrary: ps wk)
  case Nil
  then show ?case by (simp add: msgFields.simps)
next
  case (Cons f rest)
  then show ?case by (simp add: msgFields_Cons Let_def update_conv')
qed

text \<open>The property of a field is what its pointer shows when the field is finished.\<close>

lemma msgFields_get:
  assumes "distinct (map Field_Name fs)" and "f \<in> set fs"
  obtains wk' where "similar wk wk'"
    and "gomap_get (fst (msgFields fs msg reg v ps wk)) (Field_Name f) =
      Some (load_ptr (fst (finishField f msg reg v wk')) (snd (finishField f msg reg v wk')))"
  using assms
proof (induction fs arbitrary: ps wk thesis)
  case Nil
  then show ?case by simp
next
  case (Cons g rest)
  let ?r = "finishField g msg reg v wk"
  show ?case
  proof (cases "g = f")
    case True
    with Cons.prems(2) have "Field_Name f \<notin> Field_Name ` set rest" by auto
    with True Cons.prems(1) [of wk] show ?thesis
      by (simp add: msgFields_Cons Let_def msgFields_get_other update_conv')
  next
    case False
    with Cons.prems obtain wk' where "similar (snd ?r) wk'"
      "gomap_get (fst (msgFields rest msg reg v
          (gomap_set (Field_Name g) (load_ptr (fst ?r) (snd ?r)) ps) (snd ?r))) (Field_Name f) =
        Some (load_ptr (fst (finishField f msg reg v wk')) (snd (finishField f msg reg v wk')))"
      by (auto elim: Cons.IH)
    moreover from similar_trans [OF finishField_similar this(1)] have "similar wk wk'" .
    ultimately show ?thesis using Cons.prems(1) [of wk'] by (simp add: msgFields_Cons Let_def)
  qed
qed

lemma Description_set [simp]: "Description (set_Description c s) = c"
  by (cases s) simp

lemma write_Description_load:
  "(case p of Shared n \<Rightarrow> gomap_has wk n | Fresh s \<Rightarrow> True) \<Longrightarrow>
     Description (load_ptr (fst (write_Description c p wk)) (snd (write_Description c p wk))) = c"
  by (auto simp: write_Description_def load_ptr_def update_conv' split: schema_ptr.splits option.splits)

definition valid_ptr :: "schema_ptr \<Rightarrow> schema_store \<Rightarrow> bool" where
  "valid_ptr p wk \<longleftrightarrow> (case p of Shared n \<Rightarrow> gomap_has wk n | Fresh s \<Rightarrow> True)"

lemma resolve_valid:
  "valid_ptr (fst (resolveMessageOrEnum t pkg fqn reg v wk)) (snd (resolveMessageOrEnum t pkg fqn reg v wk))"
  by (auto simp: conversion_simps valid_ptr_def split: option.split)

lemma resolveType_valid:
  "valid_ptr (fst (resolveType t rep pkg fqn reg v wk)) (snd (resolveType t rep pkg fqn reg v wk))"
  using resolve_valid by (auto simp: resolveType.simps valid_ptr_def split_def Let_def split: option.split)

lemma fieldSchema_valid:
  "valid_ptr (fst (fieldSchema f msg reg v wk)) (snd (fieldSchema f msg reg v wk))"
  using resolveType_valid by (auto simp: fieldSchema_def valid_ptr_def split_def Let_def)

lemma finishField_Description:
  "Field_Comment f \<noteq> [] \<Longrightarrow>
     Description (load_ptr (fst (finishField f msg reg v wk)) (snd (finishField f msg reg v wk))) = Field_Comment f"
  using fieldSchema_valid [of f msg reg v wk]
  by (simp add: finishField_def describe_def valid_ptr_def write_Description_load)

section \<open>Theorems\<close>

definition convert_all :: "Registry \<Rightarrow> Message list \<Rightarrow> schema_store \<Rightarrow> schema_store" where
  "convert_all reg ms wk = fold (\<lambda>m w. snd (MessageToSchema m reg w)) ms wk"

lemma convert_all_similar: "similar wk (convert_all reg ms wk)"
proof (induction ms arbitrary: wk)
  case (Cons m ms)
  from similar_trans [OF conversion_similar(1) Cons] show ?case by (simp add: convert_all_def MessageToSchema_def)
qed (simp add: convert_all_def)

text \<open>
  C34. The schema of a message does not depend on what was converted before it, up to descriptions: although
  conversions share and change the schemas of the well-known types, after any earlier
  conversions a message gets the same schema as at first, and the shared schemas have
  changed in their descriptions only.
\<close>

theorem MessageToSchema_history_independent:
  "erase (fst (MessageToSchema msg reg (convert_all reg earlier wellKnownSchemas))) =
     erase (fst (MessageToSchema msg reg wellKnownSchemas)) \<and>
   similar wellKnownSchemas (convert_all reg earlier wellKnownSchemas)"
  using convert_all_similar [of wellKnownSchemas reg earlier] conversion_erase(1) similar_sym
  by (metis MessageToSchema_def)

text \<open>
  C35. The conversion ends on every registry, cyclic ones included, and the schema it returns is at most
  \<open>2 n + 4\<close> deep for \<open>n\<close> messages: every message is unfolded at most once on each path.
\<close>

theorem MessageToSchema_depth:
  "depth (fst (MessageToSchema msg reg (convert_all reg earlier wellKnownSchemas))) \<le>
     2 * card (dom (gomap_get (Messages reg))) + 4"
proof -
  have "shallow (convert_all reg earlier wellKnownSchemas)"
    by (rule shallow_similar [OF convert_all_similar wellKnownSchemas_shallow])
  from conversion_depth(1) [OF this, of msg reg "[]"] show ?thesis
    by (simp add: MessageToSchema_def unvisited_def dom_def)
qed

text \<open>
  The schema of a message is an object schema with the message's comment, whose properties are exactly
  its field names; it accepts unknown fields if and only if the message has no fields.
\<close>

lemma MessageToSchema_object:
  "Type (fst (MessageToSchema msg reg wk)) = ''object'' \<and>
   Description (fst (MessageToSchema msg reg wk)) = Message_Comment msg \<and>
   fst ` set (Properties (fst (MessageToSchema msg reg wk))) = Field_Name ` set (Message_Fields msg) \<and>
   (XPreserveUnknownFields (fst (MessageToSchema msg reg wk)) = Some True \<longleftrightarrow> Message_Fields msg = [])"
proof -
  let ?ps = "fst (msgFields (Message_Fields msg) msg reg [] [] wk)"
  have keys: "fst ` set ?ps = Field_Name ` set (Message_Fields msg)"
    using msgFields_keys [of "Message_Fields msg" msg reg "[]" "[]" wk] by simp
  then have "?ps = [] \<longleftrightarrow> Message_Fields msg = []" by (metis image_is_empty set_empty)
  with keys show ?thesis by (simp add: MessageToSchema_def msgSchema.simps split_def Let_def)
qed

text \<open>
  C36. Up to descriptions the property of each field is the schema of the field's own type, whatever the other
  fields of the message are (field names are unique in a proto message).
\<close>

theorem MessageToSchema_field:
  assumes "distinct (map Field_Name (Message_Fields msg))" and "f \<in> set (Message_Fields msg)"
  shows "map_option erase (gomap_get (Properties (fst (MessageToSchema msg reg wk))) (Field_Name f)) =
    Some (erase (load_ptr (fst (fieldSchema f msg reg [] wk)) wk))"
proof -
  obtain wk' where wk': "similar wk wk'"
    and get: "gomap_get (fst (msgFields (Message_Fields msg) msg reg [] [] wk)) (Field_Name f) =
      Some (load_ptr (fst (finishField f msg reg [] wk')) (snd (finishField f msg reg [] wk')))"
    using msgFields_get [OF assms] by blast
  have "erase_ptr (fst (finishField f msg reg [] wk')) = erase_ptr (fst (fieldSchema f msg reg [] wk))"
    using conversion_erase(3) [OF wk'] by (auto simp: finishField_def fieldSchema_def split_def Let_def)
  moreover have "similar (snd (finishField f msg reg [] wk')) wk"
    using wk' finishField_similar by (meson similar_sym similar_trans)
  ultimately show ?thesis
    by (simp add: MessageToSchema_def msgSchema.simps split_def Let_def get similar_load)
qed

text \<open>
  A field that has a comment is described by it, also when its type is a shared well-known one.
\<close>

theorem MessageToSchema_described:
  assumes "distinct (map Field_Name (Message_Fields msg))" and "f \<in> set (Message_Fields msg)"
    and "Field_Comment f \<noteq> []"
  shows "\<exists>s. gomap_get (Properties (fst (MessageToSchema msg reg wk))) (Field_Name f) = Some s \<and>
    Description s = Field_Comment f"
proof -
  obtain wk' where "gomap_get (fst (msgFields (Message_Fields msg) msg reg [] [] wk)) (Field_Name f) =
      Some (load_ptr (fst (finishField f msg reg [] wk')) (snd (finishField f msg reg [] wk')))"
    using msgFields_get [OF assms(1,2)] by blast
  with assms(3) show ?thesis
    by (simp add: MessageToSchema_def msgSchema.simps split_def Let_def finishField_Description)
qed

text \<open>
  Fields whose pointer is the shared entry of a well-known type, and fields whose conversion leads to
  no other message.
\<close>

definition shared_field :: "string \<Rightarrow> Field \<Rightarrow> bool" where
  "shared_field t f \<longleftrightarrow> Field_Type f \<noteq> ''map'' \<and> \<not> Field_Repeated f \<and> scalarSchema (Field_Type f) = None \<and>
     TrimPrefix (Field_Type f) ''.'' = t"

definition element_type :: "Field \<Rightarrow> string" where
  "element_type f = (if Field_Type f = ''map'' then Field_MapValue f else Field_Type f)"

definition flat_field :: "Message \<Rightarrow> Registry \<Rightarrow> schema_store \<Rightarrow> Field \<Rightarrow> bool" where
  "flat_field msg reg wk f \<longleftrightarrow> scalarSchema (element_type f) \<noteq> None \<or> gomap_has wk (TrimPrefix (element_type f) ''.'') \<or>
     gomap_get (Messages reg) (resolveFQN (TrimPrefix (element_type f) ''.'') (Message_Package msg) (Message_FullName msg) reg) = None"

lemma msgFields_append:
  "msgFields (fs @ gs) msg reg v ps wk =
     (let r = msgFields fs msg reg v ps wk in msgFields gs msg reg v (fst r) (snd r))"
  by (induction fs arbitrary: ps wk) (simp_all add: msgFields_Cons msgFields.simps(1) Let_def)

lemma shared_finishField:
  assumes "shared_field t f" and "gomap_has wk t"
  shows "finishField f msg reg v wk = describe (Field_Comment f) (Shared t, wk)"
  using assms by (simp add: finishField_def fieldSchema_def shared_field_def resolveType.simps resolveMessageOrEnum.simps Let_def)

text \<open>A flat field changes no shared schema but that of its own type, and that only by its comment.\<close>

lemma flat_resolveType:
  assumes "scalarSchema t \<noteq> None \<or> gomap_has wk (TrimPrefix t ''.'') \<or>
    gomap_get (Messages reg) (resolveFQN (TrimPrefix t ''.'') pkg fqn reg) = None"
  shows "snd (resolveType t rep pkg fqn reg v wk) = wk"
    and "fst (resolveType t rep pkg fqn reg v wk) = Shared n \<Longrightarrow> \<not> rep \<and> scalarSchema t = None \<and> n = TrimPrefix t ''.''"
  using assms by (auto simp: conversion_simps split: option.splits if_splits)

lemma flat_finishField:
  assumes "flat_field msg reg wk f" and "\<not> (shared_field t f \<and> Field_Comment f \<noteq> [])"
  shows "gomap_get (snd (finishField f msg reg v wk)) t = gomap_get wk t"
proof -
  let ?r = "fieldSchema f msg reg v wk"
  have store: "snd ?r = wk"
    using assms(1) by (auto simp: fieldSchema_def flat_field_def element_type_def flat_resolveType(1) split_def Let_def)
  have "shared_field t f" if "fst ?r = Shared t"
  proof -
    from that have single: "Field_Type f \<noteq> ''map''" by (auto simp: fieldSchema_def split_def Let_def)
    with that have "fst (resolveType (Field_Type f) (Field_Repeated f) (Message_Package msg) (Message_FullName msg) reg (cloneVisited v) wk) = Shared t"
      by (simp add: fieldSchema_def)
    from flat_resolveType(2) [OF _ this] assms(1) single show ?thesis
      by (simp add: flat_field_def element_type_def shared_field_def)
  qed
  with assms(2) store show ?thesis
    by (auto simp: finishField_def describe_def write_Description_def update_conv' split: schema_ptr.split option.split)
qed

lemma flat_similar: "similar wk wk' \<Longrightarrow> flat_field msg reg wk f \<Longrightarrow> flat_field msg reg wk' f"
  unfolding flat_field_def using similar_has [of wk wk' "TrimPrefix (element_type f) ''.''"] by metis

lemma flat_msgFields:
  assumes "\<forall>f \<in> set fs. flat_field msg reg wk f \<and> \<not> (shared_field t f \<and> Field_Comment f \<noteq> [])"
  shows "gomap_get (snd (msgFields fs msg reg v ps wk)) t = gomap_get wk t"
  using assms
proof (induction fs arbitrary: ps wk)
  case (Cons f fs)
  let ?wk = "snd (finishField f msg reg v wk)"
  have "\<forall>g \<in> set fs. flat_field msg reg ?wk g \<and> \<not> (shared_field t g \<and> Field_Comment g \<noteq> [])"
    using Cons.prems flat_similar [OF finishField_similar] by auto
  with Cons flat_finishField [of msg reg wk f t v] show ?case by (simp add: msgFields_Cons Let_def)
qed (simp add: msgFields.simps)

text \<open>
  C37. A field without a comment does not stay without a description. In a message, let a field with a comment
  have a well-known type, not repeated, and let a later field have the same type, also not repeated, and no comment. If the
  fields between them lead to no other message and none of them has that type, not repeated, with a comment of its own, then the
  property of the later field is the schema of the type with the comment of the earlier field as
  its description, written through the shared schema. What comes before the earlier and after the later field does not matter.
\<close>

theorem MessageToSchema_description_leak:
  assumes "gomap_get wk t = Some s" and "Message_Fields msg = as @ f # bs @ g # cs"
    and "distinct (map Field_Name (Message_Fields msg))"
    and "shared_field t f" and "Field_Comment f \<noteq> []" and "shared_field t g" and "Field_Comment g = []"
    and "\<forall>b \<in> set bs. flat_field msg reg wk b \<and> \<not> (shared_field t b \<and> Field_Comment b \<noteq> [])"
  shows "\<exists>p. gomap_get (Properties (fst (MessageToSchema msg reg wk))) (Field_Name g) = Some p \<and>
    Description p = Field_Comment f \<and> erase p = erase s"
proof -
  define r0 where "r0 = msgFields as msg reg [] [] wk"
  define r1 where "r1 = finishField f msg reg [] (snd r0)"
  define ps1 where "ps1 = gomap_set (Field_Name f) (load_ptr (fst r1) (snd r1)) (fst r0)"
  define r2 where "r2 = msgFields bs msg reg [] ps1 (snd r1)"
  have sim0: "similar wk (snd r0)" by (simp add: r0_def conversion_similar)
  then obtain s0 where s0: "gomap_get (snd r0) t = Some s0" "erase s0 = erase s"
    using assms(1) unfolding similar_def by (metis map_option_eq_Some option.simps(9))
  then have "gomap_get (snd r1) t = Some (set_Description (Field_Comment f) s0)"
    using assms(5) by (simp add: r1_def shared_finishField [OF assms(4)] describe_def write_Description_def update_conv')
  moreover have "similar wk (snd r1)" unfolding r1_def by (rule similar_trans [OF sim0 finishField_similar])
  then have "\<forall>b \<in> set bs. flat_field msg reg (snd r1) b \<and> \<not> (shared_field t b \<and> Field_Comment b \<noteq> [])"
    using assms(8) flat_similar by blast
  ultimately have s2: "gomap_get (snd r2) t = Some (set_Description (Field_Comment f) s0)"
    by (simp add: r2_def flat_msgFields)
  then have g: "finishField g msg reg [] (snd r2) = (Shared t, snd r2)"
    using assms(7) by (simp add: shared_finishField [OF assms(6)] describe_def)
  have later: "Field_Name g \<notin> Field_Name ` set cs" using assms(2,3) by auto
  have "fst (msgFields (Message_Fields msg) msg reg [] [] wk) =
      fst (msgFields cs msg reg [] (gomap_set (Field_Name g) (load_ptr (Shared t) (snd r2)) (fst r2)) (snd r2))"
    by (simp add: assms(2) msgFields_append msgFields_Cons Let_def r0_def [symmetric] r1_def [symmetric] ps1_def [symmetric]
        r2_def [symmetric] g)
  then have "gomap_get (fst (msgFields (Message_Fields msg) msg reg [] [] wk)) (Field_Name g) =
      Some (set_Description (Field_Comment f) s0)"
    by (simp add: msgFields_get_other [OF later] update_conv' load_ptr_def s2)
  with s0(2) show ?thesis by (simp add: MessageToSchema_def msgSchema.simps split_def Let_def)
qed

text \<open>A message with two durations, the first of them commented, and a scalar between them.\<close>

definition example_field :: "string \<Rightarrow> string \<Rightarrow> string \<Rightarrow> Field" where
  "example_field name type comment = \<lparr>Field_Name = name, Field_Type = type, Field_Repeated = False,
     Field_MapKey = [], Field_MapValue = [], Field_Comment = comment\<rparr>"

definition example_message :: Message where
  "example_message = \<lparr>Message_FullName = ''p.M'', Message_Name = ''M'', Message_Package = ''p'',
     Message_Fields = [example_field ''connect'' ''google.protobuf.Duration'' ''Connect timeout.'',
       example_field ''retries'' ''uint32'' ''Retries.'', example_field ''idle'' ''google.protobuf.Duration'' []],
     Message_Comment = []\<rparr>"

definition example_registry :: Registry where
  "example_registry = \<lparr>Messages = [(''p.M'', example_message)], Enums = [(''p.M.Kind'', \<lparr>Enum_FullName = ''p.M.Kind'', Enum_Values = []\<rparr>)]\<rparr>"

lemma example_message_fields:
  "Message_Fields example_message = [] @ example_field ''connect'' ''google.protobuf.Duration'' ''Connect timeout.'' #
     [example_field ''retries'' ''uint32'' ''Retries.''] @ example_field ''idle'' ''google.protobuf.Duration'' [] # []"
  by (simp add: example_message_def)

lemma example_message_distinct: "distinct (map Field_Name (Message_Fields example_message))"
  by (simp add: example_message_def example_field_def)

lemma example_duration:
  "gomap_get wellKnownSchemas ''google.protobuf.Duration'' = Some (props ''string'' [])"
  "TrimPrefix ''google.protobuf.Duration'' ''.'' = ''google.protobuf.Duration''"
  "scalarSchema ''google.protobuf.Duration'' = None"
  by code_simp+

theorem MessageToSchema_field_witness:
  "map_option erase (gomap_get (Properties (fst (MessageToSchema example_message example_registry wellKnownSchemas))) ''idle'') =
     Some (props ''string'' [])"
proof -
  let ?f = "example_field ''idle'' ''google.protobuf.Duration'' []"
  have "?f \<in> set (Message_Fields example_message)" by (simp add: example_message_def)
  moreover have "fieldSchema ?f example_message example_registry [] wellKnownSchemas =
      (Shared ''google.protobuf.Duration'', wellKnownSchemas)"
    by (simp add: fieldSchema_def example_field_def resolveType.simps resolveMessageOrEnum.simps example_duration Let_def)
  ultimately show ?thesis
    using MessageToSchema_field [OF example_message_distinct, of ?f example_registry wellKnownSchemas]
    by (simp add: load_ptr_def example_duration props_def) (simp add: example_field_def)
qed

theorem MessageToSchema_described_witness:
  "\<exists>s. gomap_get (Properties (fst (MessageToSchema example_message example_registry wellKnownSchemas))) ''connect'' = Some s \<and>
     Description s = ''Connect timeout.''"
proof -
  let ?f = "example_field ''connect'' ''google.protobuf.Duration'' ''Connect timeout.''"
  have "?f \<in> set (Message_Fields example_message)" "Field_Comment ?f \<noteq> []"
    by (simp_all add: example_message_def example_field_def)
  from MessageToSchema_described [OF example_message_distinct this, of example_registry wellKnownSchemas] show ?thesis
    by (simp add: example_field_def)
qed

theorem MessageToSchema_description_leak_witness:
  "\<exists>p. gomap_get (Properties (fst (MessageToSchema example_message example_registry wellKnownSchemas))) ''idle'' = Some p \<and>
     Description p = ''Connect timeout.'' \<and> erase p = props ''string'' []"
proof -
  have shared: "shared_field ''google.protobuf.Duration'' (example_field n ''google.protobuf.Duration'' c)" for n c
    using example_duration by (simp add: shared_field_def example_field_def)
  have "flat_field example_message example_registry wellKnownSchemas (example_field ''retries'' ''uint32'' ''Retries.'') \<and>
      \<not> shared_field ''google.protobuf.Duration'' (example_field ''retries'' ''uint32'' ''Retries.'')"
    by (simp add: flat_field_def shared_field_def element_type_def example_field_def scalarSchema_def)
  with MessageToSchema_description_leak [OF example_duration(1) example_message_fields example_message_distinct shared _ shared, of example_registry]
  show ?thesis by (simp add: example_field_def props_def)
qed

text \<open>
  C38. A type name is resolved to the first of its candidates that is registered: the name itself, then the
  name in each scope around the message, innermost first, then in each package around it; a
  name with no registered candidate is left as it is. So a nested type does not shadow a
  registered type whose full name is the reference itself.
\<close>

theorem resolveFQN_first_candidate:
  "resolveFQN typeName pkg msgFQN reg =
     (case find (\<lambda>c. inRegistry c reg)
        (typeName # qualified_in ((if msgFQN = [] then [] else scopes msgFQN) @ scopes pkg) typeName) of
        Some c \<Rightarrow> c | None \<Rightarrow> typeName)"
  by (rule resolveFQN_find)

text \<open>
  For a message of a well-formed registry that has a package, the walk over the packages finds nothing
  that the walk over the scopes of the message has not tried.
\<close>

theorem resolveFQN_package_redundant:
  assumes "registry_wf reg" and "gomap_get (Messages reg) fqn = Some msg" and "Message_Package msg \<noteq> []"
  shows "resolveFQN typeName (Message_Package msg) (Message_FullName msg) reg =
    (case find (\<lambda>c. inRegistry c reg) (typeName # qualified_in (scopes fqn) typeName) of
       Some c \<Rightarrow> c | None \<Rightarrow> typeName)"
proof -
  from assms(1,2) have fqn: "Message_FullName msg = fqn" and wf: "message_wf msg" by (auto simp: registry_wf_def)
  then have pkg: "in_package (Message_Package msg) fqn" by (simp add: message_wf_def)
  with assms(3) have ne: "fqn \<noteq> []" by (auto simp: in_package_def HasPrefix_iff)
  have "set (qualified_in (scopes (Message_Package msg)) typeName) \<subseteq> set (qualified_in (scopes fqn) typeName)"
    using scopes_in_package [OF pkg assms(3)] by (auto simp: qualified_in_def)
  from find_redundant [OF this, of "\<lambda>c. inRegistry c reg"]
  have "find (\<lambda>c. inRegistry c reg) (qualified_in (scopes fqn @ scopes (Message_Package msg)) typeName) =
      find (\<lambda>c. inRegistry c reg) (qualified_in (scopes fqn) typeName)"
    by (simp add: qualified_in_def)
  with ne show ?thesis by (simp add: resolveFQN_find fqn)
qed

theorem resolveFQN_package_redundant_witness:
  "resolveFQN ''Kind'' ''p'' ''p.M'' example_registry = ''p.M.Kind''"
proof -
  have wf: "registry_wf example_registry"
    by (auto simp: registry_wf_def example_registry_def example_message_def message_wf_def in_package_def
        HasPrefix_def HasSuffix_def split: if_splits)
  have m: "gomap_get (Messages example_registry) ''p.M'' = Some example_message" by (simp add: example_registry_def)
  have p: "Message_Package example_message \<noteq> []" by (simp add: example_message_def)
  have c: "find (\<lambda>c. inRegistry c example_registry) (''Kind'' # qualified_in (scopes ''p.M'') ''Kind'') = Some ''p.M.Kind''"
    by code_simp
  from resolveFQN_package_redundant [OF wf m p, of "''Kind''"] show ?thesis
    unfolding c by (simp add: example_message_def)
qed

end
