(* ===== verification/Crd_Generator.thy ===== *)
theory Crd_Generator
  imports Crd_Schema
begin

text \<open>
  \<open>crd-gen/internal/generator/generator.go\<close> and \<open>crd-gen/cmd/root.go\<close>: the CRD of a message, the
  files a run writes and its errors.

  Outside the program are the file system, the proto parser (in \<open>proto_source\<close>), the YAML
  encoder and the quoting of \<open>%q\<close>: they are the record \<open>gen_io\<close>. The encoder follows pointers,
  so it is applied to the CRD with the shared schemas read at that moment (\<open>deref\<close>).
\<close>

section \<open>Configuration and manifests\<close>

record Config =
  ProtoDir :: string
  OutDir :: string
  Group :: string
  Version :: string
  ConfigMessages :: "string list"
  KindExtraProps :: "(string, (string, JSONSchemaProps) gomap) gomap"

record CRDNames =
  names_Kind :: string
  names_ListKind :: string
  names_Plural :: string
  names_Singular :: string

record CRDVersion =
  version_Name :: string
  version_Served :: bool
  version_Storage :: bool
  version_OpenAPIV3Schema :: JSONSchemaProps
  version_StatusSubresource :: bool

datatype CRDScope = ClusterScoped | NamespaceScoped

record CustomResourceDefinition =
  crd_APIVersion :: string
  crd_Kind :: string
  crd_Name :: string
  crd_Annotations :: "(string, string) gomap"
  crd_Group :: string
  crd_Names :: CRDNames
  crd_Scope :: CRDScope
  crd_Versions :: "CRDVersion list"

definition blockedMessages :: "(string, bool) gomap" where
  "blockedMessages = [(''envoy.config.bootstrap.v3.Bootstrap'', True)]"

section \<open>The CRD of a message\<close>

definition described :: "string \<Rightarrow> string \<Rightarrow> JSONSchemaProps" where
  "described type description = set_Description description (props type [])"

definition targetRefSchema :: JSONSchemaProps where
  "targetRefSchema = JSONSchemaProps ''object'' []
     ''Reference to the EnvoyProxy CR that this resource is assigned to.''
     [(''name'', described ''string'' ''Name of the EnvoyProxy CR.''),
      (''namespace'', described ''string''
         ''Namespace of the EnvoyProxy CR. Defaults to the namespace of this resource.'')]
     None None [] None [''name''] None None"

definition topLevelProps ::
  "string \<Rightarrow> Config \<Rightarrow> JSONSchemaProps \<Rightarrow> (string, JSONSchemaProps) gomap" where
  "topLevelProps kind cfg specSchema =
     fold (\<lambda>(k, v). gomap_set k v)
       (case gomap_get (KindExtraProps cfg) kind of None \<Rightarrow> [] | Some extra \<Rightarrow> extra)
       [(''targetRef'', targetRefSchema), (''spec'', specSchema), (''status'', freeForm ''object'')]"

definition buildCRD ::
  "Message \<Rightarrow> Config \<Rightarrow> Registry \<Rightarrow> schema_store \<Rightarrow> CustomResourceDefinition \<times> schema_store" where
  "buildCRD msg cfg reg wk =
     (let kind = Message_Name msg;
          plural = ToLower kind @ ''s'';
          singular = ToLower kind;
          (specSchema, wk1) = MessageToSchema msg reg wk;
          topLevelSchema = JSONSchemaProps ''object'' [] [] (topLevelProps kind cfg specSchema)
            None None [] None [''targetRef''] None None
      in (\<lparr>crd_APIVersion = ''apiextensions.k8s.io/v1'', crd_Kind = ''CustomResourceDefinition'',
           crd_Name = plural @ ''.'' @ Group cfg,
           crd_Annotations = [(''mesh.iglin.io/proto-source'', Message_FullName msg)],
           crd_Group = Group cfg,
           crd_Names = \<lparr>names_Kind = kind, names_ListKind = kind @ ''List'', names_Plural = plural,
             names_Singular = singular\<rparr>,
           crd_Scope = NamespaceScoped,
           crd_Versions = [\<lparr>version_Name = Version cfg, version_Served = True, version_Storage = True,
             version_OpenAPIV3Schema = topLevelSchema, version_StatusSubresource = True\<rparr>]\<rparr>, wk1))"

text \<open>What an encoder sees: every pointer followed.\<close>

primrec deref :: "schema_store \<Rightarrow> JSONSchemaProps \<Rightarrow> JSONSchemaProps"
  and deref_ptr :: "schema_store \<Rightarrow> schema_ptr \<Rightarrow> schema_ptr" where
  "deref wk (JSONSchemaProps t f d ps ap it en x rq mi ma) =
     JSONSchemaProps t f d (map (map_prod id (deref wk)) ps) (map_option (deref_ptr wk) ap)
       (map_option (deref_ptr wk) it) en x rq mi ma"
| "deref_ptr wk (Fresh s) = Fresh (deref wk s)"
| "deref_ptr wk (Shared n) = Fresh (load_ptr (Shared n) wk)"

definition deref_crd :: "schema_store \<Rightarrow> CustomResourceDefinition \<Rightarrow> CustomResourceDefinition" where
  "deref_crd wk crd = crd\<lparr>crd_Versions :=
     map (\<lambda>v. v\<lparr>version_OpenAPIV3Schema := deref wk (version_OpenAPIV3Schema v)\<rparr>) (crd_Versions crd)\<rparr>"

definition marshalCRD ::
  "(CustomResourceDefinition \<Rightarrow> bytes result) \<Rightarrow> schema_store \<Rightarrow> CustomResourceDefinition \<Rightarrow> bytes result" where
  "marshalCRD yamlMarshal wk crd =
     result_bind (yamlMarshal (deref_crd wk crd)) (\<lambda>data. Inr (''---'' @ [CHR 0x0A] @ data))"

section \<open>A run\<close>

record gen_io =
  io_source :: proto_source
  MkdirAll :: "string \<Rightarrow> go_error option"
  WriteFile :: "string \<Rightarrow> bytes \<Rightarrow> go_error option"
  YamlMarshal :: "CustomResourceDefinition \<Rightarrow> bytes result"
  Quote :: "string \<Rightarrow> string"

datatype gen_line = ParsedLine nat nat string | BlockedLine string | GeneratedLine string string

record gen_out =
  out_files :: "(string \<times> bytes) list"
  out_lines :: "gen_line list"

definition outFile :: "Config \<Rightarrow> Message \<Rightarrow> string" where
  "outFile cfg msg =
     (let plural = ToLower (Message_Name msg) @ ''s'' in
      filepath_Join (OutDir cfg) (plural @ ''.'' @ Group cfg @ ''.yaml''))"

fun Run_loop ::
  "gen_io \<Rightarrow> Config \<Rightarrow> Registry \<Rightarrow> string list \<Rightarrow> schema_store \<Rightarrow> gen_out \<Rightarrow> go_error option \<times> gen_out \<times> schema_store" where
  "Run_loop io cfg reg [] wk out = (None, out, wk)"
| "Run_loop io cfg reg (fqn # rest) wk out =
     (if gomap_get blockedMessages fqn = Some True then
        Run_loop io cfg reg rest wk (out\<lparr>out_lines := out_lines out @ [BlockedLine fqn]\<rparr>)
      else
        (case gomap_get (Messages reg) fqn of
           None \<Rightarrow>
             (Some (GoError (''message '' @ Quote io fqn @ '' not found in proto directory '' @
                [CHR 0xE2, CHR 0x80, CHR 0x94] @ '' check the fully-qualified name'')), out, wk)
         | Some msg \<Rightarrow>
             (let (crd, wk1) = buildCRD msg cfg reg wk in
              case marshalCRD (YamlMarshal io) wk1 crd of
                Inl err \<Rightarrow> (Some (Wrapped (''marshaling CRD for '' @ fqn @ '': '') err), out, wk1)
              | Inr data \<Rightarrow>
                  (let outPath = outFile cfg msg in
                   case WriteFile io outPath data of
                     Some err \<Rightarrow> (Some (Wrapped (''writing '' @ outPath @ '': '') err), out, wk1)
                   | None \<Rightarrow>
                       Run_loop io cfg reg rest wk1
                         (out\<lparr>out_files := out_files out @ [(outPath, data)],
                              out_lines := out_lines out @ [GeneratedLine fqn outPath]\<rparr>)))))"

definition Run :: "gen_io \<Rightarrow> Config \<Rightarrow> schema_store \<Rightarrow> go_error option \<times> gen_out \<times> schema_store" where
  "Run io cfg wk =
     (let (reg, perr) = ParseDir (io_source io) (ProtoDir cfg); out0 = \<lparr>out_files = [], out_lines = []\<rparr> in
      case perr of
        Some err \<Rightarrow> (Some (Wrapped (''parsing proto directory '' @ Quote io (ProtoDir cfg) @ '': '') err), out0, wk)
      | None \<Rightarrow>
          (let out1 = out0\<lparr>out_lines := [ParsedLine (length (Messages reg)) (length (Enums reg)) (ProtoDir cfg)]\<rparr> in
           case MkdirAll io (OutDir cfg) of
             Some err \<Rightarrow> (Some (Wrapped (''creating output directory '' @ Quote io (OutDir cfg) @ '': '') err), out1, wk)
           | None \<Rightarrow> Run_loop io cfg reg (ConfigMessages cfg) wk out1))"

section \<open>The command\<close>

definition serviceRefSchema :: JSONSchemaProps where
  "serviceRefSchema = JSONSchemaProps ''object'' []
     ''Auto-discovers endpoints from a Kubernetes Service and synthesises a ClusterLoadAssignment in memory. The cluster spec must use type: EDS with ads: {} as the eds_config source.''
     [(''name'', described ''string'' ''Name of the Kubernetes Service.''),
      (''namespace'', described ''string'' (''Namespace of the Service. Defaults to the Cluster CR'' @ [CHR 0x27] @ ''s namespace.'')),
      (''port'', JSONSchemaProps ''integer'' ''int32''
         ''Port to expose as Envoy endpoints. If omitted, the first port of the Service is used.''
         [] None None [] None [] (Some 1) (Some 65535))]
     None None [] None [''name''] None None"

definition kindExtraProps :: "(string, (string, JSONSchemaProps) gomap) gomap" where
  "kindExtraProps = [(''Cluster'', [(''kubernetesServiceRef'', serviceRefSchema)])]"

text \<open>
  The flags that \<open>init\<close> declares, with the defaults they leave in \<open>cfg\<close>, and those it marks as
  required.
\<close>

datatype flag = StringVar string string string | StringSliceVarP string string "string list" string

definition root_flags :: "flag list" where
  "root_flags =
     [StringVar ''proto-dir'' ''../proto'' ''path to the proto source directory'',
      StringVar ''out-dir'' ''../crds'' ''output directory for generated CRD YAMLs'',
      StringVar ''group'' ''mesh.iglin.io'' ''CRD API group'',
      StringVar ''version'' ''v1alpha1'' ''CRD API version'',
      StringSliceVarP ''message'' ''m'' [] (''fully-qualified proto message name(s) to generate CRDs for'' @ [CHR 0x0A] @
        ''(e.g. envoy.config.listener.v3.Listener)'')]"

definition required_flags :: "string list" where
  "required_flags = [''message'']"

text \<open>The variable of \<open>cfg\<close> that a flag is bound to, and the default that declaring the flag writes to it.\<close>

datatype flag_value = StringValue string | SliceValue "string list"

fun set_flag :: "string \<times> flag_value \<Rightarrow> Config \<Rightarrow> Config" where
  "set_flag (name, StringValue v) cfg =
     (if name = ''proto-dir'' then cfg\<lparr>ProtoDir := v\<rparr>
      else if name = ''out-dir'' then cfg\<lparr>OutDir := v\<rparr>
      else if name = ''group'' then cfg\<lparr>Group := v\<rparr>
      else if name = ''version'' then cfg\<lparr>Version := v\<rparr>
      else cfg)"
| "set_flag (name, SliceValue vs) cfg = (if name = ''message'' then cfg\<lparr>ConfigMessages := vs\<rparr> else cfg)"

fun flag_default :: "flag \<Rightarrow> string \<times> flag_value" where
  "flag_default (StringVar name v usage) = (name, StringValue v)"
| "flag_default (StringSliceVarP name shorthand vs usage) = (name, SliceValue vs)"

definition default_cfg :: Config where
  "default_cfg = fold (set_flag \<circ> flag_default) root_flags
     \<lparr>ProtoDir = [], OutDir = [], Group = [], Version = [], ConfigMessages = [], KindExtraProps = []\<rparr>"

lemma default_cfg_eq:
  "default_cfg = \<lparr>ProtoDir = ''../proto'', OutDir = ''../crds'', Group = ''mesh.iglin.io'', Version = ''v1alpha1'',
     ConfigMessages = [], KindExtraProps = []\<rparr>"
  by (simp add: default_cfg_def root_flags_def)

definition RunE :: "gen_io \<Rightarrow> Config \<Rightarrow> go_error option \<times> gen_out" where
  "RunE io cfg = (let (err, out, wk) = Run io (cfg\<lparr>KindExtraProps := kindExtraProps\<rparr>) wellKnownSchemas in (err, out))"

text \<open>
  \<open>rootCmd.Execute\<close> is library code up to the call of \<open>RunE\<close>: given the flags and the required ones it
  rejects the command line, shows the help, or hands over the values of the flags that
  were set. What it promises is that none of the required ones is missing then.
\<close>

datatype cobra_result = UsageError go_error | HelpShown | FlagsSet "(string \<times> flag_value) list"

type_synonym cobra_parse = "flag list \<Rightarrow> string list \<Rightarrow> cobra_result"

definition cobra_law :: "cobra_parse \<Rightarrow> bool" where
  "cobra_law parse \<longleftrightarrow> (\<forall>flags required vals. parse flags required = FlagsSet vals \<longrightarrow>
     set required \<subseteq> fst ` set vals \<and> distinct (map fst vals) \<and>
     (\<forall>name v. (name, v) \<in> set vals \<longrightarrow>
        (case v of StringValue x \<Rightarrow> \<exists>d u. StringVar name d u \<in> set flags
         | SliceValue xs \<Rightarrow> \<exists>s d u. StringSliceVarP name s d u \<in> set flags)))"

definition no_output :: gen_out where
  "no_output = \<lparr>out_files = [], out_lines = []\<rparr>"

definition rootCmd_Execute :: "cobra_parse \<Rightarrow> gen_io \<Rightarrow> go_error option \<times> gen_out" where
  "rootCmd_Execute parse io = (case parse root_flags required_flags of
     UsageError err \<Rightarrow> (Some err, no_output)
   | HelpShown \<Rightarrow> (None, no_output)
   | FlagsSet vals \<Rightarrow> RunE io (fold set_flag vals default_cfg))"

text \<open>\<open>Execute\<close>: the exit code, what it prints to the standard error, and what the run has done.\<close>

definition Execute :: "cobra_parse \<Rightarrow> gen_io \<Rightarrow> nat \<times> string list \<times> gen_out" where
  "Execute parse io = (case rootCmd_Execute parse io of
     (Some err, out) \<Rightarrow> (1, [error_text err], out)
   | (None, out) \<Rightarrow> (0, [], out))"

text \<open>\<open>crd-gen/main.go\<close>\<close>

definition crd_gen_main :: "cobra_parse \<Rightarrow> gen_io \<Rightarrow> nat \<times> string list \<times> gen_out" where
  "crd_gen_main parse io = Execute parse io"

section \<open>The files of a run\<close>

definition blocked :: "string \<Rightarrow> bool" where
  "blocked fqn \<longleftrightarrow> gomap_get blockedMessages fqn = Some True"

lemma blocked_iff: "blocked fqn \<longleftrightarrow> fqn = ''envoy.config.bootstrap.v3.Bootstrap''"
  by (simp add: blocked_def blockedMessages_def)

lemma buildCRD_store [simp]: "snd (buildCRD msg cfg reg wk) = snd (MessageToSchema msg reg wk)"
  by (simp add: buildCRD_def split_def Let_def)

text \<open>The path and the encoded manifest of each message, each encoded right after it is converted.\<close>

definition manifest :: "gen_io \<Rightarrow> Config \<Rightarrow> Registry \<Rightarrow> schema_store \<Rightarrow> Message \<Rightarrow> string \<times> bytes result" where
  "manifest io cfg reg wk m =
     (outFile cfg m, marshalCRD (YamlMarshal io) (snd (MessageToSchema m reg wk)) (fst (buildCRD m cfg reg wk)))"

fun manifests :: "gen_io \<Rightarrow> Config \<Rightarrow> Registry \<Rightarrow> schema_store \<Rightarrow> Message list \<Rightarrow> (string \<times> bytes result) list" where
  "manifests io cfg reg wk [] = []"
| "manifests io cfg reg wk (m # ms) =
     manifest io cfg reg wk m # manifests io cfg reg (snd (MessageToSchema m reg wk)) ms"

definition written_ok :: "gen_io \<Rightarrow> string \<times> bytes result \<Rightarrow> bool" where
  "written_ok io f \<longleftrightarrow> (case snd f of Inl err \<Rightarrow> False | Inr data \<Rightarrow> WriteFile io (fst f) data = None)"

lemma written_ok_iff: "written_ok io f \<longleftrightarrow> (\<exists>data. snd f = Inr data \<and> WriteFile io (fst f) data = None)"
  by (simp add: written_ok_def split: sum.split)

lemma Run_loop_step:
  "Run_loop io cfg reg (fqn # rest) wk out =
     (if blocked fqn then Run_loop io cfg reg rest wk (out\<lparr>out_lines := out_lines out @ [BlockedLine fqn]\<rparr>)
      else
        (case gomap_get (Messages reg) fqn of
           None \<Rightarrow>
             (Some (GoError (''message '' @ Quote io fqn @ '' not found in proto directory '' @
                [CHR 0xE2, CHR 0x80, CHR 0x94] @ '' check the fully-qualified name'')), out, wk)
         | Some msg \<Rightarrow>
             (let wk1 = snd (MessageToSchema msg reg wk); outPath = fst (manifest io cfg reg wk msg) in
              case snd (manifest io cfg reg wk msg) of
                Inl err \<Rightarrow> (Some (Wrapped (''marshaling CRD for '' @ fqn @ '': '') err), out, wk1)
              | Inr data \<Rightarrow>
                  (case WriteFile io outPath data of
                     Some err \<Rightarrow> (Some (Wrapped (''writing '' @ outPath @ '': '') err), out, wk1)
                   | None \<Rightarrow>
                       Run_loop io cfg reg rest wk1
                         (out\<lparr>out_files := out_files out @ [(outPath, data)],
                              out_lines := out_lines out @ [GeneratedLine fqn outPath]\<rparr>)))))"
  by (simp add: blocked_def manifest_def split_def Let_def split: option.split sum.split)

declare Run_loop.simps(2) [simp del]

text \<open>A loop without error: every name that is not blocked is registered, encoded and written.\<close>

lemma Run_loop_ok:
  "fst (Run_loop io cfg reg fqns wk out) = None \<longleftrightarrow>
     (\<exists>ms. map (gomap_get (Messages reg)) (filter (\<lambda>f. \<not> blocked f) fqns) = map Some ms \<and>
        list_all (written_ok io) (manifests io cfg reg wk ms))"
proof (induction fqns arbitrary: wk out)
  case Nil
  then show ?case by simp
next
  case (Cons fqn rest)
  show ?case
  proof (cases "blocked fqn \<or> gomap_get (Messages reg) fqn = None")
    case True
    with Cons show ?thesis by (auto simp: Run_loop_step Cons_eq_map_conv)
  next
    case False
    then obtain m where m: "\<not> blocked fqn" "gomap_get (Messages reg) fqn = Some m" by auto
    have "fst (Run_loop io cfg reg (fqn # rest) wk out) = None \<longleftrightarrow> written_ok io (manifest io cfg reg wk m) \<and>
        (\<exists>ms. map (gomap_get (Messages reg)) (filter (\<lambda>f. \<not> blocked f) rest) = map Some ms \<and>
          list_all (written_ok io) (manifests io cfg reg (snd (MessageToSchema m reg wk)) ms))"
      using m Cons written_ok_iff [of io "manifest io cfg reg wk m"]
      by (auto simp: Run_loop_step Let_def split: sum.split option.split)
    with m show ?thesis by (auto simp: Cons_eq_map_conv)
  qed
qed

lemma Run_loop_files:
  assumes "map (gomap_get (Messages reg)) (filter (\<lambda>f. \<not> blocked f) fqns) = map Some ms"
    and "list_all (written_ok io) (manifests io cfg reg wk ms)"
  shows "out_files (fst (snd (Run_loop io cfg reg fqns wk out))) =
    out_files out @ map (\<lambda>(p, r). (p, projr r)) (manifests io cfg reg wk ms)"
  using assms
proof (induction fqns arbitrary: wk out ms)
  case Nil
  then show ?case by simp
next
  case (Cons fqn rest)
  show ?case
  proof (cases "blocked fqn")
    case True
    with Cons show ?thesis by (simp add: Run_loop_step)
  next
    case False
    with Cons.prems(1) obtain m ms' where ms: "ms = m # ms'" "gomap_get (Messages reg) fqn = Some m"
      "map (gomap_get (Messages reg)) (filter (\<lambda>f. \<not> blocked f) rest) = map Some ms'"
      by (auto simp: Cons_eq_map_conv)
    with Cons.prems(2) obtain data where "snd (manifest io cfg reg wk m) = Inr data"
      "WriteFile io (fst (manifest io cfg reg wk m)) data = None"
      by (auto simp: written_ok_iff)
    with False ms Cons.prems(2) Cons.IH [OF ms(3)] show ?thesis
      by (simp add: Run_loop_step Let_def split_def)
  qed
qed

lemma Run_loop_append:
  "Run_loop io cfg reg (xs @ ys) wk out =
     (case Run_loop io cfg reg xs wk out of
        (None, out1, wk1) \<Rightarrow> Run_loop io cfg reg ys wk1 out1
      | (Some err, out1, wk1) \<Rightarrow> (Some err, out1, wk1))"
proof (induction xs arbitrary: wk out)
  case Nil
  then show ?case by simp
next
  case (Cons x xs)
  then show ?case
    by (simp add: Run_loop_step Let_def split: option.split sum.split)
qed

text \<open>Every generated line names a requested, registered message that is not blocked.\<close>

definition lines_ok :: "Registry \<Rightarrow> string set \<Rightarrow> gen_line list \<Rightarrow> bool" where
  "lines_ok reg fqns ls \<longleftrightarrow> (\<forall>fqn path. GeneratedLine fqn path \<in> set ls \<longrightarrow>
     fqn \<in> fqns \<and> \<not> blocked fqn \<and> gomap_has (Messages reg) fqn)"

lemma Run_loop_lines:
  "lines_ok reg fqns (out_lines out) \<Longrightarrow> length (out_files out) = length (filter (\<lambda>l. \<exists>f p. l = GeneratedLine f p) (out_lines out)) \<Longrightarrow>
   set names \<subseteq> fqns \<Longrightarrow>
   lines_ok reg fqns (out_lines (fst (snd (Run_loop io cfg reg names wk out)))) \<and>
   length (out_files (fst (snd (Run_loop io cfg reg names wk out)))) =
     length (filter (\<lambda>l. \<exists>f p. l = GeneratedLine f p) (out_lines (fst (snd (Run_loop io cfg reg names wk out)))))"
proof (induction names arbitrary: wk out)
  case Nil
  then show ?case by simp
next
  case (Cons fqn rest)
  from Cons.prems have b: "lines_ok reg fqns (out_lines (out\<lparr>out_lines := out_lines out @ [BlockedLine fqn]\<rparr>))"
    by (simp add: lines_ok_def)
  have g: "lines_ok reg fqns (out_lines out @ [GeneratedLine fqn p])"
    if "\<not> blocked fqn" "gomap_get (Messages reg) fqn = Some m" for p m
    using that Cons.prems by (simp add: lines_ok_def)
  from Cons b g show ?case
    by (auto simp: Run_loop_step Let_def split: option.split sum.split)
qed

lemma Run_ok:
  assumes "ParseDir (io_source io) (ProtoDir cfg) = (reg, perr)"
  shows "fst (Run io cfg wk) = None \<longleftrightarrow> perr = None \<and> MkdirAll io (OutDir cfg) = None \<and>
    (\<exists>ms. map (gomap_get (Messages reg)) (filter (\<lambda>f. \<not> blocked f) (ConfigMessages cfg)) = map Some ms \<and>
      list_all (written_ok io) (manifests io cfg reg wk ms))"
  using assms by (simp add: Run_def Run_loop_ok Let_def split: option.split)

lemma Run_files:
  assumes "ParseDir (io_source io) (ProtoDir cfg) = (reg, perr)" and "fst (Run io cfg wk) = None"
    and ms: "map (gomap_get (Messages reg)) (filter (\<lambda>f. \<not> blocked f) (ConfigMessages cfg)) = map Some ms"
  shows "out_files (fst (snd (Run io cfg wk))) = map (\<lambda>(p, r). (p, projr r)) (manifests io cfg reg wk ms)"
proof -
  from assms obtain ms' where ok: "perr = None" "MkdirAll io (OutDir cfg) = None"
    "map Some ms = map Some ms'" "list_all (written_ok io) (manifests io cfg reg wk ms')"
    by (auto simp: Run_ok [OF assms(1)])
  then have "list_all (written_ok io) (manifests io cfg reg wk ms)" by (simp add: inj_map_eq_map)
  from Run_loop_files [OF ms this] ok assms(1) show ?thesis by (simp add: Run_def Let_def)
qed

text \<open>
  A command line that leads to a run has set the messages, and these are what is generated: the
  exit code is 0 if and only if help was shown or their run succeeded.
\<close>

lemma set_flag_messages:
  "name \<noteq> ''message'' \<Longrightarrow> ConfigMessages (set_flag (name, v) cfg) = ConfigMessages cfg"
  by (cases v) simp_all

lemma fold_set_flag_messages:
  "distinct (map fst vals) \<Longrightarrow> (''message'', SliceValue vs) \<in> set vals \<Longrightarrow> ConfigMessages (fold set_flag vals cfg) = vs"
proof (induction vals arbitrary: cfg)
  case (Cons x vals)
  have rest: "''message'' \<notin> fst ` set vals \<Longrightarrow> ConfigMessages (fold set_flag vals cfg) = ConfigMessages cfg" for cfg
  proof (induction vals arbitrary: cfg)
    case (Cons y vals)
    then show ?case by (cases y) (auto simp: set_flag_messages)
  qed simp
  show ?case
  proof (cases "x = (''message'', SliceValue vs)")
    case True
    with Cons.prems(1) show ?thesis by (simp add: rest)
  qed (use Cons in auto)
qed simp

theorem Execute_requested:
  assumes "cobra_law parse"
  shows "fst (Execute parse io) = 0 \<longleftrightarrow> parse root_flags required_flags = HelpShown \<or>
    (\<exists>vals vs. parse root_flags required_flags = FlagsSet vals \<and> (''message'', SliceValue vs) \<in> set vals \<and>
       ConfigMessages (fold set_flag vals default_cfg) = vs \<and> fst (RunE io (fold set_flag vals default_cfg)) = None)"
proof (cases "parse root_flags required_flags")
  case (FlagsSet vals)
  with assms have vals: "''message'' \<in> fst ` set vals" "distinct (map fst vals)"
    "\<And>v. (''message'', StringValue v) \<notin> set vals"
    by (fastforce simp: cobra_law_def required_flags_def root_flags_def)+
  then obtain v where "(''message'', v) \<in> set vals" by auto
  with vals(3) obtain vs where vs: "(''message'', SliceValue vs) \<in> set vals" by (cases v) auto
  with fold_set_flag_messages [OF vals(2)] FlagsSet show ?thesis
    by (auto simp: Execute_def rootCmd_Execute_def split: prod.split option.split)
qed (simp_all add: Execute_def rootCmd_Execute_def)

text \<open>The path of a manifest whose file name is plain lies directly in the output directory.\<close>

lemma outFile_plain:
  assumes "plain_element (ToLower (Message_Name msg) @ ''s.'' @ Group cfg @ ''.yaml'')" and "OutDir cfg \<noteq> []"
    and "Clean (OutDir cfg) \<notin> {''.'', ''/''}"
  shows "outFile cfg msg = Clean (OutDir cfg) @ ''/'' @ ToLower (Message_Name msg) @ ''s.'' @ Group cfg @ ''.yaml''"
  using filepath_Join_plain [OF assms(1,2)] assms(3) by (simp add: outFile_def Let_def)

section \<open>Properties\<close>

text \<open>
  C39. A run succeeds if and only if the proto tree can be read, the output directory can be made, and every
  requested message that is not blocked is registered and its manifest can be encoded and
  written. Then the files written are exactly these manifests, in the order requested.
\<close>

theorem Run_success:
  assumes "ParseDir (io_source io) (ProtoDir cfg) = (reg, perr)"
  shows "(fst (Run io cfg wk) = None \<longleftrightarrow> perr = None \<and> MkdirAll io (OutDir cfg) = None \<and>
      (\<exists>ms. map (gomap_get (Messages reg)) (filter (\<lambda>f. \<not> blocked f) (ConfigMessages cfg)) = map Some ms \<and>
        list_all (written_ok io) (manifests io cfg reg wk ms))) \<and>
    (\<forall>ms. fst (Run io cfg wk) = None \<longrightarrow>
      map (gomap_get (Messages reg)) (filter (\<lambda>f. \<not> blocked f) (ConfigMessages cfg)) = map Some ms \<longrightarrow>
      out_files (fst (snd (Run io cfg wk))) = map (\<lambda>(p, r). (p, projr r)) (manifests io cfg reg wk ms))"
  using Run_ok [OF assms] Run_files [OF assms] by blast

definition example_io :: gen_io where
  "example_io = \<lparr>io_source = example_source, MkdirAll = (\<lambda>_. None), WriteFile = (\<lambda>_ _. None),
     YamlMarshal = (\<lambda>crd. Inr (crd_Name crd)), Quote = (\<lambda>s. s)\<rparr>"

definition example_cfg :: Config where
  "example_cfg = default_cfg\<lparr>ConfigMessages := [''envoy.config.bootstrap.v3.Bootstrap'', ''p.A'']\<rparr>"

definition example_A :: Message where
  "example_A = newMessage ''p.A'' ''A'' ''p'' None [PMessage ''B'' None [], PEnum ''E'' [PEnumField ''X'']]"

definition example_parsed_registry :: Registry where
  "example_parsed_registry =
     \<lparr>Messages = [(''p.A'', example_A), (''p.A.B'', newMessage ''p.A.B'' ''B'' ''p'' None [])],
      Enums = [(''p.A.E'', \<lparr>Enum_FullName = ''p.A.E'', Enum_Values = [''X'']\<rparr>)]\<rparr>"

lemma example_parsed:
  "ParseDir (io_source example_io) (ProtoDir example_cfg) = (example_parsed_registry, None)"
  by code_simp

lemma example_manifests:
  "manifests example_io example_cfg reg wk [example_A] =
     [(''../crds/as.mesh.iglin.io.yaml'', Inr (''---'' @ [CHR 0x0A] @ ''as.mesh.iglin.io''))]"
proof -
  have "outFile example_cfg example_A = ''../crds/as.mesh.iglin.io.yaml''" by code_simp
  moreover have "ToLower ''A'' = ''a''" by code_simp
  ultimately show ?thesis
    by (simp add: manifest_def marshalCRD_def deref_crd_def buildCRD_def split_def Let_def)
      (simp add: example_io_def example_cfg_def default_cfg_eq example_A_def newMessage_def)
qed

theorem Run_success_witness:
  "fst (Run example_io example_cfg wellKnownSchemas) = None \<and>
   out_files (fst (snd (Run example_io example_cfg wellKnownSchemas))) =
     [(''../crds/as.mesh.iglin.io.yaml'', ''---'' @ [CHR 0x0A] @ ''as.mesh.iglin.io'')]"
proof -
  have reg: "map (gomap_get (Messages example_parsed_registry)) (filter (\<lambda>f. \<not> blocked f) (ConfigMessages example_cfg)) =
      map Some [example_A]"
    by (simp add: example_cfg_def blocked_iff example_parsed_registry_def)
  have ok: "list_all (written_ok example_io) (manifests example_io example_cfg reg wk [example_A])" for reg wk
    by (simp only: example_manifests) (simp add: written_ok_iff example_io_def)
  have mk: "MkdirAll example_io (OutDir example_cfg) = None" by (simp add: example_io_def)
  note run = Run_success [OF example_parsed, of wellKnownSchemas]
  have none: "fst (Run example_io example_cfg wellKnownSchemas) = None"
    by (rule conjunct1 [OF run, THEN iffD2]) (use reg ok mk in blast)
  with conjunct2 [OF run, rule_format, OF none reg] show ?thesis by (simp only: example_manifests) simp
qed

text \<open>
  A message that is not registered stops the run with an error that names it; the manifests of the
  messages before it have been written, those after it have not.
\<close>

theorem Run_unknown_message:
  assumes "ParseDir (io_source io) (ProtoDir cfg) = (reg, None)" and "MkdirAll io (OutDir cfg) = None"
    and "ConfigMessages cfg = before @ fqn # after" and "\<not> blocked fqn" and "gomap_get (Messages reg) fqn = None"
    and "map (gomap_get (Messages reg)) (filter (\<lambda>f. \<not> blocked f) before) = map Some ms"
    and "list_all (written_ok io) (manifests io cfg reg wk ms)"
  shows "fst (Run io cfg wk) = Some (GoError (''message '' @ Quote io fqn @ '' not found in proto directory '' @
      [CHR 0xE2, CHR 0x80, CHR 0x94] @ '' check the fully-qualified name'')) \<and>
    out_files (fst (snd (Run io cfg wk))) = map (\<lambda>(p, r). (p, projr r)) (manifests io cfg reg wk ms)"
proof -
  let ?out = "\<lparr>out_files = [], out_lines = [ParsedLine (length (Messages reg)) (length (Enums reg)) (ProtoDir cfg)]\<rparr>"
  let ?pre = "Run_loop io cfg reg before wk ?out"
  have "fst ?pre = None" using assms(6,7) Run_loop_ok by blast
  then obtain out1 wk1 where pre: "?pre = (None, out1, wk1)" by (metis prod.collapse)
  moreover have "out_files (fst (snd ?pre)) = map (\<lambda>(p, r). (p, projr r)) (manifests io cfg reg wk ms)"
    using Run_loop_files [OF assms(6,7)] by simp
  moreover have "Run io cfg wk = Run_loop io cfg reg (before @ fqn # after) wk ?out"
    using assms(1-3) by (simp add: Run_def Let_def)
  ultimately show ?thesis using assms(4,5) by (simp add: Run_loop_append Run_loop_step)
qed

definition example_bad_cfg :: Config where
  "example_bad_cfg = default_cfg\<lparr>ConfigMessages := [''p.Missing'', ''p.A'']\<rparr>"

theorem Run_unknown_message_witness:
  "fst (Run example_io example_bad_cfg wellKnownSchemas) \<noteq> None \<and>
   out_files (fst (snd (Run example_io example_bad_cfg wellKnownSchemas))) = []"
proof -
  have parsed: "ParseDir (io_source example_io) (ProtoDir example_bad_cfg) = (example_parsed_registry, None)"
    using example_parsed by (simp add: example_bad_cfg_def example_cfg_def)
  have cfg: "ConfigMessages example_bad_cfg = [] @ ''p.Missing'' # [''p.A'']" by (simp add: example_bad_cfg_def)
  have mk: "MkdirAll example_io (OutDir example_bad_cfg) = None" by (simp add: example_io_def)
  have b: "\<not> blocked ''p.Missing''" by (simp add: blocked_iff)
  have g: "gomap_get (Messages example_parsed_registry) ''p.Missing'' = None" by (simp add: example_parsed_registry_def)
  from Run_unknown_message [OF parsed mk cfg b g, of "[]" wellKnownSchemas] show ?thesis by simp
qed

text \<open>
  Whatever the outcome of a run: every file that is reported as generated is for a message that was
  requested and found in the proto tree, never for the bootstrap message, and there is one
  such report for each file written.
\<close>

theorem Run_never_generates_blocked:
  "(GeneratedLine fqn path \<in> set (out_lines (fst (snd (Run io cfg wk)))) \<longrightarrow>
      fqn \<in> set (ConfigMessages cfg) \<and> fqn \<noteq> ''envoy.config.bootstrap.v3.Bootstrap'' \<and>
      gomap_has (Messages (fst (ParseDir (io_source io) (ProtoDir cfg)))) fqn) \<and>
   length (out_files (fst (snd (Run io cfg wk)))) =
     length (filter (\<lambda>l. \<exists>f p. l = GeneratedLine f p) (out_lines (fst (snd (Run io cfg wk)))))"
proof -
  obtain reg perr where parsed: "ParseDir (io_source io) (ProtoDir cfg) = (reg, perr)" by fastforce
  let ?out = "\<lparr>out_files = [], out_lines = [ParsedLine (length (Messages reg)) (length (Enums reg)) (ProtoDir cfg)]\<rparr>"
  have "lines_ok reg (set (ConfigMessages cfg)) (out_lines ?out)" by (simp add: lines_ok_def)
  from Run_loop_lines [OF this _ subset_refl, of io cfg wk] show ?thesis
    by (auto simp: Run_def parsed Let_def lines_ok_def blocked_iff split: option.split)
qed

theorem Run_never_generates_blocked_witness:
  "\<not> (\<exists>path. GeneratedLine ''envoy.config.bootstrap.v3.Bootstrap'' path \<in>
     set (out_lines (fst (snd (Run example_io example_cfg wellKnownSchemas)))))"
  using Run_never_generates_blocked [of "''envoy.config.bootstrap.v3.Bootstrap''" _ example_io example_cfg wellKnownSchemas]
  by blast

text \<open>
  The manifest the command builds: its name is plural and group joined by a dot, as Kubernetes requires,
  it has one version, served and stored, and its schema requires \<open>targetRef\<close>. The schema has
  \<open>targetRef\<close>, \<open>spec\<close> (the converted message) and \<open>status\<close>, only the kind \<open>Cluster\<close> has one more
  property, \<open>kubernetesServiceRef\<close>, and everything that is required is also declared.
\<close>

theorem buildCRD_manifest:
  assumes "KindExtraProps cfg = kindExtraProps" and "buildCRD msg cfg reg wk = (crd, wk')"
  shows "crd_Name crd = names_Plural (crd_Names crd) @ ''.'' @ crd_Group crd \<and>
    (\<exists>v. crd_Versions crd = [v] \<and> version_Served v \<and> version_Storage v \<and> version_Name v = Version cfg \<and>
      Required (version_OpenAPIV3Schema v) = [''targetRef''] \<and>
      (\<forall>k. gomap_get (Properties (version_OpenAPIV3Schema v)) k =
        (if k = ''targetRef'' then Some targetRefSchema
         else if k = ''spec'' then Some (fst (MessageToSchema msg reg wk))
         else if k = ''status'' then Some (freeForm ''object'')
         else if k = ''kubernetesServiceRef'' \<and> Message_Name msg = ''Cluster'' then Some serviceRefSchema
         else None)))"
  using assms by (auto simp: buildCRD_def split_def Let_def topLevelProps_def kindExtraProps_def)

theorem buildCRD_manifest_witness:
  "crd_Name (fst (buildCRD example_A (example_cfg\<lparr>KindExtraProps := kindExtraProps\<rparr>) example_parsed_registry wellKnownSchemas)) =
     ''as.mesh.iglin.io''"
proof -
  let ?cfg = "example_cfg\<lparr>KindExtraProps := kindExtraProps\<rparr>"
  have lower: "ToLower ''A'' = ''a''" by code_simp
  have "KindExtraProps ?cfg = kindExtraProps" by simp
  from buildCRD_manifest [OF this prod.collapse [symmetric], of example_A example_parsed_registry wellKnownSchemas]
  show ?thesis
    by (simp add: buildCRD_def split_def Let_def lower)
      (simp add: example_A_def newMessage_def example_cfg_def default_cfg_eq lower)
qed

end
