(* ===== verification/Crd_Structural.thy ===== *)
theory Crd_Structural
  imports Crd_Generator
begin

text \<open>
  Kubernetes accepts a CRD only if its schemas are structural: every node has a type or accepts
  everything, the parts of a node fit its type, and this holds at every depth. The check is
  \<open>structural_crd\<close>. Every manifest that the generator encodes passes it: whatever the
  proto files declare, a check in front of the encoder changes nothing.
\<close>

section \<open>Structural schemas\<close>

text \<open>
  The rules for one node: a known type, which may be missing only where unknown fields are
  accepted; properties or additional properties only in objects and not both; items in arrays
  and nowhere else; enumerations of strings; no name declared twice; nothing required that is
  not declared.
\<close>

definition schema_types :: "string list" where
  "schema_types = [''object'', ''array'', ''string'', ''integer'', ''number'', ''boolean'']"

definition node_ok :: "string \<Rightarrow> string list \<Rightarrow> bool \<Rightarrow> bool \<Rightarrow> bytes list \<Rightarrow> bool option \<Rightarrow> string list \<Rightarrow> bool" where
  "node_ok type keys additional items enum preserve required \<longleftrightarrow>
     (type \<in> set schema_types \<or> type = [] \<and> preserve = Some True) \<and>
     (keys \<noteq> [] \<or> additional \<longrightarrow> type = ''object'') \<and> (additional \<longrightarrow> keys = []) \<and>
     (items \<longleftrightarrow> type = ''array'') \<and>
     (enum \<noteq> [] \<longrightarrow> type = ''string'') \<and>
     (preserve \<noteq> None \<longrightarrow> preserve = Some True \<and> (type = ''object'' \<or> type = [])) \<and>
     distinct keys \<and> set required \<subseteq> set keys"

text \<open>
  The whole tree. Of a shared schema only the name is looked at: the parameter says which names
  may occur, none in a schema whose pointers have been followed.
\<close>

primrec structural :: "(string \<Rightarrow> bool) \<Rightarrow> JSONSchemaProps \<Rightarrow> bool"
  and structural_ptr :: "(string \<Rightarrow> bool) \<Rightarrow> schema_ptr \<Rightarrow> bool" where
  "structural K (JSONSchemaProps t f d ps ap it en x rq mi ma) \<longleftrightarrow>
     node_ok t (map fst ps) (ap \<noteq> None) (it \<noteq> None) en x rq \<and>
     list_all snd (map (map_prod id (structural K)) ps) \<and>
     pred_option id (map_option (structural_ptr K) ap) \<and>
     pred_option id (map_option (structural_ptr K) it)"
| "structural_ptr K (Fresh s) \<longleftrightarrow> structural K s"
| "structural_ptr K (Shared n) \<longleftrightarrow> K n"

lemma structural_JSONSchemaProps [simp]:
  "structural K (JSONSchemaProps t f d ps ap it en x rq mi ma) \<longleftrightarrow>
     node_ok t (map fst ps) (ap \<noteq> None) (it \<noteq> None) en x rq \<and>
     (\<forall>p \<in> set ps. structural K (snd p)) \<and>
     (\<forall>p. ap = Some p \<longrightarrow> structural_ptr K p) \<and> (\<forall>p. it = Some p \<longrightarrow> structural_ptr K p)"
  by (cases ap; cases it) (auto simp: list_all_iff)

declare structural.simps [simp del]

abbreviation closed_structural :: "JSONSchemaProps \<Rightarrow> bool" where
  "closed_structural \<equiv> structural (\<lambda>_. False)"

lemma structural_mono:
  assumes "\<And>n. K n \<Longrightarrow> K' n"
  shows "structural K s \<Longrightarrow> structural K' s" and "structural_ptr K p \<Longrightarrow> structural_ptr K' p"
proof (induction s and p)
  case (JSONSchemaProps t f d ps ap it en x rq mi ma)
  then show ?case by (fastforce simp: snds.simps)
qed (use assms in simp_all)

lemma structural_erase:
  "structural K (erase s) \<longleftrightarrow> structural K s" "structural_ptr K (erase_ptr p) \<longleftrightarrow> structural_ptr K p"
proof (induction s and p)
  case (JSONSchemaProps t f d ps ap it en x rq mi ma)
  have "map fst (erase_props ps) = map fst ps" by (simp add: erase_props_def)
  moreover have "(\<forall>p \<in> set (erase_props ps). structural K (snd p)) \<longleftrightarrow> (\<forall>p \<in> set ps. structural K (snd p))"
    using JSONSchemaProps(1) by (fastforce simp: erase_props_def snds.simps)
  ultimately show ?case using JSONSchemaProps(2,3) by (cases ap; cases it) auto
qed simp_all

lemma structural_Description [simp]: "structural K (set_Description c s) \<longleftrightarrow> structural K s"
  by (cases s) simp

lemma node_ok_types:
  "t \<in> set schema_types \<Longrightarrow> t \<noteq> ''array'' \<Longrightarrow> node_ok t [] False False [] None []"
  "node_ok ''array'' [] False True [] None []" "node_ok ''object'' [] True False [] None []"
  "node_ok ''string'' [] False False en None []"
  "t = ''object'' \<or> t = [] \<Longrightarrow> node_ok t [] False False [] (Some True) []"
  by (auto simp: node_ok_def schema_types_def)

lemma node_ok_object:
  "distinct (map fst ps) \<Longrightarrow> node_ok ''object'' (map fst ps) False False [] (if length ps = 0 then Some True else None) []"
  by (auto simp: node_ok_def schema_types_def)

lemma structural_constructors [simp]:
  "t \<in> set schema_types \<Longrightarrow> t \<noteq> ''array'' \<Longrightarrow> structural K (props t f)"
  "t = ''object'' \<or> t = [] \<Longrightarrow> structural K (freeForm t)"
  "structural K (arrayOf p) \<longleftrightarrow> structural_ptr K p" "structural K (mapOf p) \<longleftrightarrow> structural_ptr K p"
  "structural K (enumOf vs)"
  by (simp_all add: props_def freeForm_def arrayOf_def mapOf_def enumOf_def node_ok_types)

lemma scalarSchema_structural: "scalarSchema t = Some s \<Longrightarrow> structural K s"
  unfolding scalarSchema_def if_Some_eq by (elim disjE conjE) (simp_all add: schema_types_def)

section \<open>Conversion\<close>

definition store_structural :: "schema_store \<Rightarrow> bool" where
  "store_structural wk \<longleftrightarrow> (\<forall>n s. gomap_get wk n = Some s \<longrightarrow> closed_structural s)"

lemma store_structural_similar:
  assumes "similar wk wk'" and "store_structural wk"
  shows "store_structural wk'"
  unfolding store_structural_def
proof (intro allI impI)
  fix n s assume "gomap_get wk' n = Some s"
  with assms(1) obtain s' where "gomap_get wk n = Some s'" "erase s' = erase s"
    unfolding similar_def by (metis map_option_eq_Some option.simps(9))
  with assms(2) show "closed_structural s" by (metis structural_erase(1) store_structural_def)
qed

lemma wellKnownSchemas_structural: "store_structural wellKnownSchemas"
  by (auto simp: store_structural_def wellKnownSchemas_def schema_types_def split: if_splits)

lemma load_ptr_structural:
  assumes "store_structural wk" and "structural_ptr K p"
  shows "structural K (load_ptr p wk)"
proof (cases p)
  case (Shared n)
  with assms(1) show ?thesis
    by (auto simp: load_ptr_def store_structural_def split: option.split intro: structural_mono(1) [of "\<lambda>_. False"])
qed (use assms(2) in \<open>simp add: load_ptr_def\<close>)

lemma write_Description_structural [simp]:
  "structural_ptr K (fst (write_Description c p wk)) \<longleftrightarrow> structural_ptr K p"
  by (cases p) (simp_all add: write_Description_def)

lemma conversion_structural:
  "store_structural wk \<Longrightarrow> (\<lambda>n. gomap_has wk n) = K \<Longrightarrow> structural K (fst (msgSchema msg reg v wk))"
  "store_structural wk \<Longrightarrow> (\<lambda>n. gomap_has wk n) = K \<Longrightarrow> distinct (map fst ps) \<Longrightarrow> \<forall>p \<in> set ps. structural K (snd p) \<Longrightarrow>
     distinct (map fst (fst (msgFields fs msg reg v ps wk))) \<and>
     (\<forall>p \<in> set (fst (msgFields fs msg reg v ps wk)). structural K (snd p))"
  "store_structural wk \<Longrightarrow> (\<lambda>n. gomap_has wk n) = K \<Longrightarrow> structural_ptr K (fst (resolveType t rep pkg fqn reg v wk))"
  "store_structural wk \<Longrightarrow> (\<lambda>n. gomap_has wk n) = K \<Longrightarrow> structural_ptr K (fst (resolveMessageOrEnum t pkg fqn reg v wk))"
proof (induction msg reg v wk and fs msg reg v ps wk and t rep pkg fqn reg v wk and t pkg fqn reg v wk
    rule: conversion_induct)
  case (schema msg reg v wk)
  let ?ps = "fst (msgFields (Message_Fields msg) msg reg v [] wk)"
  have ps: "distinct (map fst ?ps) \<and> (\<forall>p \<in> set ?ps. structural K (snd p))"
    by (rule schema.IH [OF schema.prems]) simp_all
  have "node_ok ''object'' (map fst ?ps) False False [] (if length ?ps = 0 then Some True else None) []"
    using conjunct1 [OF ps] by (rule node_ok_object)
  with conjunct2 [OF ps] show ?case
    by (simp only: msgSchema.simps split_def Let_def fst_conv structural_JSONSchemaProps option.distinct simp_thms)
next
  case (no_fields msg reg v ps wk)
  from no_fields(3,4) show ?case by (simp add: msgFields.simps(1))
next
  case (field f rest msg reg v ps wk)
  let ?r = "finishField f msg reg v wk"
  have st: "store_structural (snd ?r)" using finishField_similar field.prems(1) by (rule store_structural_similar)
  have "gomap_has (snd ?r) n \<longleftrightarrow> gomap_has wk n" for n using similar_has [OF finishField_similar] by blast
  then have K: "(\<lambda>n. gomap_has (snd ?r) n) = K" unfolding field.prems(2) [symmetric] by (rule ext)
  have "structural_ptr K (fst (fieldSchema f msg reg v wk))"
    using field.IH(1,2) [OF _ field.prems(1,2)] by (simp add: fieldSchema_def split_def Let_def)
  then have "structural_ptr K (fst ?r)" by (simp add: finishField_def describe_def)
  then have "structural K (load_ptr (fst ?r) (snd ?r))" by (rule load_ptr_structural [OF st])
  from field.IH(3) [OF st K gomap_set_distinct gomap_set_values [OF field.prems(4) this]] field.prems(3)
  show ?case by (simp add: msgFields_Cons Let_def)
next
  case (type t rep pkg fqn reg v wk)
  from type.IH [OF _ type.prems] show ?case
    by (cases "scalarSchema t") (simp_all add: resolveType.simps split_def Let_def scalarSchema_structural)
next
  case (message t pkg fqn reg v wk)
  from message.prems(2) have "K n \<longleftrightarrow> gomap_has wk n" for n by blast
  with message.IH [OF _ refl _ _ message.prems] show ?case
    by (simp add: conversion_simps split: option.split)
qed

lemma MessageToSchema_structural: "store_structural wk \<Longrightarrow> store_structural (snd (MessageToSchema msg reg wk))"
  unfolding MessageToSchema_def by (rule store_structural_similar [OF conversion_similar(1)])

text \<open>Following the pointers of a schema whose shared parts are in the store.\<close>

lemma deref_structural:
  assumes "store_structural wk"
  shows "structural (gomap_has wk) s \<Longrightarrow> closed_structural (deref wk s)"
    and "structural_ptr (gomap_has wk) p \<Longrightarrow> structural_ptr (\<lambda>_. False) (deref_ptr wk p)"
proof (induction s and p)
  case (JSONSchemaProps t f d ps ap it en x rq mi ma)
  then show ?case by (fastforce simp: snds.simps comp_def)
next
  case (Shared n)
  with assms show ?case by (auto simp: load_ptr_def store_structural_def)
qed simp_all

section \<open>Manifests\<close>

text \<open>
  What Kubernetes asks of a definition: the name is made of plural and group, one version is
  stored, version names are unique, and the schemas are structural and describe objects.
\<close>

definition structural_crd :: "CustomResourceDefinition \<Rightarrow> bool" where
  "structural_crd crd \<longleftrightarrow>
     crd_Name crd = names_Plural (crd_Names crd) @ ''.'' @ crd_Group crd \<and>
     length (filter version_Storage (crd_Versions crd)) = 1 \<and> distinct (map version_Name (crd_Versions crd)) \<and>
     (\<forall>v \<in> set (crd_Versions crd). Type (version_OpenAPIV3Schema v) = ''object'' \<and>
        closed_structural (version_OpenAPIV3Schema v))"

lemma structural_described [simp]:
  "t \<in> set schema_types \<Longrightarrow> t \<noteq> ''array'' \<Longrightarrow> structural K (described t c)"
  by (simp add: described_def)

lemma targetRefSchema_structural: "structural K targetRefSchema"
  by (simp add: targetRefSchema_def node_ok_def schema_types_def)

lemma serviceRefSchema_structural: "structural K serviceRefSchema"
  by (simp add: serviceRefSchema_def node_ok_def schema_types_def)

lemma topLevelProps_structural:
  assumes "KindExtraProps cfg = kindExtraProps" and "structural K spec"
  shows "distinct (map fst (topLevelProps kind cfg spec)) \<and> ''targetRef'' \<in> fst ` set (topLevelProps kind cfg spec) \<and>
    (\<forall>p \<in> set (topLevelProps kind cfg spec). structural K (snd p))"
  using assms by (simp add: topLevelProps_def kindExtraProps_def targetRefSchema_structural serviceRefSchema_structural)

lemma deref_Type [simp]: "Type (deref wk s) = Type s"
  by (cases s) simp

lemma buildCRD_structural:
  assumes "KindExtraProps cfg = kindExtraProps" and st: "store_structural wk"
  shows "structural_crd (deref_crd (snd (MessageToSchema msg reg wk)) (fst (buildCRD msg cfg reg wk)))"
proof -
  let ?wk = "snd (MessageToSchema msg reg wk)" and ?spec = "fst (MessageToSchema msg reg wk)"
  have sim: "similar wk ?wk" by (simp add: MessageToSchema_def conversion_similar)
  then have "gomap_has wk n \<longleftrightarrow> gomap_has ?wk n" for n by (rule similar_has)
  then have "structural (\<lambda>n. gomap_has ?wk n) ?spec"
    unfolding MessageToSchema_def by (intro conversion_structural(1) [OF st] ext) (simp add: MessageToSchema_def)
  from topLevelProps_structural [OF assms(1) this, of "Message_Name msg"]
  have "structural (\<lambda>n. gomap_has ?wk n) (JSONSchemaProps ''object'' [] [] (topLevelProps (Message_Name msg) cfg ?spec)
      None None [] None [''targetRef''] None None)"
    by (simp add: node_ok_def schema_types_def)
  from deref_structural(1) [OF store_structural_similar [OF sim st] this] show ?thesis
    by (simp add: structural_crd_def deref_crd_def buildCRD_def split_def Let_def del: deref.simps)
qed

text \<open>A check of every definition in front of the encoder.\<close>

definition checked :: "gen_io \<Rightarrow> gen_io" where
  "checked io = io\<lparr>YamlMarshal := \<lambda>crd. if structural_crd crd then YamlMarshal io crd else Inl (GoError ''not structural'')\<rparr>"

lemma checked_simps [simp]:
  "io_source (checked io) = io_source io" "MkdirAll (checked io) = MkdirAll io" "WriteFile (checked io) = WriteFile io"
  "Quote (checked io) = Quote io"
  by (simp_all add: checked_def)

lemma manifest_checked:
  assumes "KindExtraProps cfg = kindExtraProps" and "store_structural wk"
  shows "manifest (checked io) cfg reg wk m = manifest io cfg reg wk m"
  using buildCRD_structural [OF assms] by (simp add: manifest_def marshalCRD_def checked_def)

lemma Run_loop_checked:
  assumes "KindExtraProps cfg = kindExtraProps"
  shows "store_structural wk \<Longrightarrow> Run_loop (checked io) cfg reg fqns wk out = Run_loop io cfg reg fqns wk out"
proof (induction fqns arbitrary: wk out)
  case (Cons fqn rest)
  from Cons show ?case
    by (simp add: MessageToSchema_structural Run_loop_step manifest_checked [OF assms] Let_def split: option.split sum.split)
qed simp

section \<open>Properties\<close>

text \<open>
  C12. Every definition that the command encodes is one Kubernetes can accept: whatever is on the command line and whatever the
  proto files declare, cyclic and unknown types included, a check that all schemas are
  structural, at every depth and with the shared schemas as they are at that moment, placed in front
  of the encoder changes neither the exit code nor the messages nor the files.
\<close>

theorem Execute_structural: "Execute parse (checked io) = Execute parse io"
proof -
  have "RunE (checked io) cfg = RunE io cfg" for cfg
    by (simp add: RunE_def Run_def Run_loop_checked wellKnownSchemas_structural Let_def split_def split: option.split)
  then show ?thesis by (simp add: Execute_def rootCmd_Execute_def split: cobra_result.split)
qed

end
