(* ===== verification/Mesh_Api.thy ===== *)
theory Mesh_Api
  imports Crd_Structural Scheme
begin

text \<open>
  The two programs together: the custom resource definitions that the generator writes when it
  is called as the documentation says, and the types that the control plane registers. They
  meet in the API server only, so nothing but their group, version and kind names makes them fit.
\<close>

section \<open>What a run encodes\<close>

text \<open>The definitions as the encoder gets them, one per message, each with the schemas shared at that moment.\<close>

fun encoded :: "Config \<Rightarrow> Registry \<Rightarrow> schema_store \<Rightarrow> Message list \<Rightarrow> CustomResourceDefinition list" where
  "encoded cfg reg wk [] = []"
| "encoded cfg reg wk (m # ms) =
     deref_crd (snd (MessageToSchema m reg wk)) (fst (buildCRD m cfg reg wk)) #
     encoded cfg reg (snd (MessageToSchema m reg wk)) ms"

definition holds_manifest :: "gen_io \<Rightarrow> string \<times> bytes \<Rightarrow> CustomResourceDefinition \<Rightarrow> bool" where
  "holds_manifest io file crd \<longleftrightarrow> (\<exists>data. YamlMarshal io crd = Inr data \<and> snd file = ''---'' @ [CHR 0x0A] @ data)"

lemma manifests_encoded:
  "list_all (written_ok io) (manifests io cfg reg wk ms) \<Longrightarrow>
     list_all2 (holds_manifest io) (map (\<lambda>(p, r). (p, projr r)) (manifests io cfg reg wk ms)) (encoded cfg reg wk ms)"
proof (induction ms arbitrary: wk)
  case (Cons m ms)
  from Cons.prems have "written_ok io (manifest io cfg reg wk m)" by simp
  then have "holds_manifest io (fst (manifest io cfg reg wk m), projr (snd (manifest io cfg reg wk m)))
      (deref_crd (snd (MessageToSchema m reg wk)) (fst (buildCRD m cfg reg wk)))"
    by (auto simp: written_ok_iff manifest_def marshalCRD_def holds_manifest_def result_bind_Inr_iff)
  with Cons show ?case by (simp add: split_def)
qed simp

lemma encoded_structural:
  assumes "KindExtraProps cfg = kindExtraProps"
  shows "store_structural wk \<Longrightarrow> \<forall>crd \<in> set (encoded cfg reg wk ms). structural_crd crd"
proof (induction ms arbitrary: wk)
  case (Cons m ms)
  from Cons.IH [OF MessageToSchema_structural [OF Cons.prems]] buildCRD_structural [OF assms Cons.prems]
  show ?case by simp
qed simp

lemma manifests_paths: "map fst (manifests io cfg reg wk ms) = map (outFile cfg) ms"
  by (induction ms arbitrary: wk) (simp_all add: manifest_def)

text \<open>The types that a definition serves.\<close>

definition crd_types :: "CustomResourceDefinition \<Rightarrow> (GroupVersion \<times> go_type) set" where
  "crd_types crd = {(\<lparr>gv_Group = crd_Group crd, gv_Version = version_Name v\<rparr>, MeshType k) |v k.
     v \<in> set (crd_Versions crd) \<and> version_Served v \<and> k \<in> {names_Kind (crd_Names crd), names_ListKind (crd_Names crd)}}"

lemma crd_types_buildCRD:
  "crd_types (deref_crd wk' (fst (buildCRD m cfg reg wk))) =
     {\<lparr>gv_Group = Group cfg, gv_Version = Version cfg\<rparr>} \<times> MeshType ` {Message_Name m, Message_Name m @ ''List''}"
  by (auto simp: crd_types_def deref_crd_def buildCRD_def split_def Let_def)

lemma encoded_types:
  "(\<Union>crd \<in> set (encoded cfg reg wk ms). crd_types crd) =
     {\<lparr>gv_Group = Group cfg, gv_Version = Version cfg\<rparr>} \<times>
       MeshType ` (\<Union>n \<in> set (map Message_Name ms). {n, n @ ''List''})"
  by (induction ms arbitrary: wk) (auto simp: crd_types_buildCRD)

section \<open>Names\<close>

text \<open>The simple name of a registered message is what follows the last dot of its full name.\<close>

lemma last_component: "c \<notin> set n \<Longrightarrow> last (Split (p @ c # n) c) = n"
  by (simp add: Split_append Split_no_sep)

lemma simple_name:
  assumes "message_wf m" and "Message_FullName m = p @ ''.'' @ n" and "CHR ''.'' \<notin> set n" and "CHR ''.'' \<notin> set (Message_Name m)"
  shows "Message_Name m = n"
proof -
  from assms(2) have "CHR ''.'' \<in> set (Message_FullName m)" by simp
  with assms(4) have "Message_FullName m \<noteq> Message_Name m" by metis
  with assms(1) obtain t where "Message_FullName m = t @ CHR ''.'' # Message_Name m"
    by (auto simp: message_wf_def HasSuffix_iff)
  with assms(2) last_component [OF assms(3), of p] last_component [OF assms(4), of t] show ?thesis by simp
qed

section \<open>The documented command\<close>

text \<open>The messages that the documentation passes to the generator.\<close>

definition documented_kinds :: "(string \<times> string) list" where
  "documented_kinds =
     [(''envoy.config.listener.v3'', ''Listener''), (''envoy.config.cluster.v3'', ''Cluster''),
      (''envoy.config.route.v3'', ''RouteConfiguration''), (''envoy.config.route.v3'', ''ScopedRouteConfiguration''),
      (''envoy.config.endpoint.v3'', ''ClusterLoadAssignment'')]"

definition documented_messages :: "string list" where
  "documented_messages = map (\<lambda>(pkg, kind). pkg @ ''.'' @ kind) documented_kinds"

definition documented_cfg :: Config where
  "documented_cfg = default_cfg\<lparr>ConfigMessages := documented_messages, KindExtraProps := kindExtraProps\<rparr>"

lemma documented_not_blocked: "filter (\<lambda>f. \<not> blocked f) documented_messages = documented_messages"
  by (simp add: documented_messages_def documented_kinds_def blocked_iff)

lemma documented_dotless: "\<forall>(pkg, kind) \<in> set documented_kinds. CHR ''.'' \<notin> set kind"
  by (simp add: documented_kinds_def)

lemma documented_names:
  assumes "registry_wf reg" and "map (gomap_get (Messages reg)) documented_messages = map Some ms"
    and dots: "\<forall>fqn \<in> set documented_messages. \<forall>m. gomap_get (Messages reg) fqn = Some m \<longrightarrow> CHR ''.'' \<notin> set (Message_Name m)"
  shows "map Message_Name ms = map snd documented_kinds"
proof (rule nth_equalityI)
  from assms(2) show len: "length (map Message_Name ms) = length (map snd documented_kinds)"
    using map_eq_imp_length_eq [OF assms(2)] by (simp add: documented_messages_def)
  fix i assume "i < length (map Message_Name ms)"
  with len have i: "i < length documented_kinds" "i < length ms" by simp_all
  obtain pkg kind where kind: "documented_kinds ! i = (pkg, kind)" by fastforce
  with i(1) have fqn: "documented_messages ! i = pkg @ ''.'' @ kind" by (simp add: documented_messages_def)
  have doc: "documented_messages ! i \<in> set documented_messages"
    by (rule nth_mem) (use i(1) in \<open>simp add: documented_messages_def\<close>)
  from arg_cong [OF assms(2), of "\<lambda>xs. xs ! i"] i have get: "gomap_get (Messages reg) (documented_messages ! i) = Some (ms ! i)"
    by (simp add: documented_messages_def)
  with assms(1) have "message_wf (ms ! i)" "Message_FullName (ms ! i) = documented_messages ! i" by (auto simp: registry_wf_def)
  moreover from documented_dotless kind i(1) have "CHR ''.'' \<notin> set kind" by (metis (mono_tags, lifting) case_prodD nth_mem)
  ultimately have "Message_Name (ms ! i) = kind" using simple_name fqn dots doc get by metis
  with i kind show "map Message_Name ms ! i = map snd documented_kinds ! i" by simp
qed

lemma documented_path:
  "outFile documented_cfg m = filepath_Join ''../crds'' (ToLower (Message_Name m) @ ''s.mesh.iglin.io.yaml'')"
  by (simp add: outFile_def documented_cfg_def default_cfg_eq Let_def)

lemma documented_paths:
  "map (\<lambda>n. filepath_Join ''../crds'' (ToLower n @ ''s.mesh.iglin.io.yaml'')) (map snd documented_kinds) =
     [''../crds/listeners.mesh.iglin.io.yaml'', ''../crds/clusters.mesh.iglin.io.yaml'',
      ''../crds/routeconfigurations.mesh.iglin.io.yaml'', ''../crds/scopedrouteconfigurations.mesh.iglin.io.yaml'',
      ''../crds/clusterloadassignments.mesh.iglin.io.yaml'']"
  by code_simp

lemma documented_types:
  "(\<Union>n \<in> set (map snd documented_kinds). {n, n @ ''List''}) =
     {''Cluster'', ''ClusterList'', ''ClusterLoadAssignment'', ''ClusterLoadAssignmentList'', ''EnvoyProxy'', ''EnvoyProxyList'',
      ''Listener'', ''ListenerList'', ''RouteConfiguration'', ''RouteConfigurationList'', ''ScopedRouteConfiguration'',
      ''ScopedRouteConfigurationList''} - {''EnvoyProxy'', ''EnvoyProxyList''}"
  by code_simp

lemma product_image: "{g} \<times> f ` (A - B) = {(h, f t) |h t. (h = g \<and> t \<in> A) \<and> t \<notin> B}"
  by auto

text \<open>The run that these messages lead to, and a successful one taken apart.\<close>

lemma Execute_documented:
  assumes "parse root_flags required_flags = FlagsSet [(''message'', SliceValue documented_messages)]"
  shows "Execute parse io = (case Run io documented_cfg wellKnownSchemas of
    (Some err, out, wk) \<Rightarrow> (1, [error_text err], out) | (None, out, wk) \<Rightarrow> (0, [], out))"
proof -
  have "default_cfg\<lparr>ConfigMessages := documented_messages, KindExtraProps := kindExtraProps\<rparr> = documented_cfg"
    by (simp add: documented_cfg_def)
  with assms show ?thesis
    by (simp add: Execute_def rootCmd_Execute_def RunE_def split: prod.split option.split)
qed

lemma documented_cfg_simps [simp]:
  "ProtoDir documented_cfg = ''../proto''" "ConfigMessages documented_cfg = documented_messages"
  by (simp_all add: documented_cfg_def default_cfg_eq)

lemma documented_run:
  assumes "parse root_flags required_flags = FlagsSet [(''message'', SliceValue documented_messages)]"
    and "Execute parse io = (0, errs, out)" and reg: "reg = fst (ParseDir (io_source io) ''../proto'')"
  obtains ms where "map (gomap_get (Messages reg)) documented_messages = map Some ms"
    and "list_all (written_ok io) (manifests io documented_cfg reg wellKnownSchemas ms)"
    and "out_files out = map (\<lambda>(p, r). (p, projr r)) (manifests io documented_cfg reg wellKnownSchemas ms)"
proof -
  let ?run = "Run io documented_cfg wellKnownSchemas"
  from assms(2) have run: "fst ?run = None" "out = fst (snd ?run)"
    by (auto simp: Execute_documented [of parse, OF assms(1)] split: prod.splits option.splits)
  have parsed: "ParseDir (io_source io) (ProtoDir documented_cfg) = (reg, snd (ParseDir (io_source io) ''../proto''))"
    by (simp add: reg)
  from run(1) obtain ms where ms: "map (gomap_get (Messages reg)) documented_messages = map Some ms"
    "list_all (written_ok io) (manifests io documented_cfg reg wellKnownSchemas ms)"
    by (auto simp: Run_ok [OF parsed] documented_not_blocked)
  from Run_files [OF parsed run(1)] ms(1) run(2) show thesis
    by (intro that [OF ms]) (simp add: documented_not_blocked)
qed

text \<open>
  C11. The generator and the control plane fit together: call the generator with the documented messages and no other flag, and let it
  succeed. Then it has written the five files of the directory \<open>crds\<close>, each with the
  manifest of a structural definition, and the types these definitions serve are, in group,
  version, kind and list kind, exactly the types the control plane registers, except for the
  proxy itself, whose definition is written by hand.
\<close>

theorem generated_types_registered:
  assumes "scheme_laws l known" and "main_init l = Some s"
    and "parse root_flags required_flags = FlagsSet [(''message'', SliceValue documented_messages)]"
    and "Execute parse io = (0, errs, out)"
    and "\<forall>fqn \<in> set documented_messages. \<forall>m.
      gomap_get (Messages (fst (ParseDir (io_source io) ''../proto''))) fqn = Some m \<longrightarrow> CHR ''.'' \<notin> set (Message_Name m)"
  shows "map fst (out_files out) =
      [''../crds/listeners.mesh.iglin.io.yaml'', ''../crds/clusters.mesh.iglin.io.yaml'',
       ''../crds/routeconfigurations.mesh.iglin.io.yaml'', ''../crds/scopedrouteconfigurations.mesh.iglin.io.yaml'',
       ''../crds/clusterloadassignments.mesh.iglin.io.yaml''] \<and>
    (\<exists>crds. list_all2 (holds_manifest io) (out_files out) crds \<and> (\<forall>crd \<in> set crds. structural_crd crd) \<and>
       (\<Union>crd \<in> set crds. crd_types crd) =
         {(gv, MeshType t) |gv t. (gv, MeshType t) \<in> known s \<and> t \<notin> {''EnvoyProxy'', ''EnvoyProxyList''}})"
proof -
  define reg where "reg = fst (ParseDir (io_source io) ''../proto'')"
  obtain ms where ms: "map (gomap_get (Messages reg)) documented_messages = map Some ms"
      "list_all (written_ok io) (manifests io documented_cfg reg wellKnownSchemas ms)"
    and files: "out_files out = map (\<lambda>(p, r). (p, projr r)) (manifests io documented_cfg reg wellKnownSchemas ms)"
    using documented_run [OF assms(3,4) reg_def] by blast
  have names: "map Message_Name ms = map snd documented_kinds"
    by (rule documented_names [OF _ ms(1)]) (use assms(5) reg_def registry_wf_ParseDir in auto)
  have "map fst (out_files out) = map (outFile documented_cfg) ms"
    unfolding files manifests_paths [of io documented_cfg reg wellKnownSchemas, symmetric] by (simp add: split_def)
  also have "\<dots> = map (\<lambda>n. filepath_Join ''../crds'' (ToLower n @ ''s.mesh.iglin.io.yaml'')) (map Message_Name ms)"
    by (simp add: documented_path)
  finally have paths: "map fst (out_files out) = \<dots>" .
  have cfg: "KindExtraProps documented_cfg = kindExtraProps"
      "\<lparr>gv_Group = Group documented_cfg, gv_Version = Version documented_cfg\<rparr> = SchemeGroupVersion"
    by (simp_all add: documented_cfg_def default_cfg_eq SchemeGroupVersion_def)
  let ?crds = "encoded documented_cfg reg wellKnownSchemas ms"
  have "list_all2 (holds_manifest io) (out_files out) ?crds" unfolding files by (rule manifests_encoded [OF ms(2)])
  moreover have "\<forall>crd \<in> set ?crds. structural_crd crd"
    by (rule encoded_structural [OF cfg(1) wellKnownSchemas_structural])
  moreover have "(\<Union>crd \<in> set ?crds. crd_types crd) =
      {(gv, MeshType t) |gv t. (gv, MeshType t) \<in> known s \<and> t \<notin> {''EnvoyProxy'', ''EnvoyProxyList''}}"
    unfolding encoded_types names main_init_mesh_types [OF assms(1,2)] documented_types product_image cfg by (rule refl)
  ultimately show ?thesis using paths unfolding names documented_paths by blast
qed

text \<open>A proto tree with the documented messages and a command line parser that finds them.\<close>

definition mesh_source :: proto_source where
  "mesh_source =
     \<lparr>Lstat = (\<lambda>_. Inr (DirEntry None [(''cluster.proto'', FileEntry), (''endpoint.proto'', FileEntry), (''listener.proto'', FileEntry),
        (''route.proto'', FileEntry)])),
      Open = Inr,
      Parse = (\<lambda>f. Inr
        (if f = ''../proto/cluster.proto'' then
           [PPackage ''envoy.config.cluster.v3'', PMessage ''Cluster'' None [PNormalField ''self'' ''Cluster'' True None]]
         else if f = ''../proto/endpoint.proto'' then
           [PPackage ''envoy.config.endpoint.v3'', PMessage ''ClusterLoadAssignment'' None [PMapField ''named'' ''string'' ''google.protobuf.Value'']]
         else if f = ''../proto/listener.proto'' then
           [PPackage ''envoy.config.listener.v3'', PMessage ''Listener'' None []]
         else
           [PPackage ''envoy.config.route.v3'', PMessage ''RouteConfiguration'' None [], PMessage ''ScopedRouteConfiguration'' None []]))\<rparr>"

definition mesh_io :: gen_io where
  "mesh_io = example_io\<lparr>io_source := mesh_source\<rparr>"

definition mesh_parse :: cobra_parse where
  "mesh_parse flags required = FlagsSet [(''message'', SliceValue documented_messages)]"

lemma mesh_names:
  "list_all (\<lambda>fqn. case gomap_get (Messages (fst (ParseDir (io_source mesh_io) ''../proto''))) fqn of
     None \<Rightarrow> False | Some m \<Rightarrow> CHR ''.'' \<notin> set (Message_Name m)) documented_messages"
  by code_simp

lemma mesh_parsed: "snd (ParseDir (io_source mesh_io) ''../proto'') = None"
  by code_simp

lemma mesh_written: "list_all (written_ok mesh_io) (manifests mesh_io cfg reg wk ms)"
  by (induction ms arbitrary: wk)
    (simp_all add: written_ok_iff manifest_def marshalCRD_def mesh_io_def example_io_def)

lemma mesh_success: "\<exists>out. Execute mesh_parse mesh_io = (0, [], out)"
proof -
  define reg where "reg = fst (ParseDir (io_source mesh_io) ''../proto'')"
  have parsed: "ParseDir (io_source mesh_io) (ProtoDir documented_cfg) = (reg, None)"
    using mesh_parsed by (simp add: reg_def prod_eq_iff)
  have "gomap_get (Messages reg) fqn = Some (the (gomap_get (Messages reg) fqn))" if "fqn \<in> set documented_messages" for fqn
    using mesh_names that by (auto simp: list_all_iff reg_def split: option.splits)
  then have "map (gomap_get (Messages reg)) documented_messages =
      map Some (map (\<lambda>fqn. the (gomap_get (Messages reg) fqn)) documented_messages)"
    by (simp only: map_map comp_def map_eq_conv) blast
  moreover have "MkdirAll mesh_io (OutDir documented_cfg) = None" by (simp add: mesh_io_def example_io_def)
  ultimately have "fst (Run mesh_io documented_cfg wellKnownSchemas) = None"
    unfolding Run_ok [OF parsed] documented_cfg_simps documented_not_blocked using mesh_written by blast
  then obtain out wk where "Run mesh_io documented_cfg wellKnownSchemas = (None, out, wk)" by (metis prod.collapse)
  then show ?thesis using Execute_documented [of mesh_parse mesh_io] by (simp add: mesh_parse_def)
qed

theorem generated_types_registered_witness:
  "\<exists>s out crds. main_init example_scheme_lib = Some s \<and> Execute mesh_parse mesh_io = (0, [], out) \<and>
     length (out_files out) = 5 \<and> list_all2 (holds_manifest mesh_io) (out_files out) crds \<and>
     (SchemeGroupVersion, MeshType ''ListenerList'') \<in> (\<Union>crd \<in> set crds. crd_types crd)"
proof -
  obtain s where s: "main_init example_scheme_lib = Some s" using main_init_Some [OF example_scheme_laws] by blast
  obtain out where run: "Execute mesh_parse mesh_io = (0, [], out)" using mesh_success by blast
  have parse: "mesh_parse root_flags required_flags = FlagsSet [(''message'', SliceValue documented_messages)]"
    by (simp add: mesh_parse_def)
  have "\<forall>fqn \<in> set documented_messages. \<forall>m.
      gomap_get (Messages (fst (ParseDir (io_source mesh_io) ''../proto''))) fqn = Some m \<longrightarrow> CHR ''.'' \<notin> set (Message_Name m)"
    using mesh_names by (auto simp: list_all_iff split: option.splits)
  note fits = generated_types_registered [OF example_scheme_laws s parse run this]
  from arg_cong [OF conjunct1 [OF fits], of length] have "length (out_files out) = 5" by simp
  moreover have "(SchemeGroupVersion, MeshType ''ListenerList'') \<in> s"
    unfolding main_init_mesh_types [OF example_scheme_laws s] by simp
  then have "(SchemeGroupVersion, MeshType ''ListenerList'') \<in>
      {(gv, MeshType t) |gv t. (gv, MeshType t) \<in> s \<and> t \<notin> {''EnvoyProxy'', ''EnvoyProxyList''}}" by simp
  moreover obtain crds where crds: "list_all2 (holds_manifest mesh_io) (out_files out) crds"
    "(\<Union>crd \<in> set crds. crd_types crd) = {(gv, MeshType t) |gv t. (gv, MeshType t) \<in> s \<and> t \<notin> {''EnvoyProxy'', ''EnvoyProxyList''}}"
    using conjunct2 [OF fits] by blast
  ultimately show ?thesis using s run unfolding crds(2) [symmetric] by blast
qed

end
