(* ===== verification/Test_Utils.thy ===== *)
theory Test_Utils
  imports Go_Strings
begin

text \<open>
  \<open>control-plane/test/utils/utils.go\<close>: the helpers of the end-to-end tests. What they do to the
  outside (commands, files, environment variables, the working directory) goes through the record
  \<open>os_lib\<close>; \<open>fmt_q\<close> is the verb \<open>%q\<close> of \<open>fmt\<close>. \<open>Index\<close>, \<open>Contains\<close>, \<open>ReplaceAll\<close> and the line
  scanner of \<open>bufio\<close> are modelled.
\<close>

section \<open>Strings and lines\<close>

abbreviation NL :: char where "NL \<equiv> CHR 0x0A"

fun Index :: "string \<Rightarrow> string \<Rightarrow> nat option" where
  "Index [] sub = (if sub = [] then Some 0 else None)"
| "Index (c # s) sub = (if HasPrefix (c # s) sub then Some 0 else map_option Suc (Index s sub))"

definition Contains :: "string \<Rightarrow> string \<Rightarrow> bool" where
  "Contains s sub \<longleftrightarrow> Index s sub \<noteq> None"

lemma Index_Some:
  "Index s sub = Some i \<Longrightarrow> s = take i s @ sub @ drop (i + length sub) s"
proof (induction s sub arbitrary: i rule: Index.induct)
  case (2 c s sub)
  show ?case
  proof (cases "HasPrefix (c # s) sub")
    case True
    with 2 show ?thesis unfolding HasPrefix_def by (metis Index.simps(2) True add_0 append_Nil append_take_drop_id option.inject take_0)
  next
    case False
    with 2 obtain k where "Index s sub = Some k" "i = Suc k" by auto
    with 2 False show ?thesis by auto
  qed
qed (auto split: if_splits)

lemma Index_Some_length: "Index s sub = Some i \<Longrightarrow> i + length sub \<le> length s"
  by (induction s sub arbitrary: i rule: Index.induct)
    (auto simp: HasPrefix_iff dest: arg_cong [where f = length] split: if_splits)

text \<open>\<open>strings.ReplaceAll\<close>; an empty old string matches around every byte (of an ASCII string).\<close>

function ReplaceAll :: "string \<Rightarrow> string \<Rightarrow> string \<Rightarrow> string" where
  "ReplaceAll s old new =
     (if old = [] then new @ concat (map (\<lambda>c. c # new) s)
      else case Index s old of
        None \<Rightarrow> s
      | Some i \<Rightarrow> take i s @ new @ ReplaceAll (drop (i + length old) s) old new)"
  by pat_completeness auto

termination ReplaceAll
proof (relation "measure (\<lambda>(s, old, new). length s)")
  fix s old new :: string and i :: nat
  assume "old \<noteq> []" "Index s old = Some i"
  then show "((drop (i + length old) s, old, new), s, old, new) \<in> measure (\<lambda>(s, old, new). length s)"
    using Index_Some_length [of s old i] by (cases old; cases s) auto
qed simp

text \<open>
  The tokens of \<open>bufio.NewScanner\<close> with \<open>ScanLines\<close>: a carriage return at the end of a line is dropped,
  there is no line after the last line break, and scanning ends at a line that does not
  fit into the buffer of 64 KiB.
\<close>

definition drop_cr :: "string \<Rightarrow> string" where
  "drop_cr l = (if l \<noteq> [] \<and> last l = CHR 0x0D then butlast l else l)"

function scan_lines :: "string \<Rightarrow> string list" where
  "scan_lines s =
     (if s = [] then []
      else let line = takeWhile (\<lambda>c. c \<noteq> NL) s in
        if 65536 \<le> length line then [] else drop_cr line # scan_lines (drop (Suc (length line)) s))"
  by pat_completeness auto

termination
  by (relation "measure length") auto

declare ReplaceAll.simps [simp del] scan_lines.simps [simp del]

section \<open>The helpers\<close>

record exec_Cmd =
  cmd_Args :: "string list"
  cmd_Dir :: string
  cmd_Env :: "string list"

record 'x os_lib =
  Getwd :: "'x \<Rightarrow> string \<times> go_error option"
  Chdir :: "'x \<Rightarrow> string \<Rightarrow> go_error option \<times> 'x"
  Environ :: "'x \<Rightarrow> string list"
  LookupEnv :: "'x \<Rightarrow> string \<Rightarrow> string option"
  CombinedOutput :: "'x \<Rightarrow> exec_Cmd \<Rightarrow> (string \<times> go_error option) \<times> 'x"
  ReadFile :: "'x \<Rightarrow> string \<Rightarrow> string result"
  WriteFile :: "'x \<Rightarrow> string \<Rightarrow> string \<Rightarrow> go_error option \<times> 'x"
  fmt_q :: "string \<Rightarrow> string"

text \<open>The outside and what was written to \<open>GinkgoWriter\<close>.\<close>

record 'x testing =
  t_os :: 'x
  t_out :: "string list"

definition Command :: "string list \<Rightarrow> exec_Cmd" where
  "Command args = \<lparr>cmd_Args = args, cmd_Dir = [], cmd_Env = []\<rparr>"

definition certmanagerURL :: string where
  "certmanagerURL = ''https://github.com/cert-manager/cert-manager/releases/download/'' @ ''v1.20.2'' @ ''/cert-manager.yaml''"

definition warnError :: "go_error \<Rightarrow> 'x testing \<Rightarrow> 'x testing" where
  "warnError err t = t\<lparr>t_out := t_out t @ [''warning: '' @ error_text err @ [NL]]\<rparr>"

definition GetProjectDir :: "'x os_lib \<Rightarrow> 'x \<Rightarrow> string \<times> go_error option" where
  "GetProjectDir os x = (case Getwd os x of
     (wd, Some err) \<Rightarrow> (wd, Some (Wrapped ''failed to get current working directory: '' err))
   | (wd, None) \<Rightarrow> (ReplaceAll wd ''/test/e2e'' [], None))"

definition test_Run :: "'x os_lib \<Rightarrow> exec_Cmd \<Rightarrow> 'x testing \<Rightarrow> (string \<times> go_error option) \<times> 'x testing" where
  "test_Run os cmd t =
     (let dir = fst (GetProjectDir os (t_os t));
          (cerr, x1) = Chdir os (t_os t) dir;
          out1 = (case cerr of None \<Rightarrow> [] | Some err \<Rightarrow> [''chdir dir: '' @ fmt_q os (error_text err) @ [NL]]);
          cmd1 = cmd\<lparr>cmd_Dir := dir, cmd_Env := Environ os x1 @ [''GO111MODULE=on'']\<rparr>;
          command = Join (cmd_Args cmd) '' '';
          ((output, err), x2) = CombinedOutput os x1 cmd1;
          t1 = \<lparr>t_os = x2, t_out = t_out t @ out1 @ [''running: '' @ fmt_q os command @ [NL]]\<rparr>
      in case err of
           Some e \<Rightarrow> ((output, Some (Wrapped (fmt_q os command @ '' failed with error '' @ fmt_q os output @ '': '') e)), t1)
         | None \<Rightarrow> ((output, None), t1))"

text \<open>A command whose failure is only a warning.\<close>

definition run_or_warn :: "'x os_lib \<Rightarrow> string list \<Rightarrow> 'x testing \<Rightarrow> 'x testing" where
  "run_or_warn os args t =
     (let ((output, err), t1) = test_Run os (Command args) t in
      case err of None \<Rightarrow> t1 | Some e \<Rightarrow> warnError e t1)"

definition UninstallCertManager :: "'x os_lib \<Rightarrow> 'x testing \<Rightarrow> 'x testing" where
  "UninstallCertManager os t =
     foldl (\<lambda>t lease. run_or_warn os [''kubectl'', ''delete'', ''lease'', lease,
         ''-n'', ''kube-system'', ''--ignore-not-found'', ''--force'', ''--grace-period=0''] t)
       (run_or_warn os [''kubectl'', ''delete'', ''-f'', certmanagerURL] t)
       [''cert-manager-cainjector-leader-election'', ''cert-manager-controller'']"

definition InstallCertManager :: "'x os_lib \<Rightarrow> 'x testing \<Rightarrow> go_error option \<times> 'x testing" where
  "InstallCertManager os t =
     (let ((out1, err1), t1) = test_Run os (Command [''kubectl'', ''apply'', ''-f'', certmanagerURL]) t in
      case err1 of
        Some err \<Rightarrow> (Some err, t1)
      | None \<Rightarrow>
          (let ((out2, err2), t2) = test_Run os (Command [''kubectl'', ''wait'', ''deployment.apps/cert-manager-webhook'',
                 ''--for'', ''condition=Available'', ''--namespace'', ''cert-manager'', ''--timeout'', ''5m'']) t1
           in (err2, t2)))"

definition GetNonEmptyLines :: "string \<Rightarrow> string list" where
  "GetNonEmptyLines output = foldl (\<lambda>res element. if element \<noteq> [] then res @ [element] else res) [] (Split output NL)"

definition certManagerCRDs :: "string list" where
  "certManagerCRDs = [''certificates.cert-manager.io'', ''issuers.cert-manager.io'', ''clusterissuers.cert-manager.io'',
     ''certificaterequests.cert-manager.io'', ''orders.acme.cert-manager.io'', ''challenges.acme.cert-manager.io'']"

definition IsCertManagerCRDsInstalled :: "'x os_lib \<Rightarrow> 'x testing \<Rightarrow> bool \<times> 'x testing" where
  "IsCertManagerCRDsInstalled os t =
     (let ((output, err), t1) = test_Run os (Command [''kubectl'', ''get'', ''crds'']) t in
      case err of
        Some e \<Rightarrow> (False, t1)
      | None \<Rightarrow>
          (let crdList = GetNonEmptyLines output in
           (list_ex (\<lambda>crd. list_ex (\<lambda>line. Contains line crd) crdList) certManagerCRDs, t1)))"

definition LoadImageToKindClusterWithName :: "'x os_lib \<Rightarrow> string \<Rightarrow> 'x testing \<Rightarrow> go_error option \<times> 'x testing" where
  "LoadImageToKindClusterWithName os name t =
     (let cluster = (case LookupEnv os (t_os t) ''KIND_CLUSTER'' of Some v \<Rightarrow> v | None \<Rightarrow> ''kind'');
          kindBinary = (case LookupEnv os (t_os t) ''KIND'' of Some v \<Rightarrow> v | None \<Rightarrow> ''kind'');
          ((output, err), t1) = test_Run os (Command (kindBinary # [''load'', ''docker-image'', name, ''--name'', cluster])) t
      in (err, t1))"

text \<open>\<open>UncommentCode\<close>; writes to a \<open>bytes.Buffer\<close> do not fail.\<close>

definition uncomment_lines :: "string \<Rightarrow> string \<Rightarrow> string \<Rightarrow> string list \<Rightarrow> string" where
  "uncomment_lines out prefix l ls = foldl (\<lambda>out line. out @ [NL] @ TrimPrefix line prefix) (out @ TrimPrefix l prefix) ls"

definition UncommentCode :: "'x os_lib \<Rightarrow> string \<Rightarrow> string \<Rightarrow> string \<Rightarrow> 'x \<Rightarrow> go_error option \<times> 'x" where
  "UncommentCode os filename target prefix x = (case ReadFile os x filename of
     Inl err \<Rightarrow> (Some (Wrapped (''failed to read file '' @ fmt_q os filename @ '': '') err), x)
   | Inr content \<Rightarrow>
      (case Index content target of
         None \<Rightarrow> (Some (GoError (''unable to find the code '' @ fmt_q os target @ '' to be uncommented'')), x)
       | Some idx \<Rightarrow>
          (case scan_lines target of
             [] \<Rightarrow> (None, x)
           | l # ls \<Rightarrow>
               (let out = uncomment_lines (take idx content) prefix l ls @ drop (idx + length target) content;
                    (werr, x1) = WriteFile os x filename out
                in (case werr of
                      Some err \<Rightarrow> (Some (Wrapped (''failed to write file '' @ fmt_q os filename @ '': '') err), x1)
                    | None \<Rightarrow> (None, x1))))))"


section \<open>Properties\<close>

lemma Index_hit: "\<exists>i. Index (u @ sub @ v) sub = Some i"
proof (induction u)
  case Nil
  have "HasPrefix (sub @ v) sub" by (simp add: HasPrefix_def)
  then show ?case by (cases "sub @ v") auto
qed auto

lemma Contains_iff: "Contains s sub \<longleftrightarrow> (\<exists>u v. s = u @ sub @ v)"
proof
  assume "Contains s sub"
  then obtain i where "Index s sub = Some i" by (auto simp: Contains_def)
  then show "\<exists>u v. s = u @ sub @ v" using Index_Some by blast
qed (auto simp: Contains_def Index_hit)

text \<open>A string without line breaks is in a text exactly if it is in one of its lines.\<close>

lemma Split_contains:
  assumes "c \<notin> set sub"
  shows "(\<exists>line \<in> set (Split s c). Contains line sub) \<longleftrightarrow> Contains s sub"
proof
  assume "\<exists>line \<in> set (Split s c). Contains line sub"
  then obtain xs line ys u v where "Split s c = xs @ line # ys" "line = u @ sub @ v"
    by (auto simp: Contains_iff in_set_conv_decomp)
  then have "s = Join (xs @ (u @ sub @ v) # ys) [c]" using Join_Split [of s c] by simp
  moreover have "\<exists>a b. Join (xs @ (u @ sub @ v) # ys) [c] = a @ sub @ b"
  proof (cases "xs = []")
    case True
    then show ?thesis by (cases ys) auto
  next
    case False
    then show ?thesis
      by (cases ys) (auto simp: Join_append intro: exI [of _ "Join xs [c] @ c # u"])
  qed
  ultimately show "Contains s sub" by (auto simp: Contains_iff)
next
  assume "Contains s sub"
  then obtain u v where s: "s = u @ sub @ v" by (auto simp: Contains_iff)
  have line: "\<exists>line \<in> set (Split (u @ sub @ v) c). Contains line sub" if "c \<notin> set u" for u
  proof (cases "c \<in> set v")
    case True
    then obtain v1 v2 where "v = v1 @ c # v2" "c \<notin> set v1" by (meson split_list_first)
    with that assms have "Split (u @ sub @ v) c = (u @ sub @ v1) # Split v2 c"
      using Split_append_sep [of c "u @ sub @ v1" v2] by simp
    then show ?thesis by (auto simp: Contains_iff)
  next
    case False
    with that assms have "Split (u @ sub @ v) c = [u @ sub @ v]" by (intro Split_no_sep) auto
    then show ?thesis by (auto simp: Contains_iff)
  qed
  show "\<exists>line \<in> set (Split s c). Contains line sub"
  proof (cases "c \<in> set u")
    case True
    then obtain u1 u2 where u: "u = u1 @ c # u2" "c \<notin> set u2" by (meson split_list_last)
    then have "Split s c = Split u1 c @ Split (u2 @ sub @ v) c" using Split_append [of u1 c "u2 @ sub @ v"] by (simp add: s)
    with line [OF u(2)] show ?thesis by auto
  qed (use line s in simp)
qed

text \<open>
  The check for cert-manager says yes exactly if \<open>kubectl get crds\<close> succeeds and its output contains the name of
  one of the six resource definitions; splitting it into lines makes no difference.
\<close>

theorem IsCertManagerCRDsInstalled_iff:
  "fst (IsCertManagerCRDsInstalled os t) \<longleftrightarrow>
     (let ((output, err), t1) = test_Run os (Command [''kubectl'', ''get'', ''crds'']) t in
      err = None \<and> (\<exists>crd \<in> set certManagerCRDs. Contains output crd))"
proof -
  have lines: "GetNonEmptyLines res = filter (\<lambda>l. l \<noteq> []) (Split res NL)" for res
    by (simp add: GetNonEmptyLines_def go_loop)
  have "(\<exists>line \<in> set (GetNonEmptyLines res). Contains line crd) \<longleftrightarrow> Contains res crd" if "crd \<in> set certManagerCRDs" for res crd
  proof -
    from that have "NL \<notin> set crd" and "crd \<noteq> []" by (auto simp: certManagerCRDs_def)
    moreover from this(2) have "\<not> Contains [] crd" by (simp add: Contains_def)
    then have "(\<exists>line \<in> set (GetNonEmptyLines res). Contains line crd) \<longleftrightarrow> (\<exists>line \<in> set (Split res NL). Contains line crd)"
      by (auto simp: lines)
    ultimately show ?thesis using Split_contains by simp
  qed
  then have "list_ex (\<lambda>crd. list_ex (\<lambda>line. Contains line crd) (GetNonEmptyLines res)) certManagerCRDs \<longleftrightarrow>
      (\<exists>crd \<in> set certManagerCRDs. Contains res crd)" for res
    by (simp add: list_ex_iff)
  then show ?thesis
    by (simp add: IsCertManagerCRDsInstalled_def Let_def split: prod.split option.split)
qed

lemma scan_lines_Join:
  assumes "\<forall>l \<in> set ls. NL \<notin> set l \<and> length l < 65536 \<and> drop_cr l = l" and "ls \<noteq> []" and "last ls \<noteq> []"
  shows "scan_lines (Join ls [NL]) = ls"
  using assms
proof (induction ls)
  case (Cons l ls)
  show ?case
  proof (cases "ls = []")
    case True
    have "scan_lines [] = []" by (simp add: scan_lines.simps)
    moreover from Cons.prems have "takeWhile (\<lambda>c. c \<noteq> NL) l = l" by (auto simp: takeWhile_eq_all_conv)
    ultimately show ?thesis using True Cons.prems by (subst scan_lines.simps) (simp add: Let_def del: takeWhile_eq_all_conv)
  next
    case False
    from Cons.prems have "takeWhile (\<lambda>c. c \<noteq> NL) (l @ NL # Join ls [NL]) = l"
      by (subst takeWhile_append2) auto
    with False Cons show ?thesis by (subst scan_lines.simps) (simp add: Let_def Join_Cons)
  qed
qed simp

lemma uncomment_lines_Join:
  "uncomment_lines out prefix l ls = out @ Join (map (\<lambda>l. TrimPrefix l prefix) (l # ls)) [NL]"
proof -
  have "foldl (\<lambda>out line. out @ [NL] @ TrimPrefix line prefix) out ls = out @ concat (map (\<lambda>l. NL # TrimPrefix l prefix) ls)" for out
    by (induction ls arbitrary: out) simp_all
  moreover have "Join (map f (l # ls)) [NL] = f l @ concat (map (\<lambda>l. NL # f l) ls)" for f :: "string \<Rightarrow> string"
    by (induction ls arbitrary: l) simp_all
  from this [of "\<lambda>l. TrimPrefix l prefix"] calculation show ?thesis by (simp add: uncomment_lines_def)
qed

lemma TrimPrefix_append [simp]: "TrimPrefix (p @ s) p = s"
  by (simp add: TrimPrefix_def HasPrefix_def)

text \<open>
  C40. \<open>UncommentCode\<close> undoes commenting out: if the first occurrence of the target is a block of lines each with the prefix in front,
  the file is written once, with the same lines without the prefix and everything around
  them as it was. The lines are to be of moderate length and without carriage returns at their ends.
\<close>

theorem UncommentCode_restores:
  assumes "ReadFile os x filename = Inr (before @ target @ after)"
    and "Index (before @ target @ after) target = Some (length before)"
    and "target = Join (map (\<lambda>l. prefix @ l) ls) [NL]" and "ls \<noteq> []" and "prefix @ last ls \<noteq> []"
    and "\<forall>l \<in> set ls. NL \<notin> set (prefix @ l) \<and> length (prefix @ l) < 65536 \<and> drop_cr (prefix @ l) = prefix @ l"
    and "WriteFile os x filename (before @ Join ls [NL] @ after) = (None, x')"
  shows "UncommentCode os filename target prefix x = (None, x')"
proof -
  let ?cs = "map (\<lambda>l. prefix @ l) ls"
  have "scan_lines target = ?cs"
    unfolding assms(3) using assms(4-6) by (intro scan_lines_Join) (auto simp: last_map)
  then obtain c cs where cs: "scan_lines target = c # cs" "c # cs = ?cs" using assms(4) by (cases ls) auto
  then have "uncomment_lines out prefix c cs = out @ Join ls [NL]" for out
    by (simp add: uncomment_lines_Join comp_def)
  with cs(1) assms(1,2,7) show ?thesis by (simp add: UncommentCode_def Let_def)
qed

text \<open>
  A line break at the end of the target is not written back: the line after the block is joined to its last line.
\<close>

lemma UncommentCode_joins_next_line:
  assumes "ReadFile os x filename = Inr (before @ target @ after)"
    and "Index (before @ target @ after) target = Some (length before)"
    and "target = prefix @ l @ [NL]" and "NL \<notin> set (prefix @ l)" and "length (prefix @ l) < 65536"
    and "drop_cr (prefix @ l) = prefix @ l"
  shows "UncommentCode os filename target prefix x =
    (case WriteFile os x filename (before @ l @ after) of
       (Some err, x') \<Rightarrow> (Some (Wrapped (''failed to write file '' @ fmt_q os filename @ '': '') err), x')
     | (None, x') \<Rightarrow> (None, x'))"
proof -
  have "takeWhile (\<lambda>c. c \<noteq> NL) target = prefix @ l"
    unfolding assms(3) append_assoc [symmetric] using assms(4) by (subst takeWhile_append2) auto
  then have "scan_lines target = [prefix @ l]"
    using assms(3,5,6) by (subst scan_lines.simps) (simp add: Let_def, simp add: scan_lines.simps)
  with assms(1,2) show ?thesis
    by (simp add: UncommentCode_def Let_def uncomment_lines_Join split: prod.split option.split)
qed

text \<open>A file with two lines commented out.\<close>

definition example_os :: "(string, string) gomap os_lib" where
  "example_os = \<lparr>Getwd = (\<lambda>x. (''/repo/test/e2e'', None)), Chdir = (\<lambda>x dir. (None, x)), Environ = (\<lambda>x. []),
     LookupEnv = (\<lambda>x v. None), CombinedOutput = (\<lambda>x cmd. (([], None), x)),
     ReadFile = (\<lambda>x f. case gomap_get x f of None \<Rightarrow> Inl (GoError ''no such file'') | Some c \<Rightarrow> Inr c),
     WriteFile = (\<lambda>x f c. (None, gomap_set f c x)), fmt_q = (\<lambda>s. s)\<rparr>"

theorem UncommentCode_restores_witness:
  "UncommentCode example_os ''f'' (''#a'' @ [NL] @ ''#b'') ''#'' [(''f'', ''x'' @ [NL] @ ''#a'' @ [NL] @ ''#b'' @ [NL])] =
     (None, [(''f'', ''x'' @ [NL] @ ''a'' @ [NL] @ ''b'' @ [NL])])"
  by (rule UncommentCode_restores [of _ _ _ "''x'' @ [NL]" _ "[NL]" _ "[''a'', ''b'']"])
    (simp_all add: example_os_def HasPrefix_def drop_cr_def)

end
