(* ===== verification/Spec2Isabelle.thy ===== *)
theory Spec2Isabelle
  imports Endpoint_Flow List_Order Extensions Control_Main Mesh_Api Test_Utils
begin

text \<open>
  A verification of envoy-mesh, a Kubernetes control plane for Envoy proxies and the generator
  of its custom resource definitions. All sources are Go, under \<open>src/control-plane\<close> and
  \<open>src/crd-gen\<close>.

  \<^bold>\<open>The program.\<close> The control plane watches \<open>EnvoyProxy\<close> resources and five kinds of xDS resources
  that refer to a proxy. For each proxy a reconcile collects the resources that target it,
  synthesises endpoint assignments from the endpoint slices of Kubernetes services, builds
  a snapshot with a version, puts it into the snapshot cache of the xDS server under the node
  id of the proxy, and reports the status. The xDS server keeps the table of connected
  proxies. The generator reads a tree of proto files into a registry of messages and enums,
  converts messages to OpenAPI schemas and writes one CRD manifest per message.

  \<^bold>\<open>Theories.\<close> Each theory has the definitions of one part of the program, in the order of the
  source, then its lemmas and properties.

    \<^item> \<open>Go_Prelude\<close>: results with errors (\<open>go_error\<close>, \<open>result\<close>), Go maps, loop shapes; the locale
      \<open>keyed_store\<close> is the contract of a Go map, interpreted on association lists.
    \<^item> \<open>Go_Strings\<close>, \<open>Go_Filepath\<close>, \<open>Go_Json\<close>, \<open>Go_Sha256\<close>: the parts of the Go library the program
      uses (\<open>strings\<close>, \<open>path/filepath\<close>, the scanner and string decoding of \<open>encoding/json\<close>,
      \<open>crypto/sha256\<close> with \<open>encoding/hex\<close>).
    \<^item> \<open>Go_Heap\<close>: memory with pointers and slices, and the shapes of generated copy code; the locales
      \<open>deep_value\<close>, \<open>value_copier\<close>, \<open>field_copier\<close> and \<open>deep_copier\<close> are the contracts of values with pointers
      and of the methods that copy them.
    \<^item> \<open>Api_Types\<close>: \<open>control-plane/api/v1alpha1\<close>, one record per resource kind.
    \<^item> \<open>Deep_Copy\<close>: \<open>api/v1alpha1/zz_generated.deepcopy.go\<close>, on the memory of \<open>Go_Heap\<close>.
    \<^item> \<open>Scheme\<close>: \<open>api/v1alpha1/groupversion_info.go\<close>, the \<open>init\<close> functions of the type files and of \<open>cmd/main.go\<close>.
    \<^item> \<open>Eds\<close>: \<open>internal/xds/eds.go\<close> (\<open>ClusterName\<close>, \<open>SynthesizeCLA\<close>, \<open>resolvePort\<close>).
    \<^item> \<open>Snapshot\<close>: \<open>internal/xds/snapshot.go\<close> (\<open>unmarshalAll\<close>, \<open>BuildSnapshot\<close>).
    \<^item> \<open>Xds_Server\<close>: \<open>internal/xds/server.go\<close>; the locale \<open>presence_table\<close> is the contract of the
      connection table, \<open>stream_step\<close> the streams that call the callbacks.
    \<^item> \<open>Reconciler\<close>: \<open>internal/controller/envoyproxy_controller.go\<close>; the locale \<open>target_collector\<close> is
      what \<open>Reconcile\<close> relies on in each of its five collections, interpreted on all of them.
    \<^item> \<open>Control_Plane\<close>: reconciles one after the other.
    \<^item> \<open>Client_Calls\<close>: \<open>Reconcile\<close> once more, as the program of its single calls (\<open>Reconcile_prog\<close>), with its
      run alone (\<open>run_prog\<close>), its steps (\<open>call_step\<close>), and what it does when its reads see different
      states (\<open>ensures\<close>, \<open>reconcile_outcome\<close>).
    \<^item> \<open>Status_Writes\<close>: the status updates of a reconcile, the events they cause, and the reconcile
      that follows them.
    \<^item> \<open>Controller\<close>: the controller that \<open>SetupWithManager\<close> builds with its waiting events, work queue,
      running reconcile and retries as the step relation \<open>controller_step\<close>, and its invariant: every
      request is up to date or on its way (\<open>covered\<close>).
    \<^item> \<open>Settling\<close>: the same controller when nothing disturbs it (\<open>undisturbed_step\<close>): a measure falls with every
      step (\<open>settling\<close>).
    \<^item> \<open>Convergence\<close>: the properties of the running controller; the locale \<open>publication_barrier\<close> is what
      keeps the cache entry of a proxy as it is.
    \<^item> \<open>List_Order\<close>: the same controller when every list call is answered in an order of its own (\<open>shuffled_step\<close>), as the
      cached client of the manager does: when it comes to rest, and how it may not.
    \<^item> \<open>Endpoint_Flow\<close>: from the endpoint slices of services to the endpoint resources in the cache.
    \<^item> \<open>Extensions\<close>: \<open>internal/xds/extensions.go\<close> and proxies with a listener that cannot be decoded.
    \<^item> \<open>Control_Main\<close>: \<open>control-plane/cmd/main.go\<close>, setup and the running process, and the registration of the
      controller for its watches, which are those of the controller model (\<open>registered_watches\<close>).
    \<^item> \<open>Proto_Parser\<close>, \<open>Crd_Schema\<close>, \<open>Crd_Generator\<close>: \<open>crd-gen/internal/parser/parser.go\<close>,
      \<open>crd-gen/internal/schema/convert.go\<close>, and \<open>crd-gen/internal/generator/generator.go\<close> with
      \<open>crd-gen/cmd/root.go\<close> and \<open>crd-gen/main.go\<close>.
    \<^item> \<open>Crd_Structural\<close>: structural schemas (\<open>structural\<close>, \<open>structural_crd\<close>), which Kubernetes asks for, and that every
      manifest is made of them.
    \<^item> \<open>Mesh_Api\<close>: the definitions that the generator writes and the types that the control plane registers.
    \<^item> \<open>Test_Utils\<close>: \<open>control-plane/test/utils/utils.go\<close>, the helpers of the end-to-end tests.
    \<^item> this theory: from the start of the control plane to the contents of its cache.

  \<^bold>\<open>State.\<close> A reconcile changes a \<open>world\<close>: the API state as the client shows it, the server (cache and
  connection table), the error log and the list of status updates sent. The controller adds the
  events that wait for their handlers, the queued requests, and the running reconcile with the
  calls it has yet to make, its effects, and the API states there have been since it started. The proto registry and the variable
  \<open>wellKnownSchemas\<close> of the generator, which is shared through pointers and written to, are passed
  explicitly; pointers are \<open>Fresh\<close> or \<open>Shared\<close>. The copy methods work on a memory of cells.

  \<^bold>\<open>What is outside.\<close> The Kubernetes client, \<open>protojson\<close>, the snapshot constructor and cache of
  \<open>go-control-plane\<close> and \<open>meta.SetStatusCondition\<close> are the functions of the record \<open>deps\<close>; the
  copy methods of Kubernetes structs those of \<open>machinery\<close>; scheme and builder those of
  \<open>scheme_lib\<close>; the manager and the flag package those of \<open>main_lib\<close>; the file system, the proto
  parser and the YAML encoder those of \<open>proto_source\<close> and \<open>gen_io\<close>; cobra's reading of the
  command line is a parameter of \<open>Execute\<close>; the operating system those of \<open>os_lib\<close>. Most results hold for all such functions. Where a result needs a promise of them it is a named hypothesis (\<open>cache_laws\<close>,
  \<open>get_law\<close>, \<open>status_law\<close>, \<open>status_reads_law\<close>, \<open>status_write_law\<close>, \<open>namespace_law\<close>, \<open>condition_law\<close>, \<open>object_removed\<close>,
  \<open>any_law\<close>, \<open>protojson_law\<close>, \<open>machinery_ok\<close>, \<open>scheme_laws\<close>, \<open>cobra_law\<close>), and a witness shows it to hold in a concrete environment.

  \<^bold>\<open>What is shown.\<close> For the control plane: under every interleaving of changes, waiting events, single
  calls of reconciles, failing reads and retries, a proxy for which nothing is on its way
  has the snapshot of the current configuration in the cache; a controller that is left
  alone comes to rest, although status updates request their proxies again, if the orders in which lists come make
  no difference to what is collected, and then
  this holds of every proxy; the snapshots list exactly the ready addresses
  that the endpoint slices offer; the cache holds nothing but what a reconcile of the proxy built from its reads; a reconcile that runs alone does
  what the function \<open>Reconcile\<close> says; a change whose event enqueues no request of a proxy does not
  change what the proxy collects; reconciles of different proxies do not interfere; on every
  path the cache, the returned error and the status updates are what the code is to produce;
  the synthesised assignments are exactly the served addresses with lossless ports; a node
  reported connected has an open stream; deep copies share no memory with their originals;
  every type in use is registered; a listener with an unregistered extension blocks its
  proxy; setup reports the first step that fails, and the process exits with the right codes. Where the code falls short of its comments
  this is shown too: deleted proxies stay in the cache, connections are not reported when
  they change, manual assignments are not preferred, versions are ambiguous, and they depend on the order in
  which lists come, so that the reconcile of a proxy with two objects of a kind may request itself for ever.
  For the generator: the registry is exactly what the files declare and is well-formed, with every name in its scope;
  conversion ends on cyclic messages with a schema of bounded depth and does not depend on
  earlier conversions up to descriptions; names are resolved to the first registered
  candidate; a run writes exactly the requested manifests and stops at the first error; all
  its definitions have structural schemas. Called as documented, the generator writes
  definitions of exactly the types that the control plane registers, besides the proxy.

  \<^bold>\<open>Loops and bounds.\<close> No fuel is used: all recursions are structural or have a termination proof. The
  conversion of messages ends because the number of messages not yet visited falls; the
  JSON scanner is a fold over the bytes, trimming ends because the string gets shorter. A
  reconcile is a finite tree of calls. Undisturbed runs of the controller end because a
  lexicographic measure falls: whether the running reconcile will fail, the status updates
  that are still to come, what waits, the calls that are left; a run with lists in orders that agree is such a run. The versions of
  the examples are evaluated: a digest of a message of one block takes seconds. Ports are 32-bit words, with the conversion from \<open>int32\<close> to \<open>uint32\<close> written out.

  \<^bold>\<open>What is not modelled.\<close> Outside \<open>List_Order\<close> a list is a function of the API state, in its order too: the results on freshness
  compare with the lists in the order in which they were read. All reads go through one client whose view changes one object at a time; the
  delay between the API server and that view shows only in status updates, which may be seen
  at once or later. One reconcile runs at a time, as in the default of the manager. The
  capacity of slices is left out, as the copy methods never append. Log output is modelled
  for the errors of failed status updates, the connection lines of the server, the cache
  logger, the exits of \<open>main\<close> and the lines the generator and the test helpers print.
\<close>

section \<open>From the start of the program to the cache\<close>

text \<open>
  The reconcile that runs in a state can end with publishing a snapshot under a node id: that of the
  proxy it read, built from what its reads saw since it started.
\<close>

definition published :: "('s, 'res, 'snap, 'cache) deps \<Rightarrow> ('s, 'snap, 'cache) controller \<Rightarrow> string \<Rightarrow> 'snap \<Rightarrow> bool" where
  "published d c n snap \<longleftrightarrow>
     (\<exists>a k. c_active c = Some a \<and> run_rest a = CallSetSnapshot n snap k \<and> publishable d (run_seen a) (run_request a) n snap)"

lemma controller_step_cache:
  assumes "controller_step d c c'" and "running_ok d c" and "cache_laws d get" and "get (Cache (w_xds (c_world c'))) n = Some snap"
  shows "get (Cache (w_xds (c_world c))) n = Some snap \<or> published d c n snap"
  using assms(1)
proof (cases rule: controller_step.cases)
  case (call a evs w' l' p')
  from call(3) show ?thesis
  proof (cases rule: call_step_cases)
    case quiet
    with assms(4) call(1) show ?thesis by simp
  next
    case (publish m snap' k)
    with assms(4) call(1) have "get (snd (SetSnapshot d (Cache (w_xds (c_world c))) m snap')) n = Some snap" by simp
    from cache_laws_entry [OF assms(3) this] running_publishes [OF assms(2) call(2) publish(1)] publish(1) call(2)
    show ?thesis unfolding published_def by blast
  qed
qed (use assms(4) in simp_all)

text \<open>
  C4. Where a served snapshot comes from: start the program, let setup succeed, and let the controller run with the server that
  setup created, under any interleaving of changes, failures and torn reads. Whatever the
  cache then holds under a node id was published by a reconcile of a proxy with that node
  id, and is the snapshot built from what that reconcile read of the API while it ran.
\<close>

theorem snapshot_provenance:
  assumes "main_setup l scheme = SetupDone mgr srv addr" and "\<forall>n. get (newSnapshotCache l False) n = None"
    and "w_xds (c_world c0) = srv" and "c_active c0 = None" and "cache_laws d get" and "(controller_step d)\<^sup>*\<^sup>* c0 c"
    and "get (Cache (w_xds (c_world c))) n = Some snap"
  shows "\<exists>c1. (controller_step d)\<^sup>*\<^sup>* c0 c1 \<and> (controller_step d)\<^sup>*\<^sup>* c1 c \<and> published d c1 n snap"
  using assms(6,7)
proof (induction arbitrary: snap)
  case base
  from assms(1) have "srv = NewServer (newSnapshotCache l)"
    by (auto simp: main_setup_def Let_def split: sum.splits prod.splits option.splits)
  with assms(2,3) base show ?case by (simp add: NewServer_def)
next
  case (step c c')
  from controller_step_cache [OF step.hyps(2) running_ok_reachable [OF assms(4) step.hyps(1)] assms(5) step.prems] show ?case
  proof
    assume "get (Cache (w_xds (c_world c))) n = Some snap"
    from step.IH [OF this] step.hyps(2) show ?thesis by (blast intro: rtranclp.rtrancl_into_rtrancl)
  next
    assume "published d c n snap"
    with step.hyps show ?thesis by blast
  qed
qed

text \<open>The program set up in the environment of the witnesses, and a run that publishes a snapshot.\<close>

definition example_program :: "(unit, unit, unit, unit, (string, example_snapshot) gomap) main_lib" where
  "example_program = \<lparr>flag_Parse = Some, GetConfigOrDie = Some (), newSnapshotCache = (\<lambda>ads. []), NewManager = (\<lambda>config opts. Inr ()),
     GetClient = (\<lambda>mgr. ()), GetScheme = (\<lambda>mgr. ()), Complete = (\<lambda>b r mgr. (None, mgr)),
     AddHealthzCheck = (\<lambda>n mgr. (None, mgr)), AddReadyzCheck = (\<lambda>n mgr. (None, mgr))\<rparr>"

theorem snapshot_provenance_witness:
  "\<exists>c1 snap. (controller_step example_store)\<^sup>*\<^sup>* example_controller c1 \<and> published example_store c1 ''edge.default'' snap"
proof -
  have ready: "main_setup example_program () = SetupDone () (w_xds (c_world example_controller)) '':18000''"
    by (simp add: main_setup_def example_program_def SetupWithManager_def setup_options_def default_flags_def NewServer_def
        example_controller_def stored_world_def)
  have empty: "\<forall>n. gomap_get (newSnapshotCache example_program False) n = None" by (simp add: example_program_def)
  have idle: "c_active example_controller = None" "c_lost example_controller = {}" by (simp_all add: example_controller_def)
  obtain c where c: "(controller_step example_store)\<^sup>*\<^sup>* example_controller c" "quiet c"
    using settle [OF store_mesh_env store_status_write_law example_start _ idle(2) store_reconcilable] by blast
  have "up_to_date example_store gomap_get (c_world c) example_request"
    using settled_up_to_date [OF example_start c(1) _ _ _ _ store_mesh_env] c(2) by (simp add: quiet_def)
  then obtain snap where "gomap_get (Cache (w_xds (c_world c))) (node_of example_request) = Some snap"
    using store_get [of "c_api c"] by (auto simp: up_to_date_def proxy_key_def)
  then have "gomap_get (Cache (w_xds (c_world c))) ''edge.default'' = Some snap"
    by (simp add: node_of_def example_request_def)
  from snapshot_provenance [OF ready empty refl idle(1) mesh_envD(1) [OF store_mesh_env] c(1) this] show ?thesis by blast
qed

end
